(* ===== verification/Prelude.thy ===== *)
theory Prelude
  imports Main "HOL-Library.Word" "HOL-Library.Sublist" "HOL-Library.State_Monad"
begin

text \<open>
  Shared ground of the development: the machine types of the C sources, the memory image of
  16 and 32 bit integers with the byte order conversions of \<^verbatim>\<open><netinet/in.h>\<close>, the state monad in
  which the stateful code is written, and the list facts the components share.

  The host is a little-endian LP64 machine (x86-64 or AArch64 Linux, the platform the test-suite
  runs on): \<open>store32\<close> is what an assignment to a packed 32 bit field leaves in memory, \<open>load32\<close> what
  a read of such a field yields. \<open>htonl\<close> and \<open>ntohl\<close> reverse the memory image, so a field that is
  assigned through \<open>htonl\<close> is big-endian on the wire, and a field that is read without \<open>ntohl\<close> is
  byte-swapped, as in the C program.
\<close>

unbundle bit_operations_syntax

type_synonym byte = "8 word"
type_synonym u16 = "16 word"
type_synonym u32 = "32 word"

text \<open>The \<open>wire\<close> collection rewrites memory images, \<open>runs\<close> executes monadic code.\<close>

named_theorems wire
named_theorems runs

section \<open>C integers\<close>

text \<open>
  A C \<open>int\<close> is an \<open>int\<close> of HOL in the range of 32 bits; a conversion to it from a wider or from an
  unsigned type is \<open>c_int\<close> (two's complement, as gcc and clang define it), a conversion to
  \<open>unsigned int\<close> is \<open>word_of_int\<close>.
\<close>

definition c_int :: "int \<Rightarrow> int" where
  "c_int x = sint (word_of_int x :: u32)"

definition int_range :: "int \<Rightarrow> bool" where
  "int_range x \<longleftrightarrow> - (2 ^ 31) \<le> x \<and> x < 2 ^ 31"

lemma sint_word_of_int [simp]: "int_range x \<Longrightarrow> sint (word_of_int x :: u32) = x"
  by (simp add: int_range_def sint_sbintrunc' signed_take_bit_int_eq_self_iff)

lemma c_int_id [simp]: "int_range x \<Longrightarrow> c_int x = x"
  by (simp add: c_int_def)

lemma int_range_sint [simp]: "int_range (sint (w :: u32))"
  using sint_greater_eq [of w] sint_less [of w] by (simp add: int_range_def)

lemma int_range_c_int [simp]: "int_range (c_int x)"
  by (simp add: c_int_def)

lemma c_int_minus_one [simp]: "c_int (-1) = -1"
  by (simp add: c_int_def)

lemma c_int_zero [simp]: "c_int 0 = 0"
  by (simp add: c_int_def)

lemma int_range_of_nat [simp]: "n < 2 ^ 31 \<Longrightarrow> int_range (int n)"
  by (simp add: int_range_def)

lemma word_of_int_sint_u32 [simp]: "word_of_int (sint (w :: u32)) = w"
  by simp

section \<open>Memory images and byte order\<close>

definition store32 :: "u32 \<Rightarrow> byte list" where
  "store32 w = [ucast w, ucast (drop_bit 8 w), ucast (drop_bit 16 w), ucast (drop_bit 24 w)]"

definition load32 :: "byte list \<Rightarrow> u32" where
  "load32 bs = (case bs of b0 # b1 # b2 # b3 # _ \<Rightarrow>
     ucast b0 OR push_bit 8 (ucast b1) OR push_bit 16 (ucast b2) OR push_bit 24 (ucast b3) | _ \<Rightarrow> 0)"

definition store16 :: "u16 \<Rightarrow> byte list" where
  "store16 w = [ucast w, ucast (drop_bit 8 w)]"

definition load16 :: "byte list \<Rightarrow> u16" where
  "load16 bs = (case bs of b0 # b1 # _ \<Rightarrow> ucast b0 OR push_bit 8 (ucast b1) | _ \<Rightarrow> 0)"

definition htonl :: "u32 \<Rightarrow> u32" where
  "htonl w = load32 (rev (store32 w))"

definition htons :: "u16 \<Rightarrow> u16" where
  "htons w = load16 (rev (store16 w))"

abbreviation ntohl :: "u32 \<Rightarrow> u32" where "ntohl \<equiv> htonl"
abbreviation ntohs :: "u16 \<Rightarrow> u16" where "ntohs \<equiv> htons"

lemma length_store [simp]: "length (store32 w) = 4" "length (store16 v) = 2"
  by (simp_all add: store32_def store16_def)

lemma load32_store32 [simp, wire]: "load32 (store32 w @ r) = w"
proof (rule bit_word_eqI)
  fix n assume "n < LENGTH(32)"
  then consider "n < 8" | "8 \<le> n" "n < 16" | "16 \<le> n" "n < 24" | "24 \<le> n" "n < 32"
    by fastforce
  then show "bit (load32 (store32 w @ r)) n = bit w n"
    by cases (auto simp: load32_def store32_def bit_simps)
qed

lemma load16_store16 [simp, wire]: "load16 (store16 w @ r) = w"
proof (rule bit_word_eqI)
  fix n assume "n < LENGTH(16)"
  then consider "n < 8" | "8 \<le> n" "n < 16" by fastforce
  then show "bit (load16 (store16 w @ r)) n = bit w n"
    by cases (auto simp: load16_def store16_def bit_simps)
qed

lemma load32_store32_nil [simp, wire]: "load32 (store32 w) = w"
  using load32_store32 [of w "[]"] by simp

lemma load16_store16_nil [simp, wire]: "load16 (store16 w) = w"
  using load16_store16 [of w "[]"] by simp

lemma store32_load32: "store32 (load32 (a # b # c # d # r)) = [a, b, c, d]"
  by (simp add: load32_def store32_def) (intro conjI; rule bit_word_eqI; auto simp: bit_simps dest: bit_imp_le_length)

lemma store16_load16: "store16 (load16 (a # b # r)) = [a, b]"
  by (simp add: load16_def store16_def) (intro conjI; rule bit_word_eqI; auto simp: bit_simps dest: bit_imp_le_length)

lemma store32_htonl: "store32 (htonl w) = rev (store32 w)"
  by (simp add: htonl_def store32_load32 store32_def [of w])

lemma store16_htons: "store16 (htons w) = rev (store16 w)"
  by (simp add: htons_def store16_load16 store16_def [of w])

lemma htonl_htonl [simp, wire]: "htonl (htonl w) = w"
  unfolding htonl_def [of "htonl w"] by (simp add: store32_htonl)

lemma htons_htons [simp, wire]: "htons (htons w) = w"
  unfolding htons_def [of "htons w"] by (simp add: store16_htons)

lemma load32_take [simp]: "4 \<le> n \<Longrightarrow> load32 (take n bs) = load32 bs"
  by (auto simp: load32_def take_Cons' split: list.splits)

section \<open>Running monadic code\<close>

text \<open>
  Code that changes the state of the program or of its environment is a value of
  \<open>('s, 'a) state\<close>. \<open>run_bind\<close> is the form in which proofs execute it: with the result of the first
  step known, the rest runs in the state that step left.
\<close>

abbreviation ret :: "'a \<Rightarrow> ('s, 'a) state" where "ret \<equiv> State_Monad.return"

lemma run_bind [runs]:
  "run_state m s = (a, s') \<Longrightarrow> run_state (State_Monad.bind m f) s = run_state (f a) s'"
  by simp

definition gets :: "('s \<Rightarrow> 'a) \<Rightarrow> ('s, 'a) state" where
  "gets f = State (\<lambda>s. (f s, s))"

definition modify :: "('s \<Rightarrow> 's) \<Rightarrow> ('s, unit) state" where
  "modify f = State (\<lambda>s. ((), f s))"

lemma run_gets [simp]: "run_state (gets f) s = (f s, s)"
  by (simp add: gets_def)

lemma run_modify [simp]: "run_state (modify f) s = ((), f s)"
  by (simp add: modify_def)

text \<open>
  Facts about every run of a piece of code that relate the state before and after it: when the
  relation is reflexive and transitive it is enough to look at the primitive steps. The rules in
  \<open>keeps\<close> follow the structure of the code.
\<close>

locale step_preorder =
  fixes R :: "'s \<Rightarrow> 's \<Rightarrow> bool"
  assumes R_refl: "R s s"
    and R_trans: "R s t \<Longrightarrow> R t u \<Longrightarrow> R s u"
begin

lemma keeps_ret: "state_io_rel R (ret a)"
  by (simp add: state_io_rel_def R_refl)

lemma keeps_gets: "state_io_rel R (gets f)"
  by (simp add: state_io_rel_def R_refl)

lemma keeps_modify: "(\<And>s. R s (f s)) \<Longrightarrow> state_io_rel R (modify f)"
  by (simp add: state_io_rel_def)

lemma keeps_bind:
  assumes "state_io_rel R m" and "\<And>a. state_io_rel R (f a)"
  shows "state_io_rel R (State_Monad.bind m f)"
  using assms by (fastforce simp: state_io_rel_def split: prod.splits intro: R_trans)

lemma keeps_if:
  "(b \<Longrightarrow> state_io_rel R m) \<Longrightarrow> (\<not> b \<Longrightarrow> state_io_rel R m') \<Longrightarrow> state_io_rel R (if b then m else m')"
  by simp

lemma keeps_option:
  "state_io_rel R m \<Longrightarrow> (\<And>x. state_io_rel R (f x)) \<Longrightarrow>
    state_io_rel R (case o' of None \<Rightarrow> m | Some x \<Rightarrow> f x)"
  by (cases o') auto

lemma keeps_prod: "(\<And>x y. state_io_rel R (f x y)) \<Longrightarrow> state_io_rel R (case p of (x, y) \<Rightarrow> f x y)"
  by (cases p) auto

lemma keeps_let: "(\<And>x. state_io_rel R (f x)) \<Longrightarrow> state_io_rel R (let x = a in f x)"
  by simp

lemmas keeps = keeps_ret keeps_gets keeps_bind keeps_if keeps_option keeps_prod keeps_let

end

section \<open>Lists\<close>

lemma takeWhile_neq_append [simp]:
  "takeWhile (\<lambda>b. b \<noteq> x) (xs @ x # ys) = takeWhile (\<lambda>b. b \<noteq> x) xs"
  by (induction xs) auto

lemma takeWhile_neq_id [simp]: "x \<notin> set xs \<Longrightarrow> takeWhile (\<lambda>b. b \<noteq> x) xs = xs"
  by (simp add: takeWhile_eq_all_conv) blast

lemma not_in_takeWhile [simp]: "x \<notin> set (takeWhile (\<lambda>b. b \<noteq> x) xs)"
  by (auto dest: set_takeWhileD)

lemma length_takeWhile_neq: "x \<in> set xs \<Longrightarrow> length (takeWhile (\<lambda>b. b \<noteq> x) xs) < length xs"
  by (induction xs) auto

lemma drop_takeWhile_neq:
  "x \<in> set xs \<Longrightarrow> drop (length (takeWhile (\<lambda>b. b \<noteq> x) xs)) xs
    = x # drop (Suc (length (takeWhile (\<lambda>b. b \<noteq> x) xs))) xs"
  by (induction xs) auto

lemma concat_replicate_length: "length (concat (replicate n xs)) = n * length xs"
  by (induction n) auto

end
