(* ===== verification/CString.thy ===== *)
theory CString
  imports Prelude
begin

text \<open>
  The functions of \<^verbatim>\<open><string.h>\<close>, \<^verbatim>\<open><stdlib.h>\<close> and \<^verbatim>\<open><ctype.h>\<close> the sources call, in the C locale.
  A string that is an argument of the code (an element of \<open>argv\<close>, a literal) is the list of its
  bytes without the null; a string inside a buffer is read from the buffer with \<open>cstr\<close>, which stops
  at the first null. A pointer into a string is the suffix that starts there, a null pointer \<open>None\<close>.
\<close>

definition lit :: "string \<Rightarrow> byte list" where
  "lit s = map of_char s"

definition cstr :: "byte list \<Rightarrow> byte list" where
  "cstr buf = takeWhile (\<lambda>b. b \<noteq> 0) buf"

definition nul_terminated :: "byte list \<Rightarrow> bool" where
  "nul_terminated buf \<longleftrightarrow> 0 \<in> set buf"

text \<open>\<open>snprintf (field, n, "%s", s)\<close>: at most \<open>n - 1\<close> bytes and a null; the rest of the field
  keeps what it held. The return value is the length of \<open>s\<close>.\<close>

definition snprintf_s :: "nat \<Rightarrow> byte list \<Rightarrow> byte list \<Rightarrow> byte list" where
  "snprintf_s n s field =
     (let t = take (n - 1) s in t @ [0] @ drop (Suc (length t)) field)"

fun strstr :: "byte list \<Rightarrow> byte list \<Rightarrow> byte list option" where
  "strstr hay needle =
     (if prefix needle hay then Some hay
      else case hay of [] \<Rightarrow> None | _ # rest \<Rightarrow> strstr rest needle)"

declare strstr.simps [simp del]

definition isspace :: "byte \<Rightarrow> bool" where
  "isspace c \<longleftrightarrow> c = 32 \<or> (9 \<le> c \<and> c \<le> 13)"

definition tolower :: "byte \<Rightarrow> byte" where
  "tolower c = (if 65 \<le> c \<and> c \<le> 90 then c + 32 else c)"

definition digit_value :: "byte \<Rightarrow> nat option" where
  "digit_value c =
     (if 48 \<le> c \<and> c \<le> 57 then Some (unat c - 48)
      else if 97 \<le> c \<and> c \<le> 122 then Some (unat c - 87)
      else if 65 \<le> c \<and> c \<le> 90 then Some (unat c - 55)
      else None)"

definition is_digit :: "nat \<Rightarrow> byte \<Rightarrow> bool" where
  "is_digit base c = (case digit_value c of None \<Rightarrow> False | Some d \<Rightarrow> d < base)"

text \<open>The digits at the start of a string: their value and the rest.\<close>

fun digits :: "nat \<Rightarrow> nat \<Rightarrow> byte list \<Rightarrow> nat \<times> byte list" where
  "digits base acc [] = (acc, [])"
| "digits base acc (c # cs) =
     (if is_digit base c then digits base (acc * base + the (digit_value c)) cs
      else (acc, c # cs))"

text \<open>An optional sign.\<close>

definition sign :: "byte list \<Rightarrow> bool \<times> byte list" where
  "sign s = (case s of [] \<Rightarrow> (False, [])
     | c # cs \<Rightarrow> if c = 45 then (True, cs) else if c = 43 then (False, cs) else (False, c # cs))"

text \<open>\<open>strtol (s, NULL, 10)\<close>, clamped to a 64 bit \<open>long\<close>; \<open>atoi\<close> is its conversion to \<open>int\<close>.\<close>

definition strtol10 :: "byte list \<Rightarrow> int" where
  "strtol10 s =
     (let (neg, t) = sign (dropWhile isspace s); v = int (fst (digits 10 0 t))
      in max (- (2 ^ 63)) (min (2 ^ 63 - 1) (if neg then - v else v)))"

definition atoi :: "byte list \<Rightarrow> int" where
  "atoi s = c_int (strtol10 s)"

text \<open>
  \<open>strtoul (s, &end, 0)\<close>: the value as a 64 bit \<open>unsigned long\<close> and the string at \<open>end\<close>. A prefix
  \<open>0x\<close> with a hexadecimal digit after it selects base 16, a leading \<open>0\<close> base 8, anything else base
  10. With no digits nothing is converted and \<open>end\<close> is \<open>s\<close> itself.
\<close>

definition strtoul0 :: "byte list \<Rightarrow> nat \<times> byte list" where
  "strtoul0 s =
     (let (neg, t) = sign (dropWhile isspace s);
          hex = (case t of z # x # d # _ \<Rightarrow> z = 48 \<and> (x = 120 \<or> x = 88) \<and> is_digit 16 d | _ \<Rightarrow> False);
          base = (if hex then 16 else if t \<noteq> [] \<and> hd t = 48 then 8 else 10);
          u = (if hex then drop 2 t else t);
          (v, rest) = digits base 0 u
      in if rest = u then (0, s)
         else if 2 ^ 64 \<le> v then (2 ^ 64 - 1, rest)
         else (if neg then (2 ^ 64 - v) mod 2 ^ 64 else v, rest))"

section \<open>Facts\<close>

lemma length_lit [simp]: "length (lit s) = length s"
  by (simp add: lit_def)

lemma cstr_simps [simp]: "cstr [] = []" "cstr (c # s) = (if c = 0 then [] else c # cstr s)"
  by (simp_all add: cstr_def)

lemma cstr_nul_free [simp]: "0 \<notin> set (cstr buf)"
  by (simp add: cstr_def)

lemma cstr_id [simp]: "0 \<notin> set s \<Longrightarrow> cstr s = s"
  by (simp add: cstr_def)

lemma cstr_append_nul [simp]: "0 \<notin> set s \<Longrightarrow> cstr (s @ 0 # r) = s"
  by (simp add: cstr_def)

lemma length_cstr_less: "nul_terminated buf \<Longrightarrow> length (cstr buf) < length buf"
  by (simp add: cstr_def nul_terminated_def length_takeWhile_neq)

lemma length_cstr_le: "length (cstr buf) \<le> length buf"
  by (simp add: cstr_def length_takeWhile_le)

lemma nul_terminated_split:
  "nul_terminated buf \<Longrightarrow> \<exists>r. buf = cstr buf @ 0 # r"
  unfolding nul_terminated_def cstr_def by (induction buf) auto

lemma length_snprintf_s [simp]:
  "length field = n \<Longrightarrow> 0 < n \<Longrightarrow> length (snprintf_s n s field) = n"
  by (auto simp: snprintf_s_def Let_def)

lemma cstr_snprintf_s [simp]:
  "0 \<notin> set s \<Longrightarrow> cstr (snprintf_s n s field) = take (n - 1) s"
  by (simp add: snprintf_s_def Let_def) (meson cstr_append_nul in_set_takeD)

lemma strstr_Some_iff: "strstr hay needle = Some t \<longleftrightarrow>
    suffix t hay \<and> prefix needle t \<and>
    (\<forall>u. suffix u hay \<and> length t < length u \<longrightarrow> \<not> prefix needle u)"
proof (induction hay needle rule: strstr.induct)
  case (1 hay needle)
  show ?case
  proof (cases "prefix needle hay")
    case True
    have "t = hay" if "suffix t hay" "\<forall>u. suffix u hay \<and> length t < length u \<longrightarrow> \<not> prefix needle u"
      using that True by (metis suffix_length_le suffix_order.refl suffix_def append_self_conv2
          le_neq_implies_less append_eq_append_conv)
    with True show ?thesis
      by (subst strstr.simps) (auto dest: suffix_length_le)
  next
    case False
    show ?thesis
    proof (cases hay)
      case Nil
      with False show ?thesis by (subst strstr.simps) auto
    next
      case (Cons x rest)
      with False 1 have "strstr hay needle = strstr rest needle"
        by (subst strstr.simps) simp
      with False Cons 1 show ?thesis
        by (auto simp: suffix_Cons dest: suffix_length_le)
    qed
  qed
qed

lemma strstr_None_iff: "strstr hay needle = None \<longleftrightarrow> \<not> sublist needle hay"
proof (induction hay needle rule: strstr.induct)
  case (1 hay needle)
  show ?case
  proof (cases "prefix needle hay")
    case True
    then show ?thesis by (subst strstr.simps) auto
  next
    case False
    with 1 show ?thesis
      by (subst strstr.simps) (auto simp: sublist_Cons_right split: list.splits)
  qed
qed

section \<open>Decimal notation\<close>

text \<open>The decimal notation of a number.\<close>

fun decimal :: "nat \<Rightarrow> byte list" where
  "decimal n = (if n < 10 then [48 + of_nat n] else decimal (n div 10) @ [48 + of_nat (n mod 10)])"

declare decimal.simps [simp del]

lemma digit_char:
  assumes "d < 10"
  shows "digit_value (48 + of_nat d) = Some d" "is_digit 10 (48 + of_nat d)" "\<not> isspace (48 + of_nat d)"
    "(48 + of_nat d :: byte) \<noteq> 45" "(48 + of_nat d :: byte) \<noteq> 43" "(48 + of_nat d :: byte) = 48 \<longleftrightarrow> d = 0"
proof -
  have u: "unat (48 + of_nat d :: byte) = 48 + d"
    using assms by (simp add: unat_word_ariths unat_of_nat)
  then show v: "digit_value (48 + of_nat d) = Some d"
    using assms by (simp add: digit_value_def word_le_nat_alt)
  then show "is_digit 10 (48 + of_nat d)" using assms by (simp add: is_digit_def)
  show "\<not> isspace (48 + of_nat d)" "(48 + of_nat d :: byte) \<noteq> 45" "(48 + of_nat d :: byte) \<noteq> 43"
    "(48 + of_nat d :: byte) = 48 \<longleftrightarrow> d = 0"
    unfolding isspace_def word_unat_eq_iff word_le_nat_alt u by simp_all
qed

lemma digits_decimal: "digits 10 acc (decimal n @ rest) = digits 10 (acc * 10 ^ length (decimal n) + n) rest"
proof (induction n arbitrary: acc rest rule: decimal.induct)
  case (1 n)
  show ?case
  proof (cases "n < 10")
    case True
    then show ?thesis by (simp add: decimal.simps [of n] digit_char)
  next
    case False
    have "digits 10 acc (decimal n @ rest) = digits 10 ((acc * 10 ^ length (decimal (n div 10)) + n div 10) * 10 + n mod 10) rest"
      using 1 [OF False] False by (simp add: decimal.simps [of n] digit_char)
    also have "(acc * 10 ^ length (decimal (n div 10)) + n div 10) * 10 + n mod 10 = acc * 10 ^ length (decimal n) + n"
      using False by (simp add: decimal.simps [of n] algebra_simps)
    finally show ?thesis .
  qed
qed

lemma decimal_start:
  obtains d t where "decimal n = (48 + of_nat d) # t" and "d < 10" and "d = 0 \<Longrightarrow> t = []"
proof (induction n arbitrary: thesis rule: decimal.induct)
  case (1 n)
  show ?case
  proof (cases "n < 10")
    case True
    then show ?thesis using 1(2) [of n "[]"] by (simp add: decimal.simps [of n])
  next
    case False
    obtain d t where dt: "decimal (n div 10) = (48 + of_nat d) # t" "d < 10" "d = 0 \<Longrightarrow> t = []"
      using 1(1) [OF False] by blast
    have "d \<noteq> 0"
    proof
      assume "d = 0"
      with dt digits_decimal [of 0 "n div 10" "[]"] have "n div 10 = 0" by (simp add: digit_char(1,2) [of 0, simplified])
      with False show False by auto
    qed
    with dt False show ?thesis using 1(2) [of d "t @ [48 + of_nat (n mod 10)]"] by (simp add: decimal.simps [of n])
  qed
qed

lemmas number_simps = strtoul0_def sign_def isspace_def is_digit_def digit_value_def Let_def

lemma strtoul0_decimal:
  assumes "n < 2 ^ 64"
  shows "strtoul0 (decimal n) = (n, [])"
proof -
  obtain d t where dt: "decimal n = (48 + of_nat d) # t" "d < 10" "d = 0 \<Longrightarrow> t = []" by (rule decimal_start [of n]) (rule that)
  have dg: "digits 10 0 (decimal n) = (n, [])" using digits_decimal [of 0 n "[]"] by simp
  have sg: "sign (dropWhile isspace (decimal n)) = (False, decimal n)"
    using dt(1,2) by (simp add: sign_def digit_char)
  show ?thesis
  proof (cases "d = 0")
    case True
    with dt have "decimal n = [48]" by simp
    moreover from this dg have "n = 0" by (simp add: digit_char(1,2) [of 0, simplified])
    moreover have "strtoul0 [48] = (0, [])" by (simp add: number_simps)
    ultimately show ?thesis by simp
  next
    case False
    then have "of_nat d \<noteq> (0 :: byte)" using digit_char(6) [OF dt(2)] by simp
    with dt(1,2) have "\<not> (case decimal n of z # x # d # _ \<Rightarrow> z = 48 \<and> (x = 120 \<or> x = 88) \<and> is_digit 16 d | _ \<Rightarrow> False)"
      "hd (decimal n) \<noteq> 48" "decimal n \<noteq> []"
      by (auto split: list.splits)
    with dg sg assms show ?thesis by (simp add: strtoul0_def Let_def)
  qed
qed

end
