(* ===== verification/Utility.thy ===== *)
theory Utility
  imports CString
begin

text \<open>
  \<^verbatim>\<open>src/utility.c\<close>: the conversions between what the PS2 sends and what the host understands, the
  packing of an argument vector, and the clock arithmetic.
\<close>

section \<open>Open flags\<close>

text \<open>The values of \<^verbatim>\<open><fcntl.h>\<close> on Linux.\<close>

definition O_RDONLY :: int where "O_RDONLY = 0"
definition O_WRONLY :: int where "O_WRONLY = 1"
definition O_RDWR :: int where "O_RDWR = 2"
definition O_CREAT :: int where "O_CREAT = 0x40"
definition O_TRUNC :: int where "O_TRUNC = 0x200"
definition O_APPEND :: int where "O_APPEND = 0x400"
definition O_NONBLOCK_flag :: int where "O_NONBLOCK_flag = 0x800"

lemmas O_defs = O_RDONLY_def O_WRONLY_def O_RDWR_def O_CREAT_def O_TRUNC_def O_APPEND_def
  O_NONBLOCK_flag_def

definition fix_flags :: "u32 \<Rightarrow> int" where
  "fix_flags flags =
     (let acc = flags AND 0x0003;
          result = (if acc = 0x0001 then O_RDONLY
                    else if acc = 0x0002 then O_WRONLY OR O_TRUNC
                    else if acc = 0x0003 then O_RDWR else 0);
          result = (if flags AND 0x0010 \<noteq> 0 then result OR O_NONBLOCK_flag else result);
          result = (if flags AND 0x0100 \<noteq> 0 then result OR O_APPEND else result);
          result = (if flags AND 0x0200 \<noteq> 0 then result OR O_CREAT else result);
          result = (if flags AND 0x0400 \<noteq> 0 then result OR O_TRUNC else result)
      in result)"

section \<open>Path names\<close>

text \<open>
  \<open>fix_pathname\<close> rewrites the string at the start of a memory area in place; the area is all the
  memory the string can legally extend over. Every access is checked: \<open>None\<close> is a read or a write past
  the end of the area, by an index or by \<open>strlen\<close> when no null ends the string inside the area.
\<close>

definition backslash :: byte where "backslash = 0x5C"
definition slash :: byte where "slash = 0x2F"
definition dot :: byte where "dot = 0x2E"

definition fetch :: "byte list \<Rightarrow> nat \<Rightarrow> byte option" where
  "fetch area i = (if i < length area then Some (area ! i) else None)"

definition store :: "byte list \<Rightarrow> nat \<Rightarrow> byte \<Rightarrow> byte list option" where
  "store area i v = (if i < length area then Some (area[i := v]) else None)"

definition strlen :: "byte list \<Rightarrow> nat option" where
  "strlen area = (if nul_terminated area then Some (length (cstr area)) else None)"

lemma access_simps [simp]:
  "i < length area \<Longrightarrow> fetch area i = Some (area ! i)"
  "i < length area \<Longrightarrow> store area i v = Some (area[i := v])"
  "nul_terminated area \<Longrightarrow> strlen area = Some (length (cstr area))"
  by (simp_all add: fetch_def store_def strlen_def)

lemma cstr_update: "i < length (cstr buf) \<Longrightarrow> v \<noteq> 0 \<Longrightarrow> cstr (buf[i := v]) = (cstr buf)[i := v]"
  unfolding cstr_def by (induction buf arbitrary: i) (auto split: nat.splits if_splits)

lemma nul_terminated_update:
  "nul_terminated buf \<Longrightarrow> i < length (cstr buf) \<Longrightarrow> nul_terminated (buf[i := v])"
  unfolding nul_terminated_def cstr_def
  by (induction buf arbitrary: i) (auto split: nat.splits if_splits)

lemma nth_cstr: "i < length (cstr buf) \<Longrightarrow> cstr buf ! i = buf ! i"
  by (simp add: cstr_def takeWhile_nth)

lemma nth_cstr_neq: "i < length (cstr buf) \<Longrightarrow> buf ! i \<noteq> 0"
  using nth_mem [of i "cstr buf"] cstr_nul_free [of buf] by (metis nth_cstr)

text \<open>The loop that converts backslashes; \<open>strlen (pathname)\<close> is evaluated in every round.\<close>

function slash_loop :: "nat \<Rightarrow> byte list \<Rightarrow> byte list option" where
  "slash_loop loop0 pathname = (case strlen pathname of None \<Rightarrow> None
     | Some n \<Rightarrow>
         if loop0 < n then
           (case fetch pathname loop0 of None \<Rightarrow> None
            | Some c \<Rightarrow>
                if c = backslash then
                  (case store pathname loop0 slash of None \<Rightarrow> None | Some p \<Rightarrow> slash_loop (Suc loop0) p)
                else slash_loop (Suc loop0) pathname)
         else Some pathname)"
  by pat_completeness auto
termination
  by (relation "measure (\<lambda>(i, p). length p - i)") (auto simp: fetch_def store_def split: if_splits)

text \<open>
  The loop that moves the string down over its first byte, and the null written after it. The bound
  \<open>strlen (pathname) - 1\<close> is a \<open>size_t\<close>, which wraps around for the empty string.
\<close>

function shift_loop :: "nat \<Rightarrow> byte list \<Rightarrow> byte list option" where
  "shift_loop loop0 pathname = (case strlen pathname of None \<Rightarrow> None
     | Some n \<Rightarrow>
         if loop0 < (if n = 0 then 2 ^ 64 - 1 else n - 1) then
           (case fetch pathname (Suc loop0) of None \<Rightarrow> None
            | Some c \<Rightarrow>
                (case store pathname loop0 c of None \<Rightarrow> None | Some p \<Rightarrow> shift_loop (Suc loop0) p))
         else store pathname loop0 0)"
  by pat_completeness auto
termination
  by (relation "measure (\<lambda>(i, p). length p - i)") (auto simp: fetch_def store_def split: if_splits)

declare slash_loop.simps [simp del] shift_loop.simps [simp del]

text \<open>\<open>strcpy (pathname, ".")\<close> writes two bytes.\<close>

definition default_pathname :: "byte list \<Rightarrow> byte list option" where
  "default_pathname area = (case fetch area 0 of None \<Rightarrow> None
     | Some c \<Rightarrow> if c = 0 then (case store area 0 dot of None \<Rightarrow> None | Some p \<Rightarrow> store p 1 0) else Some area)"

definition fix_pathname :: "byte list \<Rightarrow> byte list option" where
  "fix_pathname area = (case default_pathname area of None \<Rightarrow> None
     | Some p \<Rightarrow> (case slash_loop 0 p of None \<Rightarrow> None
     | Some q \<Rightarrow> (case fetch q 0 of None \<Rightarrow> None
     | Some c \<Rightarrow>
         if c = slash then
           (case fetch q 1 of None \<Rightarrow> None | Some d \<Rightarrow> if d \<noteq> 0 then shift_loop 0 q else Some q)
         else Some q)))"

text \<open>
  What the caller gets: the empty name is the current directory, backslashes are slashes, and one
  leading slash is dropped unless it is the whole name.
\<close>

definition host_path :: "byte list \<Rightarrow> byte list" where
  "host_path s =
     (let t = map (\<lambda>c. if c = backslash then slash else c) (if s = [] then [dot] else s)
      in case t of c # d # r \<Rightarrow> if c = slash then d # r else t | _ \<Rightarrow> t)"

lemma slash_loop_eq:
  "i \<le> length (cstr p) \<Longrightarrow> nul_terminated p \<Longrightarrow> slash_loop i p =
     Some (take i p @ map (\<lambda>c. if c = backslash then slash else c) (drop i (cstr p)) @ drop (length (cstr p)) p)"
proof (induction "length (cstr p) - i" arbitrary: i p)
  case 0
  then show ?case by (subst slash_loop.simps) simp
next
  case (Suc k)
  then have i: "i < length (cstr p)" by simp
  then have len: "i < length p" using length_cstr_le [of p] by linarith
  define q where "q = (if p ! i = backslash then p[i := slash] else p)"
  have c: "cstr q = (cstr p)[i := q ! i]" "length (cstr q) = length (cstr p)"
    using i len nth_cstr [OF i]
    by (auto simp: q_def cstr_update slash_def intro: list_update_id [symmetric] dest: sym [of "cstr p ! i"])
  have nt: "nul_terminated q" using nul_terminated_update [OF Suc.prems(2) i] Suc.prems(2) by (simp add: q_def)
  have d: "drop (length (cstr p)) q = drop (length (cstr p)) p" using i by (simp add: q_def)
  have t: "take (Suc i) q = take i p @ [if p ! i = backslash then slash else p ! i]"
    using len by (auto simp: q_def take_Suc_conv_app_nth)
  have "slash_loop i p = slash_loop (Suc i) q"
    using i len Suc.prems(2) by (subst slash_loop.simps) (simp add: q_def)
  also have "\<dots> = Some (take (Suc i) q @ map (\<lambda>c. if c = backslash then slash else c) (drop (Suc i) (cstr q))
      @ drop (length (cstr q)) q)"
    using Suc.hyps(1) [of q "Suc i"] Suc.hyps(2) i nt c(2) by simp
  finally show ?case
    using i nth_cstr [OF i] by (simp add: t d c Cons_nth_drop_Suc [OF i, symmetric])
qed

lemma shift_loop_eq:
  "i < length (cstr p) \<Longrightarrow> nul_terminated p \<Longrightarrow> shift_loop i p =
     Some (take i p @ drop (Suc i) (cstr p) @ 0 # drop (length (cstr p)) p)"
proof (induction "length (cstr p) - Suc i" arbitrary: i p)
  case 0
  then have "length (cstr p) = Suc i" by simp
  with 0 show ?case
    using length_cstr_less [of p] by (subst shift_loop.simps) (simp add: upd_conv_take_nth_drop)
next
  case (Suc k)
  then have si: "Suc i < length (cstr p)" by simp
  then have i: "i < length (cstr p)" and len: "Suc i < length p" using length_cstr_le [of p] by linarith+
  define q where "q = p[i := p ! Suc i]"
  have c: "cstr q = (cstr p)[i := p ! Suc i]" "length (cstr q) = length (cstr p)"
    using i nth_cstr_neq [OF si] by (auto simp: q_def cstr_update)
  have nt: "nul_terminated q" unfolding q_def by (rule nul_terminated_update [OF Suc.prems(2) i])
  have "shift_loop i p = shift_loop (Suc i) q"
    using si len Suc.prems(2) by (subst shift_loop.simps) (auto simp: q_def)
  also have "\<dots> = Some (take (Suc i) q @ drop (Suc (Suc i)) (cstr q) @ 0 # drop (length (cstr q)) q)"
    using Suc.hyps(1) [of q "Suc i"] Suc.hyps(2) si nt c(2) by simp
  also have "take (Suc i) q = take i p @ [cstr p ! Suc i]"
    using len nth_cstr [OF si] by (simp add: q_def take_Suc_conv_app_nth)
  finally show ?case
    using si c by (simp add: q_def Cons_nth_drop_Suc [OF si, symmetric])
qed

lemma slash_map_nul_free: "0 \<notin> set s \<Longrightarrow> 0 \<notin> set (map (\<lambda>c. if c = backslash then slash else c) s)"
  by (auto simp: slash_def)

lemma set_host_path:
  "set (host_path s) \<subseteq> (\<lambda>c. if c = backslash then slash else c) ` set (if s = [] then [dot] else s)"
proof -
  have "set (case t of c # d # r \<Rightarrow> if c = slash then d # r else t | _ \<Rightarrow> t) \<subseteq> set t" for t :: "byte list"
    by (auto split: list.splits)
  then show ?thesis unfolding host_path_def Let_def list.set_map [symmetric] .
qed

lemma host_path_clean [simp]:
  "0 \<notin> set s \<Longrightarrow> 0 \<notin> set (host_path s)" "backslash \<notin> set (host_path s)"
proof -
  have c: "slash \<noteq> 0" "dot \<noteq> 0" "slash \<noteq> backslash" "dot \<noteq> backslash"
    by (simp_all add: slash_def backslash_def dot_def)
  show "backslash \<notin> set (host_path s)"
    using subsetD [OF set_host_path, of backslash s] c by (auto split: if_splits)
  show "0 \<notin> set s \<Longrightarrow> 0 \<notin> set (host_path s)"
    using subsetD [OF set_host_path, of 0 s] c by (auto split: if_splits)
qed

text \<open>The bytes the string owns: up to its null, or the two the default name takes.\<close>

definition owned :: "byte list \<Rightarrow> nat" where
  "owned area = max 2 (length (cstr area) + 1)"

lemma default_pathname_area:
  assumes "nul_terminated area" and "2 \<le> length area"
  obtains a r where "default_pathname area = Some a" and "a = (if cstr area = [] then [dot] else cstr area) @ 0 # r"
    and "length a = length area" and "r = drop (owned area) area"
proof -
  obtain x y zs where area: "area = x # y # zs"
    using assms(2) by (metis Suc_le_length_iff numeral_2_eq_2)
  show thesis
  proof (cases "x = 0")
    case True
    show thesis
    proof (rule that)
      show "default_pathname area = Some (dot # 0 # zs)" using True by (simp add: area default_pathname_def)
      show "dot # 0 # zs = (if cstr area = [] then [dot] else cstr area) @ 0 # zs" using True by (simp add: area)
      show "zs = drop (owned area) area" using True by (simp add: area owned_def)
    qed (simp add: area)
  next
    case False
    obtain r where r: "area = cstr area @ 0 # r" using nul_terminated_split [OF assms(1)] by blast
    have c: "cstr area \<noteq> []" and o: "owned area = Suc (length (cstr area))" using False by (simp_all add: area owned_def)
    show thesis
    proof (rule that)
      show "default_pathname area = Some area" using False by (simp add: area default_pathname_def)
      show "area = (if cstr area = [] then [dot] else cstr area) @ 0 # r" unfolding if_not_P [OF c] by (rule r)
      have "drop (Suc (length (cstr area))) (cstr area @ 0 # r) = r" by simp
      then show "r = drop (owned area) area" unfolding o r [symmetric] by simp
    qed simp
  qed
qed

lemma fix_pathname_area:
  assumes "nul_terminated area" and "2 \<le> length area"
  obtains rest where "fix_pathname area = Some (host_path (cstr area) @ 0 # rest)"
    and "length (host_path (cstr area)) + length rest + 1 = length area"
    and "drop (owned area) (host_path (cstr area) @ 0 # rest) = drop (owned area) area"
proof -
  define f where "f = (\<lambda>c. if c = backslash then slash else c)"
  define s where "s = (if cstr area = [] then [dot] else cstr area)"
  obtain a r where a: "default_pathname area = Some a" "a = s @ 0 # r" "length a = length area"
    "r = drop (owned area) area"
    using default_pathname_area [OF assms] unfolding s_def .
  have s0: "0 \<notin> set s" "s \<noteq> []" by (simp_all add: s_def dot_def)
  have ow: "owned area = Suc (length s)" by (cases "cstr area") (simp_all add: owned_def s_def)
  have lr: "length s + length r + 1 = length area" using a(2,3) by simp
  have nf: "0 \<notin> set (map f s)" unfolding f_def using s0(1) by (rule slash_map_nul_free)
  obtain c t where ct: "map f s = c # t" using s0(2) by (cases s) auto
  have sl: "slash_loop 0 a = Some ((c # t) @ 0 # r)"
    using slash_loop_eq [of 0 a] s0(1) unfolding a(2) ct [symmetric] by (simp add: nul_terminated_def f_def)
  have hp: "host_path (cstr area) = (case t of d # r \<Rightarrow> if c = slash then t else c # t | [] \<Rightarrow> c # t)"
    using ct by (auto simp: host_path_def f_def [symmetric] s_def [symmetric] Let_def split: list.splits)
  have n: "length (c # t) = length s" using ct by (metis length_map)
  have fp: "fix_pathname area = (if c = slash \<and> t \<noteq> [] then shift_loop 0 ((c # t) @ 0 # r) else Some ((c # t) @ 0 # r))"
    using a(1) sl nf ct by (cases t) (auto simp: fix_pathname_def)
  show thesis
  proof (cases "c = slash \<and> t \<noteq> []")
    case False
    then have "host_path (cstr area) = c # t" using hp by (auto split: list.splits)
    moreover have "drop (owned area) ((c # t) @ 0 # r) = r" unfolding ow n [symmetric] by simp
    ultimately show thesis using fp False lr n a(4) that [of r] by simp
  next
    case True
    have "shift_loop 0 ((c # t) @ 0 # r) = Some (t @ 0 # 0 # r)"
      using shift_loop_eq [of 0 "(c # t) @ 0 # r"] nf ct by (simp add: nul_terminated_def)
    moreover from True have "host_path (cstr area) = t" using hp by (auto split: list.splits)
    moreover have "drop (owned area) (t @ 0 # 0 # r) = r" unfolding ow n [symmetric] by simp
    ultimately show thesis using fp True lr n a(4) that [of "0 # r"] by simp
  qed
qed

section \<open>Argument vectors\<close>

text \<open>
  \<open>fix_argv (destination, size, argv)\<close>. \<open>fix_argv_loop\<close> is the loop with \<open>used\<close> bytes of the
  destination filled; \<open>None\<close> is the return of \<open>-1\<close>.
\<close>

fun fix_argv_loop :: "nat \<Rightarrow> byte list \<Rightarrow> byte list list \<Rightarrow> byte list option" where
  "fix_argv_loop sz used [] = Some (used @ replicate (sz - length used) 0)"
| "fix_argv_loop sz used (a # argv) =
     (if length used + (length a + 1) > sz then None
      else fix_argv_loop sz (used @ a @ [0]) argv)"

definition fix_argv :: "nat \<Rightarrow> byte list list \<Rightarrow> byte list option" where
  "fix_argv sz argv = fix_argv_loop sz [] argv"

section \<open>Time\<close>

text \<open>\<open>time_ms\<close> on a reading of the monotonic clock, and the argument \<open>sleep_ms\<close> hands to \<open>nanosleep\<close>.\<close>

definition time_ms :: "int \<Rightarrow> int \<Rightarrow> int" where
  "time_ms tv_sec tv_nsec = tv_sec * 1000 + tv_nsec div 1000000"

definition sleep_ms :: "int \<Rightarrow> int \<times> int" where
  "sleep_ms ms = (ms div 1000, (ms mod 1000) * 1000000)"

section \<open>The usage text\<close>

text \<open>
  The calls of \<open>fprintf\<close> in \<open>print_usage\<close>: the text of each and the number of newlines after it. The result is
  what goes to the standard error output.
\<close>

definition usage_lines :: "(string \<times> nat) list" where
  "usage_lines =
    [([], 1),
     ('' Usage: ps2client [-h hostname] [-t timeout] [-e marker] <command> [arguments]'', 2),
     ('' Options:'', 2),
     (''   -h hostname  address of the ps2 (default: $PS2HOSTNAME, else 192.168.0.10)'', 1),
     (''   -t timeout   exit after <timeout> seconds without console output or requests'', 1),
     (''                (ping: give up after <timeout> seconds, default 2)'', 1),
     (''   -e marker    exit when a console line contains <marker>; the exit status is the'', 1),
     (''                number after 'status=' on that line (0 if there is none)'', 2),
     ('' Available commands:'', 2),
     (''   reset'', 1),
     (''   resetcheck  preflight EE ping, send RESET, observe loss and recovery (-t default 10)'', 1),
     (''   execiop <filename> [arguments]'', 1),
     (''   execee <filename> [arguments]'', 1),
     (''   poweroff'', 1),
     (''   scrdump'', 1),
     (''   netdump'', 1),
     (''   dumpmem <offset> <size> <filename>'', 1),
     (''   startvu <vu>'', 1),
     (''   stopvu <vu>'', 1),
     (''   dumpreg <type> <filename>  (type: number, or dma intc timer gs sif fifo gif'', 1),
     (''                              vif0 vif1 ipu all vu0 vu1)'', 1),
     (''   gsexec <size> <filename>'', 1),
     (''   writemem <offset> <size> <filename>'', 1),
     (''   iopexcep'', 1),
     (''   listen'', 1),
     (''   console  (UDP-only logging without host: service)'', 1),
     (''   ping'', 2),
     ('' Exit status: 0 ok, 64 usage error, 69 ps2link not answering, 74 ps2link closed'', 1),
     ('' the connection, 75 console port in use (another ps2client running?), 124 timeout'', 1),
     ('' before the -e marker. With -e: the status from the marker line.'', 2),
     ('' Usage: fsclient [-h hostname] <command> [arguments]'', 2),
     ('' Available commands:'', 2),
     (''   copyfrom <source> <destination>'', 1),
     (''   copyto <source> <destination>'', 1),
     (''   delete <pathname>'', 1),
     (''   devlist'', 1),
     (''   dir <pathname>'', 1),
     (''   mkdir <pathname>'', 1),
     (''   mount <device> <fsname>'', 1),
     (''   rmdir <pathname>'', 1),
     (''   sync <device>'', 1),
     (''   umount <device>'', 2)]"

definition print_usage :: "byte list" where
  "print_usage = concat (map (\<lambda>(text, newlines). lit text @ replicate newlines 10) usage_lines)"

section \<open>Properties\<close>

text \<open>(C25) \<open>fix_pathname\<close> makes no access outside of the memory area of the name, provided a null ends the
  name there and the area has room for two bytes. What it leaves is the name \<open>host_path\<close>
  describes: the default \<open>.\<close> for the empty name, slashes for backslashes, one leading slash dropped. It
  changes no byte after the null of the name it was given, but that it writes two bytes if that name is
  empty; in an area of one byte, with the empty name in it, it writes outside.\<close>

theorem fix_pathname_spec:
  assumes "nul_terminated area"
  shows "if 2 \<le> length area
    then \<exists>area'. fix_pathname area = Some area' \<and> cstr area' = host_path (cstr area) \<and> nul_terminated area'
      \<and> drop (max 2 (length (cstr area) + 1)) area' = drop (max 2 (length (cstr area) + 1)) area
      \<and> length area' = length area \<and> backslash \<notin> set (cstr area')
    else fix_pathname area = None"
proof (cases "2 \<le> length area")
  case True
  obtain rest where "fix_pathname area = Some (host_path (cstr area) @ 0 # rest)"
    "length (host_path (cstr area)) + length rest + 1 = length area"
    "drop (owned area) (host_path (cstr area) @ 0 # rest) = drop (owned area) area"
    using fix_pathname_area [OF assms True] .
  with True show ?thesis by (simp add: nul_terminated_def owned_def)
next
  case False
  moreover from assms False have "area = [0]"
    by (cases area) (auto simp: nul_terminated_def not_le less_Suc_eq)
  ultimately show ?thesis by (simp add: fix_pathname_def default_pathname_def store_def)
qed

theorem fix_pathname_spec_witness:
  "\<exists>area'. fix_pathname (lit ''/a'' @ [0x5C, 98, 0, 7]) = Some area' \<and> cstr area' = lit ''a/b'' \<and> drop 5 area' = [7]"
proof -
  let ?area = "lit ''/a'' @ [0x5C, 98, 0, 7]"
  have n: "nul_terminated ?area" "2 \<le> length ?area" by (simp_all add: nul_terminated_def)
  have l: "max 2 (length (cstr ?area) + 1) = 5" by (simp add: lit_def)
  obtain area' where "fix_pathname ?area = Some area'" "cstr area' = host_path (cstr ?area)"
    "drop 5 area' = drop 5 ?area"
    using fix_pathname_spec [OF n(1)] n(2) unfolding l if_P [OF n(2)] by blast
  moreover have "host_path (cstr ?area) = lit ''a/b''" "drop 5 ?area = [7]"
    by (simp_all add: lit_def host_path_def backslash_def slash_def)
  ultimately show ?thesis by metis
qed

text \<open>\<open>fix_flags\<close> translates the open flags of the PS2 bit by bit: the access mode is read,
  write or both by the low two bits; append, create and non-blocking are set exactly when the PS2
  asks for them; truncation is set when the PS2 asks for it or opens for writing only, so a file
  opened for reading and writing is not truncated unasked; and no other bit is set.\<close>

theorem fix_flags_spec:
  "fix_flags flags =
     (if flags AND 3 = 2 then O_WRONLY else if flags AND 3 = 3 then O_RDWR else O_RDONLY)
     OR (if bit flags 4 then O_NONBLOCK_flag else 0)
     OR (if bit flags 8 then O_APPEND else 0)
     OR (if bit flags 9 then O_CREAT else 0)
     OR (if bit flags 10 \<or> flags AND 3 = 2 then O_TRUNC else 0)"
proof -
  have b: "flags AND 0x10 \<noteq> 0 \<longleftrightarrow> bit flags 4" "flags AND 0x100 \<noteq> 0 \<longleftrightarrow> bit flags 8"
    "flags AND 0x200 \<noteq> 0 \<longleftrightarrow> bit flags 9" "flags AND 0x400 \<noteq> 0 \<longleftrightarrow> bit flags 10"
    using and_exp_eq_0_iff_not_bit [of flags 4] and_exp_eq_0_iff_not_bit [of flags 8]
      and_exp_eq_0_iff_not_bit [of flags 9] and_exp_eq_0_iff_not_bit [of flags 10] by simp_all
  show ?thesis
    by (simp add: fix_flags_def b Let_def O_defs)
qed

lemma fix_argv_loop_eq:
  "fix_argv_loop sz used argv =
     (if length used + sum_list (map (\<lambda>a. length a + 1) argv) \<le> sz \<or> argv = []
      then Some (used @ concat (map (\<lambda>a. a @ [0]) argv)
             @ replicate (sz - (length used + sum_list (map (\<lambda>a. length a + 1) argv))) 0)
      else None)"
proof (induction argv arbitrary: used)
  case (Cons a argv)
  show ?case
    by (cases "argv = []") (auto simp: Cons.IH add.assoc)
qed simp

lemma fix_argv_eq:
  "fix_argv sz argv =
     (if sum_list (map (\<lambda>a. length a + 1) argv) \<le> sz
      then Some (concat (map (\<lambda>a. a @ [0]) argv)
             @ replicate (sz - sum_list (map (\<lambda>a. length a + 1) argv)) 0)
      else None)"
  by (auto simp: fix_argv_def fix_argv_loop_eq)

text \<open>Reading \<open>argc\<close> null-terminated strings back from a packed argument area, as ps2link does.\<close>

fun unpack_argv :: "nat \<Rightarrow> byte list \<Rightarrow> byte list list" where
  "unpack_argv 0 area = []"
| "unpack_argv (Suc n) area = cstr area # unpack_argv n (drop (length (cstr area) + 1) area)"

lemma unpack_argv_concat:
  "\<forall>a \<in> set argv. 0 \<notin> set a \<Longrightarrow> unpack_argv (length argv) (concat (map (\<lambda>a. a @ [0]) argv) @ r) = argv"
  by (induction argv) auto

text \<open>(C26) \<open>fix_argv\<close> succeeds exactly when the arguments, each with its null, fit in the
  destination. It then fills the destination completely, and the strings read back from it are the
  arguments, in order.\<close>

theorem fix_argv_roundtrip:
  assumes "\<forall>a \<in> set argv. 0 \<notin> set a"
  shows "case fix_argv sz argv of
      None \<Rightarrow> sz < sum_list (map (\<lambda>a. length a + 1) argv)
    | Some area \<Rightarrow> sum_list (map (\<lambda>a. length a + 1) argv) \<le> sz
        \<and> length area = sz \<and> unpack_argv (length argv) area = argv"
proof -
  have "length (concat (map (\<lambda>a. a @ [0]) argv)) = sum_list (map (\<lambda>a. length a + 1) argv)"
    by (simp add: length_concat comp_def)
  then show ?thesis
    using unpack_argv_concat [OF assms] by (auto simp: fix_argv_eq)
qed

theorem fix_argv_roundtrip_witness:
  "case fix_argv 8 [lit ''ab'', lit ''c''] of None \<Rightarrow> False
     | Some area \<Rightarrow> length area = 8
         \<and> unpack_argv (length [lit ''ab'', lit ''c'']) area = [lit ''ab'', lit ''c'']"
proof -
  have "\<forall>a \<in> set [lit ''ab'', lit ''c'']. 0 \<notin> set a" by (simp add: lit_def)
  from fix_argv_roundtrip [OF this, of 8] show ?thesis
    by (cases "fix_argv 8 [lit ''ab'', lit ''c'']") (simp_all del: unpack_argv.simps)
qed

text \<open>The clock and sleep arithmetic lose less than a millisecond.\<close>

lemma sleep_ms_exact: "0 \<le> ms \<Longrightarrow> case sleep_ms ms of (s, ns) \<Rightarrow>
    time_ms s ns = ms \<and> 0 \<le> ns \<and> ns < 1000000000"
  by (auto simp: sleep_ms_def time_ms_def)

end
