(* ===== verification/Posix.thy ===== *)
theory Posix
  imports Utility
begin

text \<open>
  The file services of the host the programs run on. They are a parameter of the model: the record
  \<open>'f posix\<close> holds one function per system or library call the sources use, each over a state \<open>'f\<close>
  of the host that the model never looks into. Nothing is assumed of these functions but two facts
  of their documentation that are built into \<open>sys_read\<close> and \<open>sys_write\<close>: \<open>read\<close> returns at most as
  many bytes as it was asked for, and \<open>write\<close> reports at most as many as it was given.
\<close>

record stat_t =
  st_mode :: u32
  st_size :: int
  st_ctim :: int
  st_atim :: int
  st_mtim :: int

record tm_t =
  tm_sec :: int
  tm_min :: int
  tm_hour :: int
  tm_mday :: int
  tm_mon :: int
  tm_year :: int

record 'f posix =
  p_open :: "byte list \<Rightarrow> int \<Rightarrow> int \<Rightarrow> 'f \<Rightarrow> int \<times> 'f"
  p_close :: "int \<Rightarrow> 'f \<Rightarrow> int \<times> 'f"
  p_read :: "int \<Rightarrow> nat \<Rightarrow> 'f \<Rightarrow> byte list option \<times> 'f"
  p_write :: "int \<Rightarrow> byte list \<Rightarrow> 'f \<Rightarrow> int \<times> 'f"
  p_lseek :: "int \<Rightarrow> int \<Rightarrow> int \<Rightarrow> 'f \<Rightarrow> int \<times> 'f"
  p_stat :: "byte list \<Rightarrow> 'f \<Rightarrow> stat_t option \<times> 'f"
  p_opendir :: "byte list \<Rightarrow> 'f \<Rightarrow> int option \<times> 'f"
  p_readdir :: "int \<Rightarrow> 'f \<Rightarrow> byte list option \<times> 'f"
  p_closedir :: "int \<Rightarrow> 'f \<Rightarrow> int \<times> 'f"
  p_remove :: "byte list \<Rightarrow> 'f \<Rightarrow> int \<times> 'f"
  p_mkdir :: "byte list \<Rightarrow> u32 \<Rightarrow> 'f \<Rightarrow> int \<times> 'f"
  p_rmdir :: "byte list \<Rightarrow> 'f \<Rightarrow> int \<times> 'f"
  p_malloc :: "nat \<Rightarrow> 'f \<Rightarrow> bool \<times> 'f"
  p_localtime :: "int \<Rightarrow> tm_t option"

text \<open>\<open>read\<close>: \<open>-1\<close>, or a count with that many bytes in the buffer.\<close>

definition sys_read :: "'f posix \<Rightarrow> int \<Rightarrow> nat \<Rightarrow> 'f \<Rightarrow> (int \<times> byte list) \<times> 'f" where
  "sys_read P fd n f = (case p_read P fd n f of
     (None, f') \<Rightarrow> ((-1, []), f')
   | (Some bs, f') \<Rightarrow> let bs = take n bs in ((int (length bs), bs), f'))"

definition sys_write :: "'f posix \<Rightarrow> int \<Rightarrow> byte list \<Rightarrow> 'f \<Rightarrow> int \<times> 'f" where
  "sys_write P fd bs f = (case p_write P fd bs f of (r, f') \<Rightarrow> (min r (int (length bs)), f'))"

text \<open>The file types of \<^verbatim>\<open><sys/stat.h>\<close>.\<close>

definition S_ISDIR :: "u32 \<Rightarrow> bool" where "S_ISDIR m \<longleftrightarrow> m AND 0xF000 = 0x4000"
definition S_ISREG :: "u32 \<Rightarrow> bool" where "S_ISREG m \<longleftrightarrow> m AND 0xF000 = 0x8000"
definition S_ISLNK :: "u32 \<Rightarrow> bool" where "S_ISLNK m \<longleftrightarrow> m AND 0xF000 = 0xA000"

text \<open>The status word of \<^verbatim>\<open><sys/wait.h>\<close>.\<close>

definition WIFEXITED :: "u32 \<Rightarrow> bool" where
  "WIFEXITED status \<longleftrightarrow> status AND 0x7F = 0"

definition WEXITSTATUS :: "u32 \<Rightarrow> int" where
  "WEXITSTATUS status = uint (drop_bit 8 (status AND 0xFF00))"

lemma sys_read_le: "sys_read P fd n f = ((r, bs), f') \<Longrightarrow> length bs \<le> n \<and> (r = -1 \<and> bs = [] \<or> r = int (length bs))"
  by (auto simp: sys_read_def Let_def split: prod.splits option.splits)

lemma sys_write_le: "sys_write P fd bs f = (r, f') \<Longrightarrow> r \<le> int (length bs)"
  by (auto simp: sys_write_def split: prod.splits)

end
