(* ===== verification/Network.thy ===== *)
theory Network
  imports Prelude
begin

text \<open>
  \<^verbatim>\<open>src/network.c\<close>: sockets. What the kernel and the peer do is input of the model. The receiving
  side of a connection is the history of events the calls of \<open>recvfrom\<close> meet, the sending side the
  history of answers the calls of \<open>send\<close> meet; both are arbitrary lists, so data may come in and go
  out in pieces of any size, calls may be interrupted, and the connection may close or fail at any
  point. A history is finite: where it ends, a stream is at its end (\<open>recvfrom\<close> returns 0, as it does
  for good once the peer has closed) and \<open>send\<close> takes all it is given. Calls that never return are
  not values of the model.
\<close>

section \<open>Connections\<close>

datatype rx_event = Rx_Data "byte list" | Rx_Eintr | Rx_Fail

datatype tx_event = Tx_Accept nat | Tx_Eintr | Tx_Fail

record conn =
  rx :: "rx_event list"
  tx :: "byte list"
  tx_plan :: "tx_event list"

type_synonym net = "int \<Rightarrow> conn"

text \<open>What one call returns: a count (with the data), \<open>-1\<close> with \<open>EINTR\<close>, \<open>-1\<close> with another error.\<close>

datatype 'a call = Done 'a | Interrupted | Failed

text \<open>\<open>recvfrom\<close> on a stream: what does not fit stays for the next call.\<close>

fun recv_stream :: "nat \<Rightarrow> rx_event list \<Rightarrow> byte list call \<times> rx_event list" where
  "recv_stream n [] = (Done [], [])"
| "recv_stream n (Rx_Data bs # es) =
     (if length bs \<le> n then (Done bs, es) else (Done (take n bs), Rx_Data (drop n bs) # es))"
| "recv_stream n (Rx_Eintr # es) = (Interrupted, es)"
| "recv_stream n (Rx_Fail # es) = (Failed, es)"

text \<open>\<open>recvfrom\<close> on a datagram socket: what does not fit is lost.\<close>

fun recv_dgram :: "nat \<Rightarrow> rx_event list \<Rightarrow> byte list call \<times> rx_event list" where
  "recv_dgram n [] = (Failed, [])"
| "recv_dgram n (Rx_Data bs # es) = (Done (take n bs), es)"
| "recv_dgram n (Rx_Eintr # es) = (Interrupted, es)"
| "recv_dgram n (Rx_Fail # es) = (Failed, es)"

fun send_some :: "nat \<Rightarrow> tx_event list \<Rightarrow> nat call \<times> tx_event list" where
  "send_some n [] = (Done n, [])"
| "send_some n (Tx_Accept k # es) = (Done (min k n), es)"
| "send_some n (Tx_Eintr # es) = (Interrupted, es)"
| "send_some n (Tx_Fail # es) = (Failed, es)"

section \<open>Sending and receiving everything\<close>

lemma send_some_progress:
  "send_some n es = (Done k, es') \<Longrightarrow> k \<le> n \<and> length es' \<le> length es"
  "send_some n es = (Interrupted, es') \<Longrightarrow> length es' < length es"
  by (cases "(n, es)" rule: send_some.cases; auto)+

text \<open>
  The loop of \<open>network_send\<close>: \<open>tot\<close> bytes of the first \<open>size\<close> bytes of the buffer are out. The
  result is the return value, the bytes that went out and the rest of the history.
\<close>

function send_loop :: "byte list \<Rightarrow> nat \<Rightarrow> nat \<Rightarrow> tx_event list \<Rightarrow> int \<times> nat \<times> tx_event list" where
  "send_loop buffer sz tot es =
     (if tot < sz then
        (case send_some (sz - tot) es of
           (Done sent, es') \<Rightarrow>
             if sent = 0 then (-1, tot, es') else send_loop buffer sz (tot + sent) es'
         | (Interrupted, es') \<Rightarrow> send_loop buffer sz tot es'
         | (Failed, es') \<Rightarrow> (-1, tot, es'))
      else (int tot, tot, es))"
  by pat_completeness auto

termination
  by (relation "measure (\<lambda>(b, s, t, es). (s - t) + length es)")
     (auto dest!: send_some_progress [OF sym])

declare send_loop.simps [simp del]

definition network_send :: "int \<Rightarrow> byte list \<Rightarrow> int \<Rightarrow> (net, int) state" where
  "network_send sock buffer sz = State (\<lambda>n.
     let (r, tot, es) = send_loop buffer (nat sz) 0 (tx_plan (n sock))
     in (r, n(sock := (n sock)\<lparr>tx := tx (n sock) @ take tot buffer, tx_plan := es\<rparr>)))"

lemma recv_stream_progress:
  "recv_stream n es = (Done bs, es') \<Longrightarrow> length bs \<le> n \<and> length es' \<le> length es"
  "recv_stream n es = (Interrupted, es') \<Longrightarrow> length es' < length es"
  by (cases "(n, es)" rule: recv_stream.cases; auto split: if_splits)+

text \<open>
  The loop of \<open>network_receive_all\<close>: \<open>got\<close> is what the buffer holds so far.
\<close>

function receive_loop :: "nat \<Rightarrow> byte list \<Rightarrow> rx_event list \<Rightarrow> int \<times> byte list \<times> rx_event list" where
  "receive_loop sz got es =
     (if length got < sz then
        (case recv_stream (sz - length got) es of
           (Done bs, es') \<Rightarrow>
             if bs = [] then (-1, got, es') else receive_loop sz (got @ bs) es'
         | (Interrupted, es') \<Rightarrow> receive_loop sz got es'
         | (Failed, es') \<Rightarrow> (-1, got, es'))
      else (int (length got), got, es))"
  by pat_completeness auto

termination
proof (relation "measure (\<lambda>(s, got, es). (s - length got) + length es)")
  fix sz :: nat and got bs :: "byte list" and es es' c
  assume "length got < sz" "(c, es') = recv_stream (sz - length got) es" "c = Done bs" "bs \<noteq> []"
  then show "((sz, got @ bs, es'), (sz, got, es)) \<in> measure (\<lambda>(s, got, es). (s - length got) + length es)"
    using recv_stream_progress(1) [of "sz - length got" es bs es'] by (cases bs) auto
qed (auto dest!: recv_stream_progress(2) [OF sym])

declare receive_loop.simps [simp del]

definition network_receive_all :: "int \<Rightarrow> int \<Rightarrow> (net, int \<times> byte list) state" where
  "network_receive_all sock sz = State (\<lambda>n.
     let (r, got, es) = receive_loop (nat sz) [] (rx (n sock))
     in ((r, got), n(sock := (n sock)\<lparr>rx := es\<rparr>)))"

definition network_receive :: "int \<Rightarrow> int \<Rightarrow> (net, int \<times> byte list) state" where
  "network_receive sock sz = State (\<lambda>n.
     case recv_dgram (nat sz) (rx (n sock)) of
       (Done bs, es) \<Rightarrow> ((int (length bs), bs), n(sock := (n sock)\<lparr>rx := es\<rparr>))
     | (_, es) \<Rightarrow> ((-1, []), n(sock := (n sock)\<lparr>rx := es\<rparr>)))"

section \<open>The stream a history delivers\<close>

text \<open>The bytes that come in before the connection ends or fails, whatever the pieces.\<close>

fun delivered :: "rx_event list \<Rightarrow> byte list" where
  "delivered [] = []"
| "delivered (Rx_Data bs # es) = (if bs = [] then [] else bs @ delivered es)"
| "delivered (Rx_Eintr # es) = delivered es"
| "delivered (Rx_Fail # es) = []"

text \<open>A history of the sending side in which no call fails or takes nothing.\<close>

fun accepting :: "tx_event list \<Rightarrow> bool" where
  "accepting [] = True"
| "accepting (Tx_Accept k # es) = (0 < k \<and> accepting es)"
| "accepting (Tx_Eintr # es) = accepting es"
| "accepting (Tx_Fail # es) = False"

lemma recv_stream_delivered:
  "recv_stream n es = (Done bs, es') \<Longrightarrow> bs \<noteq> [] \<Longrightarrow> 0 < n \<Longrightarrow> delivered es = bs @ delivered es'"
  "recv_stream n es = (Done [], es') \<Longrightarrow> 0 < n \<Longrightarrow> delivered es = []"
  "recv_stream n es = (Interrupted, es') \<Longrightarrow> delivered es = delivered es'"
  "recv_stream n es = (Failed, es') \<Longrightarrow> delivered es = []"
  by (cases "(n, es)" rule: recv_stream.cases; auto split: if_splits)+

lemma receive_loop_enough:
  "length got \<le> s \<Longrightarrow> s - length got \<le> length (delivered es) \<Longrightarrow>
   \<exists>es'. receive_loop s got es = (int s, got @ take (s - length got) (delivered es), es')
     \<and> delivered es' = drop (s - length got) (delivered es)"
proof (induction s got es rule: receive_loop.induct)
  case (1 s got es)
  show ?case
  proof (cases "length got < s")
    case False
    with "1.prems" show ?thesis by (subst receive_loop.simps) simp
  next
    case True
    obtain c es' where c: "recv_stream (s - length got) es = (c, es')" by force
    show ?thesis
    proof (cases c)
      case (Done bs)
      with c True "1.prems" have ne: "bs \<noteq> []" and le: "length bs \<le> s - length got"
        and d: "delivered es = bs @ delivered es'"
        using recv_stream_delivered recv_stream_progress by fastforce+
      with "1.IH"(1) [OF True c [symmetric] Done] "1.prems" True obtain es'' where
        "receive_loop s (got @ bs) es' =
           (int s, (got @ bs) @ take (s - length (got @ bs)) (delivered es'), es'')"
        "delivered es'' = drop (s - length (got @ bs)) (delivered es')"
        by fastforce
      with True c Done ne le d show ?thesis by (subst receive_loop.simps) simp
    next
      case Interrupted
      with c have "delivered es = delivered es'" by (simp add: recv_stream_delivered(3))
      with "1.IH"(2) [OF True c [symmetric] Interrupted] "1.prems" True c Interrupted show ?thesis
        by (subst receive_loop.simps) simp
    next
      case Failed
      with c recv_stream_delivered(4) "1.prems" True show ?thesis by fastforce
    qed
  qed
qed

lemma receive_loop_short:
  "length got + length (delivered es) < s \<Longrightarrow> \<exists>es'. receive_loop s got es = (-1, got @ delivered es, es')"
proof (induction s got es rule: receive_loop.induct)
  case (1 s got es)
  then have lt: "length got < s" by simp
  obtain c es' where c: "recv_stream (s - length got) es = (c, es')" by force
  show ?case
  proof (cases c)
    case (Done bs)
    show ?thesis
    proof (cases "bs = []")
      case True
      with lt c Done show ?thesis
        by (subst receive_loop.simps) (simp add: recv_stream_delivered(2))
    next
      case False
      with c Done lt have d: "delivered es = bs @ delivered es'"
        using recv_stream_delivered(1) by fastforce
      with "1.IH"(1) [OF lt c [symmetric] Done False] "1.prems" lt c Done False show ?thesis
        by (subst receive_loop.simps) simp
    qed
  next
    case Interrupted
    with "1.IH"(2) [OF lt c [symmetric] Interrupted] "1.prems" lt c show ?thesis
      by (subst receive_loop.simps) (simp add: recv_stream_delivered(3))
  next
    case Failed
    with lt c show ?thesis
      by (subst receive_loop.simps) (simp add: recv_stream_delivered(4))
  qed
qed

lemma send_loop_cases:
  "tot \<le> s \<Longrightarrow> \<exists>r t es'. send_loop b s tot es = (r, t, es') \<and> tot \<le> t \<and> t \<le> s
     \<and> (r = int s \<and> t = s \<or> r = -1 \<and> t < s)"
proof (induction b s tot es rule: send_loop.induct)
  case (1 b s tot es)
  show ?case
  proof (cases "tot < s")
    case False
    with "1.prems" show ?thesis by (subst send_loop.simps) simp
  next
    case True
    obtain c es' where c: "send_some (s - tot) es = (c, es')" by force
    show ?thesis
    proof (cases c)
      case (Done k)
      show ?thesis
      proof (cases "k = 0")
        case True
        with c Done \<open>tot < s\<close> show ?thesis by (subst send_loop.simps) simp
      next
        case False
        from c Done \<open>tot < s\<close> have "tot + k \<le> s" using send_some_progress(1) by fastforce
        from "1.IH"(1) [OF True c [symmetric] Done False this] show ?thesis
          using c Done True False by (subst send_loop.simps) auto
      qed
    next
      case Interrupted
      from "1.IH"(2) [OF True c [symmetric] Interrupted] show ?thesis
        using c Interrupted True by (subst send_loop.simps) simp
    next
      case Failed
      with c True show ?thesis by (subst send_loop.simps) simp
    qed
  qed
qed

lemma send_some_accepting:
  "accepting es \<Longrightarrow> 0 < n \<Longrightarrow> send_some n es = (c, es') \<Longrightarrow>
     accepting es' \<and> c \<noteq> Failed \<and> c \<noteq> Done 0"
  by (cases "(n, es)" rule: send_some.cases) auto

lemma send_loop_accepting:
  "tot \<le> s \<Longrightarrow> accepting es \<Longrightarrow>
    \<exists>es'. send_loop b s tot es = (int s, s, es') \<and> accepting es'"
proof (induction b s tot es rule: send_loop.induct)
  case (1 b s tot es)
  show ?case
  proof (cases "tot < s")
    case False
    with "1.prems" show ?thesis by (subst send_loop.simps) simp
  next
    case True
    obtain c es' where c: "send_some (s - tot) es = (c, es')" by force
    have acc: "accepting es'" "c \<noteq> Failed" "c \<noteq> Done 0"
      using send_some_accepting [OF "1.prems"(2) _ c] True by simp_all
    show ?thesis
    proof (cases c)
      case (Done k)
      with acc have k: "k \<noteq> 0" by auto
      from c Done True have "tot + k \<le> s" using send_some_progress(1) by fastforce
      from "1.IH"(1) [OF True c [symmetric] Done k this acc(1)] show ?thesis
        using c Done True k by (subst send_loop.simps) simp
    next
      case Interrupted
      from "1.IH"(2) [OF True c [symmetric] Interrupted "1.prems"(1) acc(1)] show ?thesis
        using c Interrupted True by (subst send_loop.simps) simp
    qed (use acc in simp)
  qed
qed

text \<open>What is left of a history: every call of \<open>recvfrom\<close> that returns something uses it up.\<close>

fun rx_weight :: "rx_event list \<Rightarrow> nat" where
  "rx_weight [] = 0"
| "rx_weight (Rx_Data bs # es) = Suc (length bs) + rx_weight es"
| "rx_weight (_ # es) = Suc (rx_weight es)"

lemma recv_stream_weight:
  "recv_stream n es = (c, es') \<Longrightarrow> rx_weight es' \<le> rx_weight es"
  "recv_stream n es = (Done bs, es') \<Longrightarrow> 0 < n \<Longrightarrow> bs \<noteq> [] \<Longrightarrow> rx_weight es' < rx_weight es"
  by (cases "(n, es)" rule: recv_stream.cases; auto split: if_splits)+

lemma receive_loop_weight:
  "receive_loop s got es = (r, got', es') \<Longrightarrow>
     rx_weight es' \<le> rx_weight es \<and> (length got < s \<and> 0 \<le> r \<longrightarrow> rx_weight es' < rx_weight es)"
proof (induction s got es rule: receive_loop.induct)
  case (1 s got es)
  show ?case
  proof (cases "length got < s")
    case False
    with "1.prems" show ?thesis by (subst (asm) receive_loop.simps) simp
  next
    case True
    obtain c es1 where c: "recv_stream (s - length got) es = (c, es1)" by force
    show ?thesis
    proof (cases c)
      case (Done bs)
      with c True "1.prems" "1.IH"(1) [OF True c [symmetric] Done] recv_stream_weight [of "s - length got" es _ es1]
      show ?thesis by (subst (asm) receive_loop.simps) (fastforce split: if_splits)
    next
      case Interrupted
      with c True "1.prems" "1.IH"(2) [OF True c [symmetric] Interrupted] recv_stream_weight(1) [OF c]
      show ?thesis by (subst (asm) receive_loop.simps) auto
    next
      case Failed
      with c True "1.prems" recv_stream_weight(1) [OF c] show ?thesis
        by (subst (asm) receive_loop.simps) auto
    qed
  qed
qed

section \<open>The contract of the two calls\<close>

text \<open>
  What the protocol code relies on: a reliable byte stream per connection. \<open>inbox\<close> is what is still
  to come in, \<open>outbox\<close> all that went out, \<open>writable\<close> says that no call of \<open>send\<close> is going to fail.
\<close>

locale byte_stream =
  fixes send :: "'c \<Rightarrow> byte list \<Rightarrow> int \<Rightarrow> ('n, int) state"
    and recv :: "'c \<Rightarrow> int \<Rightarrow> ('n, int \<times> byte list) state"
    and inbox :: "'n \<Rightarrow> 'c \<Rightarrow> byte list"
    and outbox :: "'n \<Rightarrow> 'c \<Rightarrow> byte list"
    and writable :: "'n \<Rightarrow> 'c \<Rightarrow> bool"
  assumes recv_enough: "k \<le> length (inbox n c) \<Longrightarrow>
      \<exists>n'. run_state (recv c (int k)) n = ((int k, take k (inbox n c)), n')
        \<and> inbox n' c = drop k (inbox n c) \<and> outbox n' = outbox n \<and> writable n' = writable n
        \<and> (\<forall>d. d \<noteq> c \<longrightarrow> inbox n' d = inbox n d)"
    and recv_short: "length (inbox n c) < k \<Longrightarrow>
      \<exists>n'. run_state (recv c (int k)) n = ((-1, inbox n c), n')
        \<and> outbox n' = outbox n \<and> writable n' = writable n
        \<and> (\<forall>d. d \<noteq> c \<longrightarrow> inbox n' d = inbox n d)"
    and send_all: "writable n c \<Longrightarrow>
      \<exists>n'. run_state (send c bs (int (length bs))) n = (int (length bs), n')
        \<and> outbox n' = (outbox n)(c := outbox n c @ bs) \<and> inbox n' = inbox n
        \<and> writable n' = writable n"
    and send_prefix: "\<exists>r p n'. run_state (send c bs (int (length bs))) n = (r, n')
        \<and> outbox n' = (outbox n)(c := outbox n c @ p) \<and> inbox n' = inbox n
        \<and> (r = int (length bs) \<and> p = bs \<or> r = -1 \<and> strict_prefix p bs)"
begin

text \<open>
  The exchange every client of a request and response protocol performs: send the packet, then
  receive a reply of known size. \<open>None\<close> stands for the early return of \<open>-1\<close>.
\<close>

lemma exchange_reply:
  assumes "writable n c" and "k \<le> length (inbox n c)"
  shows "\<exists>n'. run_state (do { r \<leftarrow> send c pkt (int (length pkt));
             if r < 0 then ret None else do {
             (r, reply) \<leftarrow> recv c (int k);
             ret (if r < 0 then None else Some reply) } }) n = (Some (take k (inbox n c)), n')
     \<and> inbox n' c = drop k (inbox n c) \<and> outbox n' = (outbox n)(c := outbox n c @ pkt)
     \<and> writable n' = writable n \<and> (\<forall>d. d \<noteq> c \<longrightarrow> inbox n' d = inbox n d)"
proof -
  obtain n1 where s: "run_state (send c pkt (int (length pkt))) n = (int (length pkt), n1)"
    "outbox n1 = (outbox n)(c := outbox n c @ pkt)" "inbox n1 = inbox n" "writable n1 = writable n"
    using send_all [OF assms(1)] by blast
  with assms(2) recv_enough [of k n1 c] obtain n2 where
    "run_state (recv c (int k)) n1 = ((int k, take k (inbox n c)), n2)"
    "inbox n2 c = drop k (inbox n c)" "outbox n2 = outbox n1" "writable n2 = writable n1"
    "\<forall>d. d \<noteq> c \<longrightarrow> inbox n2 d = inbox n d"
    by auto
  with s show ?thesis by simp
qed

text \<open>Whatever happens, the peer sees a prefix of the packet, and a reply is a whole reply.\<close>

lemma exchange_any:
  "\<exists>r p n'. run_state (do { r \<leftarrow> send c pkt (int (length pkt));
             if r < 0 then ret None else do {
             (r, reply) \<leftarrow> recv c (int k);
             ret (if r < 0 then None else Some reply) } }) n = (r, n')
     \<and> prefix p pkt \<and> outbox n' = (outbox n)(c := outbox n c @ p)
     \<and> (\<forall>d. d \<noteq> c \<longrightarrow> inbox n' d = inbox n d)
     \<and> (case r of None \<Rightarrow> strict_prefix p pkt \<or> length (inbox n c) < k
        | Some reply \<Rightarrow> p = pkt \<and> k \<le> length (inbox n c) \<and> reply = take k (inbox n c)
            \<and> inbox n' c = drop k (inbox n c))"
proof -
  obtain r p n1 where s: "run_state (send c pkt (int (length pkt))) n = (r, n1)"
    "outbox n1 = (outbox n)(c := outbox n c @ p)" "inbox n1 = inbox n"
    "r = int (length pkt) \<and> p = pkt \<or> r = -1 \<and> strict_prefix p pkt"
    using send_prefix by blast
  show ?thesis
  proof (cases "r = -1")
    case True
    with s show ?thesis by (intro exI [of _ None] exI [of _ p]) auto
  next
    case False
    with s have r: "r = int (length pkt)" "p = pkt" by auto
    show ?thesis
    proof (cases "k \<le> length (inbox n c)")
      case True
      with recv_enough [of k n1 c] s(3) obtain n2 where
        "run_state (recv c (int k)) n1 = ((int k, take k (inbox n c)), n2)"
        "inbox n2 c = drop k (inbox n c)" "outbox n2 = outbox n1"
        "\<forall>d. d \<noteq> c \<longrightarrow> inbox n2 d = inbox n d"
        by auto
      with s(1,2) r True show ?thesis by auto
    next
      case False
      with recv_short [of n1 c k] s(3) obtain n2 where
        "run_state (recv c (int k)) n1 = ((-1, inbox n c), n2)" "outbox n2 = outbox n1"
        "\<forall>d. d \<noteq> c \<longrightarrow> inbox n2 d = inbox n d"
        by auto
      with s(1,2) r False show ?thesis by auto
    qed
  qed
qed

end

definition net_inbox :: "net \<Rightarrow> int \<Rightarrow> byte list" where
  "net_inbox n sock = delivered (rx (n sock))"

definition net_outbox :: "net \<Rightarrow> int \<Rightarrow> byte list" where
  "net_outbox n sock = tx (n sock)"

definition net_writable :: "net \<Rightarrow> int \<Rightarrow> bool" where
  "net_writable n sock = accepting (tx_plan (n sock))"

lemmas net_views = net_inbox_def net_outbox_def net_writable_def

lemma net_views_rx [simp]:
  "net_inbox (n(s := (n s)\<lparr>rx := es\<rparr>)) = (net_inbox n)(s := delivered es)"
  "net_outbox (n(s := (n s)\<lparr>rx := es\<rparr>)) = net_outbox n"
  "net_writable (n(s := (n s)\<lparr>rx := es\<rparr>)) = net_writable n"
  by (auto simp: net_views fun_eq_iff)

lemma net_views_tx [simp]:
  "net_inbox (n(s := (n s)\<lparr>tx := bs, tx_plan := es\<rparr>)) = net_inbox n"
  "net_outbox (n(s := (n s)\<lparr>tx := bs, tx_plan := es\<rparr>)) = (net_outbox n)(s := bs)"
  "net_writable (n(s := (n s)\<lparr>tx := bs, tx_plan := es\<rparr>)) = (net_writable n)(s := accepting es)"
  by (auto simp: net_views fun_eq_iff)

lemma network_receive_all_enough:
  assumes "k \<le> length (net_inbox n sock)"
  shows "\<exists>n'. run_state (network_receive_all sock (int k)) n = ((int k, take k (net_inbox n sock)), n')
    \<and> net_inbox n' sock = drop k (net_inbox n sock) \<and> net_outbox n' = net_outbox n
    \<and> net_writable n' = net_writable n \<and> (\<forall>d. d \<noteq> sock \<longrightarrow> net_inbox n' d = net_inbox n d)"
  using assms receive_loop_enough [of "[]" k "rx (n sock)"]
  by (auto simp: network_receive_all_def net_inbox_def)

lemma network_receive_all_short:
  assumes "length (net_inbox n sock) < k"
  shows "\<exists>n'. run_state (network_receive_all sock (int k)) n = ((-1, net_inbox n sock), n')
    \<and> net_outbox n' = net_outbox n
    \<and> net_writable n' = net_writable n \<and> (\<forall>d. d \<noteq> sock \<longrightarrow> net_inbox n' d = net_inbox n d)"
  using assms receive_loop_short [of "[]" "rx (n sock)" k]
  by (auto simp: network_receive_all_def net_inbox_def)

lemma network_send_writable:
  assumes "net_writable n sock"
  shows "\<exists>n'. run_state (network_send sock bs (int (length bs))) n = (int (length bs), n')
    \<and> net_outbox n' = (net_outbox n)(sock := net_outbox n sock @ bs)
    \<and> net_inbox n' = net_inbox n \<and> net_writable n' = net_writable n"
  using assms send_loop_accepting [of 0 "length bs" "tx_plan (n sock)" bs]
  by (auto simp: network_send_def net_writable_def [of n sock] net_outbox_def [of n sock]
      intro!: fun_upd_idem)

lemma network_send_prefix:
  "\<exists>r p n'. run_state (network_send sock bs (int (length bs))) n = (r, n')
    \<and> net_outbox n' = (net_outbox n)(sock := net_outbox n sock @ p)
    \<and> net_inbox n' = net_inbox n
    \<and> (r = int (length bs) \<and> p = bs \<or> r = -1 \<and> strict_prefix p bs)"
proof -
  obtain r t es where "send_loop bs (length bs) 0 (tx_plan (n sock)) = (r, t, es)"
    and "r = int (length bs) \<and> t = length bs \<or> r = -1 \<and> t < length bs"
    using send_loop_cases [of 0 "length bs" bs "tx_plan (n sock)"] by auto
  moreover have "t < length bs \<Longrightarrow> strict_prefix (take t bs) bs"
    by (metis length_take min_less_iff_conj nat_neq_iff strict_prefix_def take_is_prefix)
  ultimately show ?thesis
    by (intro exI [of _ r] exI [of _ "take t bs"])
       (auto simp: network_send_def net_outbox_def [of n sock])
qed

interpretation tcp: byte_stream network_send network_receive_all net_inbox net_outbox net_writable
  by unfold_locales
    (rule network_receive_all_enough network_receive_all_short network_send_writable
      network_send_prefix; assumption?)+

text \<open>The weight of the history under the two calls, whatever they return.\<close>

definition net_weight :: "net \<Rightarrow> int \<Rightarrow> nat" where
  "net_weight n sock = rx_weight (rx (n sock))"

lemma net_weight_upd [simp]:
  "net_weight (n(s := (n s)\<lparr>tx := bs, tx_plan := es\<rparr>)) = net_weight n"
  by (auto simp: net_weight_def fun_eq_iff)

lemma network_send_weight:
  "run_state (network_send c bs k) n = (r, n') \<Longrightarrow> net_weight n' = net_weight n \<and> net_inbox n' = net_inbox n"
  by (auto simp: network_send_def Let_def split: prod.splits)

lemma network_receive_all_weight:
  assumes "run_state (network_receive_all c k) n = ((r, got), n')"
  shows "net_weight n' sock \<le> net_weight n sock"
    and "0 < k \<Longrightarrow> 0 \<le> r \<Longrightarrow> net_weight n' c < net_weight n c"
  using assms receive_loop_weight [of "nat k" "[]" "rx (n c)"]
  by (auto simp: network_receive_all_def net_weight_def Let_def split: prod.splits if_splits)

text \<open>A connection that takes what is sent goes on to do so.\<close>

lemma network_send_stays_writable:
  "run_state (network_send c bs k) n = (r, n') \<Longrightarrow> net_writable n sock \<Longrightarrow> net_writable n' sock"
  using send_loop_accepting [of 0 "nat k" "tx_plan (n sock)" bs]
  by (auto simp: network_send_def Let_def net_writable_def split: prod.splits if_splits)

lemma network_receive_all_stays_writable:
  "run_state (network_receive_all c k) n = ((r, got), n') \<Longrightarrow> net_writable n' = net_writable n"
  by (auto simp: network_receive_all_def Let_def split: prod.splits if_splits)

lemma network_receive_stays_writable:
  "run_state (network_receive c k) n = (x, n') \<Longrightarrow> net_writable n' = net_writable n"
  by (rule ext) (auto simp: network_receive_def net_writable_def split: prod.splits call.splits if_splits)

text \<open>No call touches another connection.\<close>

lemma network_send_other:
  "run_state (network_send c bs k) n = (r, n') \<Longrightarrow> c \<noteq> other \<Longrightarrow> n' other = n other"
  by (auto simp: network_send_def Let_def split: prod.splits)

lemma network_receive_all_other:
  "run_state (network_receive_all c k) n = ((r, got), n') \<Longrightarrow> c \<noteq> other \<Longrightarrow> n' other = n other"
  by (auto simp: network_receive_all_def Let_def split: prod.splits)

lemma network_receive_other:
  "run_state (network_receive c k) n = ((r, got), n') \<Longrightarrow> c \<noteq> other \<Longrightarrow> n' other = n other"
  by (auto simp: network_receive_def split: prod.splits call.splits)

text \<open>
  The same laws in the form the simplifier applies: the network after a whole buffer went out, and
  after a number of bytes came in.
\<close>

definition after_send :: "net \<Rightarrow> int \<Rightarrow> byte list \<Rightarrow> net" where
  "after_send n sock bs = snd (run_state (network_send sock bs (int (length bs))) n)"

definition after_recv :: "net \<Rightarrow> int \<Rightarrow> nat \<Rightarrow> net" where
  "after_recv n sock k = snd (run_state (network_receive_all sock (int k)) n)"

lemma run_network_send:
  "net_writable n sock \<Longrightarrow> k = int (length bs) \<Longrightarrow>
     run_state (network_send sock bs k) n = (k, after_send n sock bs)"
  using network_send_writable [of n sock bs] by (auto simp: after_send_def)

lemma net_views_after_send [simp]:
  assumes "net_writable n sock"
  shows "net_outbox (after_send n sock bs) = (net_outbox n)(sock := net_outbox n sock @ bs)"
    and "net_inbox (after_send n sock bs) = net_inbox n"
    and "net_writable (after_send n sock bs) = net_writable n"
  using network_send_writable [OF assms, of bs] by (auto simp: after_send_def)

lemma run_network_receive_all:
  "k = int m \<Longrightarrow> m \<le> length (net_inbox n sock) \<Longrightarrow>
     run_state (network_receive_all sock k) n = ((k, take m (net_inbox n sock)), after_recv n sock m)"
  using network_receive_all_enough [of m n sock] by (auto simp: after_recv_def)

lemma run_network_receive_all_short:
  "k = int m \<Longrightarrow> length (net_inbox n sock) < m \<Longrightarrow>
     run_state (network_receive_all sock k) n = ((-1, net_inbox n sock), after_recv n sock m)"
  using network_receive_all_short [of n sock m] by (auto simp: after_recv_def)

lemma net_views_after_recv [simp]:
  "net_outbox (after_recv n sock m) = net_outbox n"
  "net_writable (after_recv n sock m) = net_writable n"
proof -
  have "net_outbox (after_recv n sock m) = net_outbox n \<and> net_writable (after_recv n sock m) = net_writable n"
    by (cases "m \<le> length (net_inbox n sock)")
       (auto simp: after_recv_def not_le dest!: network_receive_all_enough network_receive_all_short)
  then show "net_outbox (after_recv n sock m) = net_outbox n"
    "net_writable (after_recv n sock m) = net_writable n" by simp_all
qed

lemma net_inbox_after_recv [simp]:
  "m \<le> length (net_inbox n sock) \<Longrightarrow>
     net_inbox (after_recv n sock m) = (net_inbox n)(sock := drop m (net_inbox n sock))"
  using network_receive_all_enough [of m n sock] by (auto simp: after_recv_def)

declare run_network_send [simp] run_network_receive_all [simp] run_network_receive_all_short [simp]

text \<open>Only the first \<open>size\<close> bytes of the buffer matter.\<close>

lemma send_loop_buffer: "send_loop b s t es = send_loop b' s t es"
proof (induction b s t es rule: send_loop.induct)
  case (1 b s t es)
  then show ?case
    by (subst (1 2) send_loop.simps) (auto split: prod.splits call.splits)
qed

lemma network_send_take: "network_send sock buf k = network_send sock (take (nat k) buf) k"
proof -
  have "run_state (network_send sock buf k) n = run_state (network_send sock (take (nat k) buf) k) n" for n
  proof -
    obtain r t es where "send_loop buf (nat k) 0 (tx_plan (n sock)) = (r, t, es)" "t \<le> nat k"
      using send_loop_cases [of 0 "nat k" buf] by blast
    moreover from this send_loop_buffer
    have "send_loop (take (nat k) buf) (nat k) 0 (tx_plan (n sock)) = (r, t, es)" by metis
    ultimately show ?thesis
      by (simp add: network_send_def min_absorb1)
  qed
  then show ?thesis by (rule state_ext)
qed

lemma run_network_send_part:
  "net_writable n sock \<Longrightarrow> 0 \<le> k \<Longrightarrow> k \<le> int (length bs) \<Longrightarrow>
     run_state (network_send sock bs k) n = (k, after_send n sock (take (nat k) bs))"
  by (subst network_send_take) (simp add: run_network_send)

text \<open>A size that is not positive sends and receives nothing and succeeds.\<close>

lemma network_send_nothing [simp, runs]:
  "sz \<le> 0 \<Longrightarrow> run_state (network_send sock bs sz) n = (0, n)"
  by (auto simp: network_send_def send_loop.simps fun_eq_iff)

lemma network_receive_all_nothing [simp, runs]:
  "sz \<le> 0 \<Longrightarrow> run_state (network_receive_all sock sz) n = ((0, []), n)"
  by (auto simp: network_receive_all_def receive_loop.simps fun_eq_iff)

section \<open>Connecting and listening\<close>

text \<open>
  The calls \<open>network_connect_timeout\<close> and \<open>network_listen\<close> make are recorded in order; what the
  calls answer is input. The answers of \<open>fcntl\<close> come in pairs (\<open>F_GETFL\<close>, \<open>F_SETFL\<close>), one pair for
  each call of \<open>network_set_blocking\<close>.
\<close>

datatype sock_type = SOCK_STREAM | SOCK_DGRAM

record sock_answers =
  a_resolved :: bool
  a_socket :: int
  a_fcntl_off :: "int \<times> int"
  a_connect :: int
  a_inprogress :: bool
  a_select :: int
  a_getsockopt :: int
  a_so_error :: int
  a_fcntl_on :: "int \<times> int"
  a_bind :: int

datatype sock_op =
    Op_Socket int sock_type
  | Op_Nodelay int
  | Op_Setfl int int
  | Op_Connect int int
  | Op_Select int int int
  | Op_Bind int int
  | Op_Close int
  | Op_Ignore_Sigpipe

definition O_NONBLOCK :: int where "O_NONBLOCK = 0x800"

definition network_set_blocking :: "int \<times> int \<Rightarrow> int \<Rightarrow> bool \<Rightarrow> int \<times> sock_op list" where
  "network_set_blocking ans sock blocking =
     (let flags = fst ans in
      if flags < 0 then (-1, [])
      else (snd ans, [Op_Setfl sock (if blocking then flags AND NOT O_NONBLOCK else flags OR O_NONBLOCK)]))"

definition network_connect_timeout ::
  "sock_answers \<Rightarrow> int \<Rightarrow> sock_type \<Rightarrow> int \<Rightarrow> int \<times> sock_op list" where
  "network_connect_timeout ans port ty timeout_ms =
     (if \<not> a_resolved ans then (-1, [])
      else let sock = a_socket ans in
      if sock < 0 then (-1, [])
      else let ops = Op_Socket sock ty # (if ty = SOCK_STREAM then [Op_Nodelay sock] else []) in
      if timeout_ms < 0 then
        (if a_connect ans < 0 then (-2, ops @ [Op_Connect sock port, Op_Close sock])
         else (sock, ops @ [Op_Connect sock port]))
      else let (r, ops1) = network_set_blocking (a_fcntl_off ans) sock False in
      if r < 0 then (-1, ops @ ops1 @ [Op_Close sock])
      else let ops2 = ops @ ops1 @ [Op_Connect sock port];
               sel = Op_Select sock (timeout_ms div 1000) ((timeout_ms mod 1000) * 1000) in
      if a_connect ans < 0 \<and> \<not> a_inprogress ans then (-2, ops2 @ [Op_Close sock])
      else if a_connect ans < 0 \<and> a_select ans \<le> 0 then (-2, ops2 @ [sel, Op_Close sock])
      else if a_connect ans < 0 \<and> (a_getsockopt ans < 0 \<or> a_so_error ans \<noteq> 0)
        then (-2, ops2 @ [sel, Op_Close sock])
      else let ops3 = ops2 @ (if a_connect ans < 0 then [sel] else []);
               (r, ops4) = network_set_blocking (a_fcntl_on ans) sock True in
      if r < 0 then (-1, ops3 @ ops4 @ [Op_Close sock])
      else (sock, ops3 @ ops4))"

definition network_connect :: "sock_answers \<Rightarrow> int \<Rightarrow> sock_type \<Rightarrow> int \<times> sock_op list" where
  "network_connect ans port ty = network_connect_timeout ans port ty (-1)"

definition network_listen :: "sock_answers \<Rightarrow> int \<Rightarrow> sock_type \<Rightarrow> int \<times> sock_op list" where
  "network_listen ans port ty =
     (let sock = a_socket ans in
      if sock < 0 then (-1, [])
      else if a_bind ans < 0 then (-2, [Op_Socket sock ty, Op_Bind sock port, Op_Close sock])
      else (sock, [Op_Socket sock ty, Op_Bind sock port]))"

text \<open>
  Outside of Windows \<open>network_startup\<close> makes writes to a closed connection return an error instead of
  ending the program. \<open>select\<close> is a parameter of \<open>network_wait\<close>: the number of descriptors, those to read
  from, and the timeout in seconds and microseconds if there is one. The answer of \<open>close\<close> is one of
  \<open>network_disconnect\<close>.
\<close>

definition network_startup :: "int \<times> sock_op list" where
  "network_startup = (0, [Op_Ignore_Sigpipe])"

definition network_wait :: "(int \<Rightarrow> int set \<Rightarrow> (int \<times> int) option \<Rightarrow> int) \<Rightarrow> int \<Rightarrow> int \<Rightarrow> int" where
  "network_wait select sock timeout =
     (if timeout < 0 then select (sock + 1) {sock} None else select (sock + 1) {sock} (Some (timeout, 0)))"

definition network_disconnect :: "int \<Rightarrow> int \<Rightarrow> int \<times> sock_op list" where
  "network_disconnect close_answer sock = (if close_answer < 0 then -1 else 0, [Op_Close sock])"

text \<open>The descriptors a sequence of calls leaves open, and the status flags it leaves on one.\<close>

fun open_socks :: "int set \<Rightarrow> sock_op list \<Rightarrow> int set" where
  "open_socks S [] = S"
| "open_socks S (Op_Socket s _ # ops) = open_socks (insert s S) ops"
| "open_socks S (Op_Close s # ops) = open_socks (S - {s}) ops"
| "open_socks S (_ # ops) = open_socks S ops"

fun sock_flags :: "int \<Rightarrow> sock_op list \<Rightarrow> int" where
  "sock_flags f [] = f"
| "sock_flags f (Op_Setfl _ g # ops) = sock_flags g ops"
| "sock_flags f (_ # ops) = sock_flags f ops"

lemma open_socks_append [simp]: "open_socks S (xs @ ys) = open_socks (open_socks S xs) ys"
  by (induction S xs rule: open_socks.induct) auto

lemma sock_flags_append [simp]: "sock_flags f (xs @ ys) = sock_flags (sock_flags f xs) ys"
  by (induction f xs rule: sock_flags.induct) auto

lemma open_socks_set_blocking [simp]:
  "network_set_blocking a s b = (r, ops) \<Longrightarrow> open_socks S ops = S"
  by (auto simp: network_set_blocking_def Let_def split: if_splits)

lemma set_blocking_on:
  "network_set_blocking a s True = (r, ops) \<Longrightarrow> 0 \<le> r \<Longrightarrow> sock_flags f ops AND O_NONBLOCK = 0"
  by (auto simp: network_set_blocking_def Let_def and.assoc split: if_splits)

text \<open>What is open after the calls, whatever was open before them.\<close>

lemma network_connect_timeout_open:
  assumes "network_connect_timeout ans port ty t = (r, ops)" and "a_socket ans \<notin> S"
  shows "open_socks S ops = (if 0 \<le> r then insert r S else S)"
proof -
  obtain r1 ops1 where off: "network_set_blocking (a_fcntl_off ans) (a_socket ans) False = (r1, ops1)"
    by force
  obtain r2 ops2 where on: "network_set_blocking (a_fcntl_on ans) (a_socket ans) True = (r2, ops2)"
    by force
  have "open_socks U ops1 = U" "open_socks U ops2 = U" for U
    using on off by (auto intro: open_socks_set_blocking)
  with assms on off show ?thesis
    by (auto simp: network_connect_timeout_def Let_def split: if_splits)
qed

lemma network_connect_timeout_result:
  "network_connect_timeout ans port ty t = (r, ops) \<Longrightarrow> 0 \<le> r \<Longrightarrow> r = a_socket ans"
  by (auto simp: network_connect_timeout_def Let_def split: if_splits prod.splits)

lemma network_listen_open:
  "network_listen ans port ty = (r, ops) \<Longrightarrow> a_socket ans \<notin> S \<Longrightarrow>
     open_socks S ops = (if 0 \<le> r then insert r S else S) \<and> (0 \<le> r \<longrightarrow> r = a_socket ans)"
  by (auto simp: network_listen_def Let_def split: if_splits)

section \<open>Properties\<close>

text \<open>(C8) \<open>network_receive_all\<close> is independent of how the data comes in. When the connection
  delivers at least the requested number of bytes, before it ends or fails, the call returns that
  number with exactly the first bytes of the stream and leaves the rest; otherwise it returns \<open>-1\<close>.
  Interrupted calls and the sizes of the pieces make no difference, and nothing but the receiving
  side of this connection changes.\<close>

theorem network_receive_all_spec:
  "case run_state (network_receive_all sock (int k)) n of ((r, got), n') \<Rightarrow>
     n' = n(sock := (n sock)\<lparr>rx := rx (n' sock)\<rparr>) \<and>
     (if k \<le> length (net_inbox n sock)
      then r = int k \<and> got = take k (net_inbox n sock) \<and> net_inbox n' sock = drop k (net_inbox n sock)
      else r = -1 \<and> got = net_inbox n sock)"
  using receive_loop_enough [of "[]" k "rx (n sock)"] receive_loop_short [of "[]" "rx (n sock)" k]
  by (auto simp: network_receive_all_def net_inbox_def Let_def split: prod.splits)

text \<open>(C9) \<open>network_send\<close> sends the whole buffer and returns its size, or returns \<open>-1\<close> after a
  proper prefix of it; it never skips, repeats or reorders bytes, and it succeeds whenever every
  call of \<open>send\<close> takes something, however little, or is merely interrupted.\<close>

theorem network_send_spec:
  assumes "run_state (network_send sock bs (int (length bs))) n = (r, n')"
  shows "(\<exists>p. net_outbox n' = (net_outbox n)(sock := net_outbox n sock @ p) \<and> net_inbox n' = net_inbox n
      \<and> (r = int (length bs) \<and> p = bs \<or> r = -1 \<and> strict_prefix p bs))
    \<and> (net_writable n sock \<longrightarrow> r = int (length bs) \<and> net_writable n' = net_writable n)"
  using network_send_prefix [of sock bs n] network_send_writable [of n sock bs] assms by auto

theorem network_send_spec_witness:
  "fst (run_state (network_send 3 [1, 2, 3, 4, 5] 5)
     (\<lambda>_. \<lparr>rx = [], tx = [], tx_plan = [Tx_Accept 2, Tx_Eintr, Tx_Accept 1]\<rparr>)) = 5"
proof -
  let ?n = "\<lambda>_::int. \<lparr>rx = [], tx = [], tx_plan = [Tx_Accept 2, Tx_Eintr, Tx_Accept 1]\<rparr>"
  obtain r n' where run: "run_state (network_send 3 [1, 2, 3, 4, 5] (int (length [1, 2, 3, 4, 5 :: byte]))) ?n
      = (r, n')"
    by force
  from network_send_spec [OF run] have "r = 5" by (simp add: net_writable_def)
  with run show ?thesis by simp
qed

text \<open>
  When a connection is attempted, when \<open>network_connect_timeout\<close> has to wait for it, and when it is made, in
  terms of what the system answers.
\<close>

definition attempts :: "sock_answers \<Rightarrow> int \<Rightarrow> bool" where
  "attempts ans t \<longleftrightarrow> a_resolved ans \<and> 0 \<le> a_socket ans
     \<and> (t < 0 \<or> 0 \<le> fst (a_fcntl_off ans) \<and> 0 \<le> snd (a_fcntl_off ans))"

definition waits :: "sock_answers \<Rightarrow> int \<Rightarrow> bool" where
  "waits ans t \<longleftrightarrow> attempts ans t \<and> 0 \<le> t \<and> a_connect ans < 0 \<and> a_inprogress ans"

definition connects :: "sock_answers \<Rightarrow> int \<Rightarrow> bool" where
  "connects ans t \<longleftrightarrow> attempts ans t
     \<and> (0 \<le> a_connect ans \<or> waits ans t \<and> 0 < a_select ans \<and> 0 \<le> a_getsockopt ans \<and> a_so_error ans = 0)
     \<and> (t < 0 \<or> 0 \<le> fst (a_fcntl_on ans) \<and> 0 \<le> snd (a_fcntl_on ans))"

fun connecting :: "sock_op \<Rightarrow> bool" where
  "connecting (Op_Connect _ _) = True"
| "connecting (Op_Select _ _ _) = True"
| "connecting _ = False"

text \<open>(C37) \<open>network_connect_timeout\<close>, whatever the system calls answer. A result that is not negative is
  the one socket it opened, still open and back in blocking mode, and a negative result leaves nothing
  open. The result is a socket exactly when the connection was made: at once, or by the end of the wait
  with no error pending. It calls \<open>connect\<close> once, and then waits in \<open>select\<close> exactly when the connection is
  in progress and there is a timeout, once, and for that many milliseconds.\<close>

theorem network_connect_timeout_spec:
  "case network_connect_timeout ans port ty timeout_ms of (r, ops) \<Rightarrow>
     (if 0 \<le> r then r = a_socket ans \<and> open_socks {} ops = {r}
        \<and> (timeout_ms < 0 \<or> sock_flags f ops AND O_NONBLOCK = 0)
      else (r = -1 \<or> r = -2) \<and> open_socks {} ops = {})
     \<and> (0 \<le> r) = connects ans timeout_ms
     \<and> (\<exists>sec usec. filter connecting ops =
          (if attempts ans timeout_ms then [Op_Connect (a_socket ans) port] else [])
          @ (if waits ans timeout_ms then [Op_Select (a_socket ans) sec usec] else [])
          \<and> 0 \<le> usec \<and> usec < 1000000 \<and> sec * 1000 + usec div 1000 = timeout_ms)"
proof -
  obtain r1 ops1 where off: "network_set_blocking (a_fcntl_off ans) (a_socket ans) False = (r1, ops1)"
    by force
  obtain r2 ops2 where on: "network_set_blocking (a_fcntl_on ans) (a_socket ans) True = (r2, ops2)"
    by force
  have ok: "0 \<le> r1 \<longleftrightarrow> 0 \<le> fst (a_fcntl_off ans) \<and> 0 \<le> snd (a_fcntl_off ans)"
    "0 \<le> r2 \<longleftrightarrow> 0 \<le> fst (a_fcntl_on ans) \<and> 0 \<le> snd (a_fcntl_on ans)"
    "filter connecting ops1 = []" "filter connecting ops2 = []"
    using on off by (auto simp: network_set_blocking_def Let_def split: if_splits)
  have fl: "open_socks S ops1 = S" "open_socks S ops2 = S"
    "0 \<le> r2 \<Longrightarrow> sock_flags g ops2 AND O_NONBLOCK = 0" for S g
    using on off set_blocking_on by (fastforce intro: open_socks_set_blocking)+
  note spec = attempts_def [of ans, folded ok(1)] waits_def [of ans] connects_def [of ans, folded ok(2)]
  note defs = network_connect_timeout_def off on Let_def
  let ?p = "network_connect_timeout ans port ty timeout_ms"
  let ?sec = "timeout_ms div 1000" and ?usec = "(timeout_ms mod 1000) * 1000"
  have made: "(0 \<le> fst ?p) = connects ans timeout_ms"
    unfolding spec by (simp add: defs)
  have calls: "filter connecting (snd ?p) = (if attempts ans timeout_ms then [Op_Connect (a_socket ans) port] else [])
      @ (if waits ans timeout_ms then [Op_Select (a_socket ans) ?sec ?usec] else [])"
    unfolding spec using ok(3,4) by (simp add: defs)
  have socks: "case ?p of (r, ops) \<Rightarrow> if 0 \<le> r then r = a_socket ans \<and> open_socks {} ops = {r}
        \<and> (timeout_ms < 0 \<or> sock_flags f ops AND O_NONBLOCK = 0)
      else (r = -1 \<or> r = -2) \<and> open_socks {} ops = {}"
    using fl by (simp add: defs)
  have ms: "0 \<le> ?usec \<and> ?usec < 1000000 \<and> ?sec * 1000 + ?usec div 1000 = timeout_ms" by simp
  from calls ms have "\<exists>sec usec. filter connecting (snd ?p) =
      (if attempts ans timeout_ms then [Op_Connect (a_socket ans) port] else [])
      @ (if waits ans timeout_ms then [Op_Select (a_socket ans) sec usec] else [])
      \<and> 0 \<le> usec \<and> usec < 1000000 \<and> sec * 1000 + usec div 1000 = timeout_ms" by blast
  with socks made show ?thesis unfolding case_prod_beta by (intro conjI)
qed

end
