(* ===== verification/Packet.thy ===== *)
theory Packet
  imports Network CString
begin

text \<open>
  The packed structures of \<^verbatim>\<open>src/ps2link.c\<close> and \<^verbatim>\<open>src/ps2netfs.c\<close>. Every packet is
  \<open>struct { unsigned int number; unsigned short length; ... } PACKED\<close>; its memory image is the list of
  its bytes. A structure lives on the stack and is not cleared: a character array that is not filled
  to its end keeps what the stack held there, which is the parameter \<open>junk\<close> of the functions below.
\<close>

text \<open>A 32 or 16 bit field that is assigned through \<open>htonl\<close> or \<open>htons\<close>.\<close>

definition be32 :: "u32 \<Rightarrow> byte list" where
  "be32 w = store32 (htonl w)"

definition be16 :: "u16 \<Rightarrow> byte list" where
  "be16 w = store16 (htons w)"

definition packet :: "u32 \<Rightarrow> byte list \<Rightarrow> byte list" where
  "packet number body = be32 number @ be16 (of_nat (6 + length body)) @ body"

text \<open>\<open>if (s) { snprintf (field, 256, "%s", s); }\<close> on a \<open>char\<close> array of 256 bytes.\<close>

definition string_field :: "byte list \<Rightarrow> byte list option \<Rightarrow> byte list" where
  "string_field junk p = (case p of None \<Rightarrow> junk | Some s \<Rightarrow> snprintf_s 256 s junk)"

section \<open>Reading fields\<close>

text \<open>The fields of a packet at their offsets, read through \<open>ntohl\<close> and \<open>ntohs\<close>.\<close>

definition pkt_number :: "byte list \<Rightarrow> u32" where
  "pkt_number p = ntohl (load32 p)"

definition pkt_length :: "byte list \<Rightarrow> u16" where
  "pkt_length p = ntohs (load16 (drop 4 p))"

definition pkt_word :: "byte list \<Rightarrow> nat \<Rightarrow> u32" where
  "pkt_word p off = ntohl (load32 (drop off p))"

definition pkt_half :: "byte list \<Rightarrow> nat \<Rightarrow> u16" where
  "pkt_half p off = ntohs (load16 (drop off p))"

definition pkt_string :: "byte list \<Rightarrow> nat \<Rightarrow> byte list" where
  "pkt_string p off = cstr (take 256 (drop off p))"

lemmas pkt_defs = pkt_number_def pkt_length_def pkt_word_def pkt_half_def pkt_string_def

lemma length_be [simp]: "length (be32 w) = 4" "length (be16 h) = 2"
  by (simp_all add: be32_def be16_def)

lemma length_packet [simp]: "length (packet number body) = 6 + length body"
  by (simp add: packet_def)

lemma load32_be32 [simp]: "load32 (be32 w @ r) = htonl w" "load32 (be32 w) = htonl w"
  by (simp_all add: be32_def)

lemma load16_be16 [simp]: "load16 (be16 w @ r) = htons w" "load16 (be16 w) = htons w"
  by (simp_all add: be16_def)

lemma pkt_number_packet [simp, wire]: "pkt_number (packet number body) = number"
  by (simp add: pkt_number_def packet_def)

lemma pkt_length_packet: "pkt_length (packet number body) = of_nat (6 + length body)"
  by (simp add: pkt_length_def packet_def)

lemma unat_pkt_length_packet [simp, wire]:
  "length body < 65530 \<Longrightarrow> unat (pkt_length (packet number body)) = 6 + length body"
  unfolding pkt_length_packet by (subst unat_of_nat) simp

lemma drop_packet [simp, wire]: "6 \<le> off \<Longrightarrow> drop off (packet number body) = drop (off - 6) body"
  by (simp add: packet_def)

text \<open>What stands in a packet does not depend on what comes after it.\<close>

lemma load32_append: "4 \<le> length bs \<Longrightarrow> load32 (bs @ r) = load32 bs"
  using load32_take [of 4 "bs @ r"] load32_take [of 4 bs] by simp

lemma pkt_number_append: "6 \<le> length bs \<Longrightarrow> pkt_number (bs @ r) = pkt_number bs"
  by (simp add: pkt_number_def load32_append)

lemma load16_append: "2 \<le> length bs \<Longrightarrow> load16 (bs @ r) = load16 bs"
  by (auto simp: load16_def split: list.splits)

lemma pkt_length_append: "6 \<le> length bs \<Longrightarrow> pkt_length (bs @ r) = pkt_length bs"
  by (simp add: pkt_length_def load16_append)

lemma pkt_word_append: "off + 4 \<le> length bs \<Longrightarrow> pkt_word (bs @ r) off = pkt_word bs off"
  by (simp add: pkt_word_def load32_append)

lemma length_string_field [simp]: "length junk = 256 \<Longrightarrow> length (string_field junk p) = 256"
  by (simp add: string_field_def split: option.split)

lemma string_field_Some [simp]:
  "0 \<notin> set s \<Longrightarrow> cstr (string_field junk (Some s)) = take 255 s"
  by (simp add: string_field_def)

lemma string_field_Some_take [simp]:
  "0 \<notin> set s \<Longrightarrow> length junk = 256 \<Longrightarrow> cstr (take 256 (string_field junk (Some s) @ r)) = take 255 s"
  by simp

end
