(* ===== verification/Link_Command.thy ===== *)
theory Link_Command
  imports Packet Utility
begin

text \<open>
  The commands of \<^verbatim>\<open>src/ps2link.c\<close> (lines 257 to 434): datagrams to the command port of ps2link. The
  global \<open>command_socket\<close> is the parameter \<open>sock\<close>, the stack contents under a character array the
  parameter \<open>junk\<close>.
\<close>

definition PS2LINK_COMMAND_RESET :: u32 where "PS2LINK_COMMAND_RESET = 0xBABE0201"
definition PS2LINK_COMMAND_EXECIOP :: u32 where "PS2LINK_COMMAND_EXECIOP = 0xBABE0202"
definition PS2LINK_COMMAND_EXECEE :: u32 where "PS2LINK_COMMAND_EXECEE = 0xBABE0203"
definition PS2LINK_COMMAND_POWEROFF :: u32 where "PS2LINK_COMMAND_POWEROFF = 0xBABE0204"
definition PS2LINK_COMMAND_SCRDUMP :: u32 where "PS2LINK_COMMAND_SCRDUMP = 0xBABE0205"
definition PS2LINK_COMMAND_NETDUMP :: u32 where "PS2LINK_COMMAND_NETDUMP = 0xBABE0206"
definition PS2LINK_COMMAND_DUMPMEM :: u32 where "PS2LINK_COMMAND_DUMPMEM = 0xBABE0207"
definition PS2LINK_COMMAND_STARTVU :: u32 where "PS2LINK_COMMAND_STARTVU = 0xBABE0208"
definition PS2LINK_COMMAND_STOPVU :: u32 where "PS2LINK_COMMAND_STOPVU = 0xBABE0209"
definition PS2LINK_COMMAND_DUMPREG :: u32 where "PS2LINK_COMMAND_DUMPREG = 0xBABE020A"
definition PS2LINK_COMMAND_GSEXEC :: u32 where "PS2LINK_COMMAND_GSEXEC = 0xBABE020B"
definition PS2LINK_COMMAND_WRITEMEM :: u32 where "PS2LINK_COMMAND_WRITEMEM = 0xBABE020C"
definition PS2LINK_COMMAND_IOPEXCEP :: u32 where "PS2LINK_COMMAND_IOPEXCEP = 0xBABE020D"

lemmas command_numbers = PS2LINK_COMMAND_RESET_def PS2LINK_COMMAND_EXECIOP_def
  PS2LINK_COMMAND_EXECEE_def PS2LINK_COMMAND_POWEROFF_def PS2LINK_COMMAND_SCRDUMP_def
  PS2LINK_COMMAND_NETDUMP_def PS2LINK_COMMAND_DUMPMEM_def PS2LINK_COMMAND_STARTVU_def
  PS2LINK_COMMAND_STOPVU_def PS2LINK_COMMAND_DUMPREG_def PS2LINK_COMMAND_GSEXEC_def
  PS2LINK_COMMAND_WRITEMEM_def PS2LINK_COMMAND_IOPEXCEP_def

text \<open>\<open>network_send (socket, &command, sizeof (command))\<close>.\<close>

definition send_packet :: "int \<Rightarrow> byte list \<Rightarrow> (net, int) state" where
  "send_packet sock pkt = network_send sock pkt (int (length pkt))"

definition ps2link_command_reset :: "int \<Rightarrow> (net, int) state" where
  "ps2link_command_reset sock = send_packet sock (packet PS2LINK_COMMAND_RESET [])"

definition ps2link_command_execiop :: "int \<Rightarrow> int \<Rightarrow> byte list list \<Rightarrow> (net, int) state" where
  "ps2link_command_execiop sock argc argv =
     (case fix_argv 256 argv of None \<Rightarrow> ret (-1)
      | Some area \<Rightarrow> send_packet sock (packet PS2LINK_COMMAND_EXECIOP (be32 (word_of_int argc) @ area)))"

definition ps2link_command_execee :: "int \<Rightarrow> int \<Rightarrow> byte list list \<Rightarrow> (net, int) state" where
  "ps2link_command_execee sock argc argv =
     (case fix_argv 256 argv of None \<Rightarrow> ret (-1)
      | Some area \<Rightarrow> send_packet sock (packet PS2LINK_COMMAND_EXECEE (be32 (word_of_int argc) @ area)))"

definition ps2link_command_poweroff :: "int \<Rightarrow> (net, int) state" where
  "ps2link_command_poweroff sock = send_packet sock (packet PS2LINK_COMMAND_POWEROFF [])"

definition ps2link_command_scrdump :: "int \<Rightarrow> (net, int) state" where
  "ps2link_command_scrdump sock = send_packet sock (packet PS2LINK_COMMAND_SCRDUMP [])"

definition ps2link_command_netdump :: "int \<Rightarrow> (net, int) state" where
  "ps2link_command_netdump sock = send_packet sock (packet PS2LINK_COMMAND_NETDUMP [])"

definition ps2link_command_dumpmem ::
  "int \<Rightarrow> byte list \<Rightarrow> u32 \<Rightarrow> u32 \<Rightarrow> byte list option \<Rightarrow> (net, int) state" where
  "ps2link_command_dumpmem sock junk offset sz pathname =
     send_packet sock (packet PS2LINK_COMMAND_DUMPMEM
       (be32 offset @ be32 sz @ string_field junk pathname))"

definition ps2link_command_startvu :: "int \<Rightarrow> u32 \<Rightarrow> (net, int) state" where
  "ps2link_command_startvu sock vu = send_packet sock (packet PS2LINK_COMMAND_STARTVU (be32 vu))"

definition ps2link_command_stopvu :: "int \<Rightarrow> u32 \<Rightarrow> (net, int) state" where
  "ps2link_command_stopvu sock vu = send_packet sock (packet PS2LINK_COMMAND_STOPVU (be32 vu))"

definition ps2link_command_dumpreg ::
  "int \<Rightarrow> byte list \<Rightarrow> u32 \<Rightarrow> byte list option \<Rightarrow> (net, int) state" where
  "ps2link_command_dumpreg sock junk ty pathname =
     send_packet sock (packet PS2LINK_COMMAND_DUMPREG (be32 ty @ string_field junk pathname))"

definition ps2link_command_gsexec ::
  "int \<Rightarrow> byte list \<Rightarrow> u16 \<Rightarrow> byte list option \<Rightarrow> (net, int) state" where
  "ps2link_command_gsexec sock junk sz pathname =
     send_packet sock (packet PS2LINK_COMMAND_GSEXEC (be16 sz @ string_field junk pathname))"

definition ps2link_command_writemem ::
  "int \<Rightarrow> byte list \<Rightarrow> u32 \<Rightarrow> u32 \<Rightarrow> byte list option \<Rightarrow> (net, int) state" where
  "ps2link_command_writemem sock junk offset sz pathname =
     send_packet sock (packet PS2LINK_COMMAND_WRITEMEM
       (be32 offset @ be32 sz @ string_field junk pathname))"

definition ps2link_command_iopexcep :: "int \<Rightarrow> (net, int) state" where
  "ps2link_command_iopexcep sock = send_packet sock (packet PS2LINK_COMMAND_IOPEXCEP [])"

lemmas command_defs = ps2link_command_reset_def ps2link_command_execiop_def
  ps2link_command_execee_def ps2link_command_poweroff_def ps2link_command_scrdump_def
  ps2link_command_netdump_def ps2link_command_dumpmem_def ps2link_command_startvu_def
  ps2link_command_stopvu_def ps2link_command_dumpreg_def ps2link_command_gsexec_def
  ps2link_command_writemem_def ps2link_command_iopexcep_def

section \<open>Commands as values\<close>

text \<open>
  The commands with their arguments, the call of each in the final \<open>switch\<close> of \<open>main\<close>
  (\<^verbatim>\<open>src/ps2client.c\<close>); the size of \<open>gsexec\<close> is converted to \<open>unsigned short\<close> by the call.
\<close>

datatype link_command =
    Reset
  | Execiop "byte list list"
  | Execee "byte list list"
  | Poweroff
  | Scrdump
  | Netdump
  | Dumpmem u32 u32 "byte list"
  | Startvu u32
  | Stopvu u32
  | Dumpreg u32 "byte list"
  | Gsexec u32 "byte list"
  | Writemem u32 u32 "byte list"
  | Iopexcep

primrec perform_command :: "int \<Rightarrow> byte list \<Rightarrow> link_command \<Rightarrow> (net, int) state" where
  "perform_command sock junk Reset = ps2link_command_reset sock"
| "perform_command sock junk (Execiop argv) = ps2link_command_execiop sock (int (length argv)) argv"
| "perform_command sock junk (Execee argv) = ps2link_command_execee sock (int (length argv)) argv"
| "perform_command sock junk Poweroff = ps2link_command_poweroff sock"
| "perform_command sock junk Scrdump = ps2link_command_scrdump sock"
| "perform_command sock junk Netdump = ps2link_command_netdump sock"
| "perform_command sock junk (Dumpmem off sz path) = ps2link_command_dumpmem sock junk off sz (Some path)"
| "perform_command sock junk (Startvu vu) = ps2link_command_startvu sock vu"
| "perform_command sock junk (Stopvu vu) = ps2link_command_stopvu sock vu"
| "perform_command sock junk (Dumpreg ty path) = ps2link_command_dumpreg sock junk ty (Some path)"
| "perform_command sock junk (Gsexec sz path) = ps2link_command_gsexec sock junk (ucast sz) (Some path)"
| "perform_command sock junk (Writemem off sz path) = ps2link_command_writemem sock junk off sz (Some path)"
| "perform_command sock junk Iopexcep = ps2link_command_iopexcep sock"

text \<open>
  The reading of a datagram as the protocol describes it: the number, the length, and the fields at the
  offsets of the structures of \<^verbatim>\<open>doc/ps2link-protocol.txt\<close>. For the four commands that document does not
  have (\<open>scrdump\<close>, \<open>netdump\<close>, \<open>writemem\<close>, \<open>iopexcep\<close>) the structures are those of the code.
\<close>

definition decode_command :: "byte list \<Rightarrow> link_command option" where
  "decode_command p =
     (let sized = (\<lambda>n cmd. if length p = n then Some cmd else None) in
      if length p < 6 \<or> unat (pkt_length p) \<noteq> length p then None
      else if pkt_number p = 0xBABE0201 then sized 6 Reset
      else if pkt_number p = 0xBABE0202 then sized 266 (Execiop (unpack_argv (unat (pkt_word p 6)) (drop 10 p)))
      else if pkt_number p = 0xBABE0203 then sized 266 (Execee (unpack_argv (unat (pkt_word p 6)) (drop 10 p)))
      else if pkt_number p = 0xBABE0204 then sized 6 Poweroff
      else if pkt_number p = 0xBABE0205 then sized 6 Scrdump
      else if pkt_number p = 0xBABE0206 then sized 6 Netdump
      else if pkt_number p = 0xBABE0207 then sized 270 (Dumpmem (pkt_word p 6) (pkt_word p 10) (pkt_string p 14))
      else if pkt_number p = 0xBABE0208 then sized 10 (Startvu (pkt_word p 6))
      else if pkt_number p = 0xBABE0209 then sized 10 (Stopvu (pkt_word p 6))
      else if pkt_number p = 0xBABE020A then sized 266 (Dumpreg (pkt_word p 6) (pkt_string p 10))
      else if pkt_number p = 0xBABE020B then sized 266 (Gsexec (pkt_word p 6) (pkt_string p 10))
      else if pkt_number p = 0xBABE020C then sized 270 (Writemem (pkt_word p 6) (pkt_word p 10) (pkt_string p 14))
      else if pkt_number p = 0xBABE020D then sized 6 Iopexcep
      else None)"

text \<open>
  What a datagram says of the command it was sent for. Every command but \<open>gsexec\<close> is read back by the
  protocol. The datagram of \<open>gsexec\<close> is not one of the protocol: it has the low 16 bits of the size in two
  bytes where the protocol has four for it, and the name after them.
\<close>

definition carries :: "byte list \<Rightarrow> link_command \<Rightarrow> bool" where
  "carries p cmd = (case cmd of
     Gsexec sz path \<Rightarrow> decode_command p = None \<and> length p = 264 \<and> pkt_number p = 0xBABE020B
       \<and> pkt_half p 6 = ucast sz \<and> pkt_string p 8 = path
   | _ \<Rightarrow> decode_command p = Some cmd)"

text \<open>What the structures can carry: names of at most 255 bytes and arguments that fit in 256.\<close>

fun fits :: "link_command \<Rightarrow> bool" where
  "fits (Execiop argv) = ((\<forall>a \<in> set argv. 0 \<notin> set a) \<and> sum_list (map (\<lambda>a. length a + 1) argv) \<le> 256)"
| "fits (Execee argv) = ((\<forall>a \<in> set argv. 0 \<notin> set a) \<and> sum_list (map (\<lambda>a. length a + 1) argv) \<le> 256)"
| "fits (Dumpmem _ _ path) = (0 \<notin> set path \<and> length path \<le> 255)"
| "fits (Dumpreg _ path) = (0 \<notin> set path \<and> length path \<le> 255)"
| "fits (Gsexec _ path) = (0 \<notin> set path \<and> length path \<le> 255)"
| "fits (Writemem _ _ path) = (0 \<notin> set path \<and> length path \<le> 255)"
| "fits _ = True"

lemma send_packet_writable:
  "net_writable n sock \<Longrightarrow> \<exists>n'. run_state (send_packet sock pkt) n = (int (length pkt), n')
     \<and> net_outbox n' = (net_outbox n)(sock := net_outbox n sock @ pkt)
     \<and> net_inbox n' = net_inbox n \<and> net_writable n' = net_writable n"
  unfolding send_packet_def by (rule tcp.send_all)

lemma run_send_packet [simp]:
  "net_writable n sock \<Longrightarrow> run_state (send_packet sock pkt) n = (int (length pkt), after_send n sock pkt)"
  by (simp add: send_packet_def)

lemma fix_argv_fits:
  assumes "\<forall>a \<in> set argv. 0 \<notin> set a" and "sum_list (map (\<lambda>a. length a + 1) argv) \<le> 256"
  obtains area where "fix_argv 256 argv = Some area" "length area = 256"
    "unpack_argv (length argv) area = argv" "length argv \<le> 256"
proof -
  have "length argv \<le> sum_list (map (\<lambda>a. length a + 1) argv)"
    by (induction argv) auto
  moreover have "length (concat (map (\<lambda>a. a @ [0]) argv)) = sum_list (map (\<lambda>a. length a + 1) argv)"
    by (simp add: length_concat comp_def)
  ultimately show thesis
    using that assms unpack_argv_concat [OF assms(1)] by (simp add: fix_argv_eq)
qed

text \<open>The datagram of a command that fits: the packet \<open>perform_command\<close> sends.\<close>

lemma perform_command_packet:
  assumes "fits cmd" and "length junk = 256"
  obtains pkt where "perform_command sock junk cmd = send_packet sock pkt" and "carries pkt cmd"
proof (cases cmd)
  case (Execiop argv)
  with assms obtain area where "fix_argv 256 argv = Some area" "length area = 256"
    "unpack_argv (length argv) area = argv" "length argv \<le> 256"
    by (auto elim: fix_argv_fits)
  with Execiop that show thesis
    by (simp add: command_defs command_numbers carries_def decode_command_def pkt_word_def unat_of_nat)
next
  case (Execee argv)
  with assms obtain area where "fix_argv 256 argv = Some area" "length area = 256"
    "unpack_argv (length argv) area = argv" "length argv \<le> 256"
    by (auto elim: fix_argv_fits)
  with Execee that show thesis
    by (simp add: command_defs command_numbers carries_def decode_command_def pkt_word_def unat_of_nat)
qed (use that assms in \<open>simp_all add: command_defs command_numbers carries_def decode_command_def pkt_word_def
    pkt_half_def pkt_string_def\<close>)

text \<open>(C7) Commands survive the wire: whatever the stack held before, the datagram that goes out for a
  command whose arguments fit its structure has the length its header says and, read by the structures of
  the protocol document, is exactly that command with exactly those arguments. The one exception is
  \<open>gsexec\<close>: its datagram has a size of two bytes, which loses the upper 16 bits of the size, and the name
  right after it, so that by the document it is no packet at all.\<close>

theorem command_roundtrip:
  assumes "fits cmd" and "length junk = 256" and "net_writable n sock"
  shows "\<exists>pkt n'. run_state (perform_command sock junk cmd) n = (int (length pkt), n')
    \<and> net_outbox n' = (net_outbox n)(sock := net_outbox n sock @ pkt)
    \<and> (case cmd of Gsexec sz path \<Rightarrow> decode_command pkt = None \<and> length pkt = 264
           \<and> pkt_half pkt 6 = ucast sz \<and> pkt_string pkt 8 = path
         | _ \<Rightarrow> decode_command pkt = Some cmd)"
proof -
  obtain pkt where "perform_command sock junk cmd = send_packet sock pkt" and "carries pkt cmd"
    using perform_command_packet [OF assms(1,2)] .
  with send_packet_writable [OF assms(3), of pkt] show ?thesis
    by (auto simp: carries_def split: link_command.splits)
qed

theorem command_roundtrip_witness:
  "\<exists>pkt n'. run_state (perform_command 5 (replicate 256 0xAA) (Dumpmem 0x100000 64 (lit ''mem.bin'')))
       (\<lambda>_. \<lparr>rx = [], tx = [], tx_plan = []\<rparr>) = (int (length pkt), n')
     \<and> decode_command pkt = Some (Dumpmem 0x100000 64 (lit ''mem.bin''))"
proof -
  have "fits (Dumpmem 0x100000 64 (lit ''mem.bin''))" by (simp add: lit_def)
  moreover have "length (replicate 256 0xAA :: byte list) = 256" by simp
  moreover have "net_writable (\<lambda>_. \<lparr>rx = [], tx = [], tx_plan = []\<rparr>) 5" by (simp add: net_writable_def)
  ultimately show ?thesis by (fastforce dest: command_roundtrip)
qed

end
