(* ===== verification/Link_Request.thy ===== *)
theory Link_Request
  imports Posix Link_Command
begin

text \<open>
  The host file server of \<^verbatim>\<open>src/ps2link.c\<close>: the twelve request handlers (lines 436 to 804), the
  responses they send (lines 806 to 980) and the request thread (lines 1020 to 1070).

  The state \<open>server\<close> holds what the handlers work on: the connections, the host, the packet buffer of
  the thread (518 bytes that live across requests and that handlers change in place), the table
  \<open>ps2link_dd\<close> of open directories, \<open>ps2link_ping_fd\<close> and the flag \<open>ps2link_ping_answered\<close>. \<open>sv_fault\<close>
  records a read or write outside of an object, for which C defines no behaviour.
\<close>

record dd_entry =
  dd_pathname :: "byte list option"
  dd_dir :: "int option"

record 'f server =
  sv_net :: net
  sv_fs :: 'f
  sv_packet :: "byte list"
  sv_dd :: "dd_entry list"
  sv_ping_fd :: int
  sv_ping_answered :: bool
  sv_fault :: bool

text \<open>What the stack holds in the variables a handler does not initialise.\<close>

record stack =
  j_ctime :: "byte list"
  j_atime :: "byte list"
  j_mtime :: "byte list"
  j_name :: "byte list"
  j_stat :: stat_t

definition on_net :: "(net, 'a) state \<Rightarrow> ('f server, 'a) state" where
  "on_net m = State (\<lambda>s. case run_state m (sv_net s) of (a, n) \<Rightarrow> (a, s\<lparr>sv_net := n\<rparr>))"

definition on_fs :: "('f \<Rightarrow> 'a \<times> 'f) \<Rightarrow> ('f server, 'a) state" where
  "on_fs g = State (\<lambda>s. case g (sv_fs s) of (a, f) \<Rightarrow> (a, s\<lparr>sv_fs := f\<rparr>))"

definition fault :: "('f server, int) state" where
  "fault = State (\<lambda>s. (-1, s\<lparr>sv_fault := True\<rparr>))"

lemma run_on_net [runs]:
  "run_state m (sv_net s) = (a, n) \<Longrightarrow> run_state (on_net m) s = (a, s\<lparr>sv_net := n\<rparr>)"
  by (simp add: on_net_def)

lemma run_on_fs [runs]: "g (sv_fs s) = (a, f) \<Longrightarrow> run_state (on_fs g) s = (a, s\<lparr>sv_fs := f\<rparr>)"
  by (simp add: on_fs_def)

lemma run_fault [simp]: "run_state fault s = (-1, s\<lparr>sv_fault := True\<rparr>)"
  by (simp add: fault_def)

section \<open>Numbers\<close>

definition PS2LINK_REQUEST_OPEN :: u32 where "PS2LINK_REQUEST_OPEN = 0xBABE0111"
definition PS2LINK_REQUEST_CLOSE :: u32 where "PS2LINK_REQUEST_CLOSE = 0xBABE0121"
definition PS2LINK_REQUEST_READ :: u32 where "PS2LINK_REQUEST_READ = 0xBABE0131"
definition PS2LINK_REQUEST_WRITE :: u32 where "PS2LINK_REQUEST_WRITE = 0xBABE0141"
definition PS2LINK_REQUEST_LSEEK :: u32 where "PS2LINK_REQUEST_LSEEK = 0xBABE0151"
definition PS2LINK_REQUEST_OPENDIR :: u32 where "PS2LINK_REQUEST_OPENDIR = 0xBABE0161"
definition PS2LINK_REQUEST_CLOSEDIR :: u32 where "PS2LINK_REQUEST_CLOSEDIR = 0xBABE0171"
definition PS2LINK_REQUEST_READDIR :: u32 where "PS2LINK_REQUEST_READDIR = 0xBABE0181"
definition PS2LINK_REQUEST_REMOVE :: u32 where "PS2LINK_REQUEST_REMOVE = 0xBABE0191"
definition PS2LINK_REQUEST_MKDIR :: u32 where "PS2LINK_REQUEST_MKDIR = 0xBABE01A1"
definition PS2LINK_REQUEST_RMDIR :: u32 where "PS2LINK_REQUEST_RMDIR = 0xBABE01B1"
definition PS2LINK_REQUEST_GETSTAT :: u32 where "PS2LINK_REQUEST_GETSTAT = 0xBABE01C1"

definition PS2LINK_RESPONSE_OPEN :: u32 where "PS2LINK_RESPONSE_OPEN = 0xBABE0112"
definition PS2LINK_RESPONSE_CLOSE :: u32 where "PS2LINK_RESPONSE_CLOSE = 0xBABE0122"
definition PS2LINK_RESPONSE_READ :: u32 where "PS2LINK_RESPONSE_READ = 0xBABE0132"
definition PS2LINK_RESPONSE_WRITE :: u32 where "PS2LINK_RESPONSE_WRITE = 0xBABE0142"
definition PS2LINK_RESPONSE_LSEEK :: u32 where "PS2LINK_RESPONSE_LSEEK = 0xBABE0152"
definition PS2LINK_RESPONSE_OPENDIR :: u32 where "PS2LINK_RESPONSE_OPENDIR = 0xBABE0162"
definition PS2LINK_RESPONSE_CLOSEDIR :: u32 where "PS2LINK_RESPONSE_CLOSEDIR = 0xBABE0172"
definition PS2LINK_RESPONSE_READDIR :: u32 where "PS2LINK_RESPONSE_READDIR = 0xBABE0182"
definition PS2LINK_RESPONSE_REMOVE :: u32 where "PS2LINK_RESPONSE_REMOVE = 0xBABE0192"
definition PS2LINK_RESPONSE_MKDIR :: u32 where "PS2LINK_RESPONSE_MKDIR = 0xBABE01A2"
definition PS2LINK_RESPONSE_RMDIR :: u32 where "PS2LINK_RESPONSE_RMDIR = 0xBABE01B2"
definition PS2LINK_RESPONSE_GETSTAT :: u32 where "PS2LINK_RESPONSE_GETSTAT = 0xBABE01C2"

lemmas request_numbers = PS2LINK_REQUEST_OPEN_def PS2LINK_REQUEST_CLOSE_def
  PS2LINK_REQUEST_READ_def PS2LINK_REQUEST_WRITE_def PS2LINK_REQUEST_LSEEK_def
  PS2LINK_REQUEST_OPENDIR_def PS2LINK_REQUEST_CLOSEDIR_def PS2LINK_REQUEST_READDIR_def
  PS2LINK_REQUEST_REMOVE_def PS2LINK_REQUEST_MKDIR_def PS2LINK_REQUEST_RMDIR_def
  PS2LINK_REQUEST_GETSTAT_def

lemmas response_numbers = PS2LINK_RESPONSE_OPEN_def PS2LINK_RESPONSE_CLOSE_def
  PS2LINK_RESPONSE_READ_def PS2LINK_RESPONSE_WRITE_def PS2LINK_RESPONSE_LSEEK_def
  PS2LINK_RESPONSE_OPENDIR_def PS2LINK_RESPONSE_CLOSEDIR_def PS2LINK_RESPONSE_READDIR_def
  PS2LINK_RESPONSE_REMOVE_def PS2LINK_RESPONSE_MKDIR_def PS2LINK_RESPONSE_RMDIR_def
  PS2LINK_RESPONSE_GETSTAT_def

text \<open>A response has the number of its request plus one, and no two requests share a number.\<close>

lemma number_facts:
  "PS2LINK_RESPONSE_OPEN = PS2LINK_REQUEST_OPEN + 1" "PS2LINK_RESPONSE_CLOSE = PS2LINK_REQUEST_CLOSE + 1"
  "PS2LINK_RESPONSE_READ = PS2LINK_REQUEST_READ + 1" "PS2LINK_RESPONSE_WRITE = PS2LINK_REQUEST_WRITE + 1"
  "PS2LINK_RESPONSE_LSEEK = PS2LINK_REQUEST_LSEEK + 1"
  "PS2LINK_RESPONSE_OPENDIR = PS2LINK_REQUEST_OPENDIR + 1"
  "PS2LINK_RESPONSE_CLOSEDIR = PS2LINK_REQUEST_CLOSEDIR + 1"
  "PS2LINK_RESPONSE_READDIR = PS2LINK_REQUEST_READDIR + 1"
  "PS2LINK_RESPONSE_REMOVE = PS2LINK_REQUEST_REMOVE + 1"
  "PS2LINK_RESPONSE_MKDIR = PS2LINK_REQUEST_MKDIR + 1"
  "PS2LINK_RESPONSE_RMDIR = PS2LINK_REQUEST_RMDIR + 1"
  "PS2LINK_RESPONSE_GETSTAT = PS2LINK_REQUEST_GETSTAT + 1"
  "distinct [PS2LINK_REQUEST_OPEN, PS2LINK_REQUEST_CLOSE, PS2LINK_REQUEST_READ, PS2LINK_REQUEST_WRITE,
     PS2LINK_REQUEST_LSEEK, PS2LINK_REQUEST_OPENDIR, PS2LINK_REQUEST_CLOSEDIR, PS2LINK_REQUEST_READDIR,
     PS2LINK_REQUEST_REMOVE, PS2LINK_REQUEST_MKDIR, PS2LINK_REQUEST_RMDIR, PS2LINK_REQUEST_GETSTAT]"
  by (simp_all add: request_numbers response_numbers)

lemmas [simp] = number_facts(1-12) number_facts(13) [simplified]

lemma not_read [simp]:
  "PS2LINK_REQUEST_LSEEK \<noteq> PS2LINK_REQUEST_READ" "PS2LINK_REQUEST_OPENDIR \<noteq> PS2LINK_REQUEST_READ"
  "PS2LINK_REQUEST_CLOSEDIR \<noteq> PS2LINK_REQUEST_READ" "PS2LINK_REQUEST_READDIR \<noteq> PS2LINK_REQUEST_READ"
  "PS2LINK_REQUEST_REMOVE \<noteq> PS2LINK_REQUEST_READ" "PS2LINK_REQUEST_MKDIR \<noteq> PS2LINK_REQUEST_READ"
  "PS2LINK_REQUEST_RMDIR \<noteq> PS2LINK_REQUEST_READ" "PS2LINK_REQUEST_GETSTAT \<noteq> PS2LINK_REQUEST_READ"
  "PS2LINK_REQUEST_WRITE \<noteq> PS2LINK_REQUEST_READ"
  by (simp_all add: request_numbers)

section \<open>Responses\<close>

text \<open>The responses with one result: \<open>struct { number; length; int result; }\<close>.\<close>

definition response_result :: "u32 \<Rightarrow> int \<Rightarrow> byte list" where
  "response_result number result = packet number (be32 (word_of_int result))"

definition ps2link_response_open :: "int \<Rightarrow> int \<Rightarrow> (net, int) state" where
  "ps2link_response_open sock result = send_packet sock (response_result PS2LINK_RESPONSE_OPEN result)"

definition ps2link_response_close :: "int \<Rightarrow> int \<Rightarrow> (net, int) state" where
  "ps2link_response_close sock result = send_packet sock (response_result PS2LINK_RESPONSE_CLOSE result)"

definition ps2link_response_read :: "int \<Rightarrow> int \<Rightarrow> int \<Rightarrow> (net, int) state" where
  "ps2link_response_read sock result sz =
     send_packet sock (packet PS2LINK_RESPONSE_READ (be32 (word_of_int result) @ be32 (word_of_int sz)))"

definition ps2link_response_write :: "int \<Rightarrow> int \<Rightarrow> (net, int) state" where
  "ps2link_response_write sock result = send_packet sock (response_result PS2LINK_RESPONSE_WRITE result)"

definition ps2link_response_lseek :: "int \<Rightarrow> int \<Rightarrow> (net, int) state" where
  "ps2link_response_lseek sock result = send_packet sock (response_result PS2LINK_RESPONSE_LSEEK result)"

definition ps2link_response_opendir :: "int \<Rightarrow> int \<Rightarrow> (net, int) state" where
  "ps2link_response_opendir sock result = send_packet sock (response_result PS2LINK_RESPONSE_OPENDIR result)"

definition ps2link_response_closedir :: "int \<Rightarrow> int \<Rightarrow> (net, int) state" where
  "ps2link_response_closedir sock result = send_packet sock (response_result PS2LINK_RESPONSE_CLOSEDIR result)"

definition ps2link_response_remove :: "int \<Rightarrow> int \<Rightarrow> (net, int) state" where
  "ps2link_response_remove sock result = send_packet sock (response_result PS2LINK_RESPONSE_REMOVE result)"

definition ps2link_response_mkdir :: "int \<Rightarrow> int \<Rightarrow> (net, int) state" where
  "ps2link_response_mkdir sock result = send_packet sock (response_result PS2LINK_RESPONSE_MKDIR result)"

definition ps2link_response_rmdir :: "int \<Rightarrow> int \<Rightarrow> (net, int) state" where
  "ps2link_response_rmdir sock result = send_packet sock (response_result PS2LINK_RESPONSE_RMDIR result)"

text \<open>A time array of eight bytes that is copied unless its pointer is null.\<close>

definition time_field :: "byte list \<Rightarrow> byte list option \<Rightarrow> byte list" where
  "time_field junk t = (case t of None \<Rightarrow> junk | Some bs \<Rightarrow> bs)"

definition stat_fields ::
  "stack \<Rightarrow> int \<Rightarrow> u32 \<Rightarrow> u32 \<Rightarrow> u32 \<Rightarrow> byte list option \<Rightarrow> byte list option \<Rightarrow> byte list option \<Rightarrow> u32
    \<Rightarrow> byte list" where
  "stat_fields J result mode attr sz ct at mt hisize =
     be32 (word_of_int result) @ be32 mode @ be32 attr @ be32 sz
       @ time_field (j_ctime J) ct @ time_field (j_atime J) at @ time_field (j_mtime J) mt @ be32 hisize"

definition ps2link_response_readdir ::
  "int \<Rightarrow> stack \<Rightarrow> int \<Rightarrow> u32 \<Rightarrow> u32 \<Rightarrow> u32 \<Rightarrow> byte list option \<Rightarrow> byte list option \<Rightarrow> byte list option
    \<Rightarrow> u32 \<Rightarrow> byte list option \<Rightarrow> (net, int) state" where
  "ps2link_response_readdir sock J result mode attr sz ct at mt hisize name =
     send_packet sock (packet PS2LINK_RESPONSE_READDIR
       (stat_fields J result mode attr sz ct at mt hisize @ string_field (j_name J) name))"

definition ps2link_response_getstat ::
  "int \<Rightarrow> stack \<Rightarrow> int \<Rightarrow> u32 \<Rightarrow> u32 \<Rightarrow> u32 \<Rightarrow> byte list option \<Rightarrow> byte list option \<Rightarrow> byte list option
    \<Rightarrow> u32 \<Rightarrow> (net, int) state" where
  "ps2link_response_getstat sock J result mode attr sz ct at mt hisize =
     send_packet sock (packet PS2LINK_RESPONSE_GETSTAT (stat_fields J result mode attr sz ct at mt hisize))"

lemmas response_defs = ps2link_response_open_def ps2link_response_close_def ps2link_response_read_def
  ps2link_response_write_def ps2link_response_lseek_def ps2link_response_opendir_def
  ps2link_response_closedir_def ps2link_response_remove_def ps2link_response_mkdir_def
  ps2link_response_rmdir_def ps2link_response_readdir_def ps2link_response_getstat_def

section \<open>Request handlers\<close>

text \<open>
  The name field of a request starts at offset \<open>off\<close> of the packet buffer. \<open>fix_pathname\<close> rewrites it
  in place; it may run on over the rest of the buffer, and past the buffer is outside of the object.
\<close>

definition with_pathname :: "nat \<Rightarrow> (byte list \<Rightarrow> ('f server, int) state) \<Rightarrow> ('f server, int) state" where
  "with_pathname off k = do {
     pkt \<leftarrow> gets sv_packet;
     case fix_pathname (drop off pkt) of None \<Rightarrow> fault
     | Some area \<Rightarrow> do {
         modify (\<lambda>s. s\<lparr>sv_packet := take off pkt @ area\<rparr>);
         k (cstr area) } }"

definition PS2LINK_PING_PATHNAME :: "byte list" where
  "PS2LINK_PING_PATHNAME = lit ''ps2client.ping''"

definition PS2LINK_NULL_DEVICE :: "byte list" where
  "PS2LINK_NULL_DEVICE = lit ''/dev/null''"

definition ps2link_request_open :: "'f posix \<Rightarrow> int \<Rightarrow> ('f server, int) state" where
  "ps2link_request_open P sock = with_pathname 10 (\<lambda>pathname. do {
     pkt \<leftarrow> gets sv_packet;
     let flags = fix_flags (pkt_word pkt 6);
     modify (\<lambda>s. s\<lparr>sv_packet := take 6 pkt @ store32 (word_of_int flags) @ drop 10 pkt\<rparr>);
     if pathname = PS2LINK_PING_PATHNAME then do {
       fd \<leftarrow> on_fs (p_open P PS2LINK_NULL_DEVICE O_WRONLY 0);
       modify (\<lambda>s. s\<lparr>sv_ping_fd := fd\<rparr>);
       on_net (ps2link_response_open sock fd) }
     else do {
       stats \<leftarrow> on_fs (p_stat P pathname);
       if (case stats of None \<Rightarrow> False | Some st \<Rightarrow> \<not> S_ISDIR (st_mode st)) \<or> flags AND O_CREAT \<noteq> 0
       then do {
         result \<leftarrow> on_fs (p_open P pathname flags 420);
         on_net (ps2link_response_open sock result) }
       else on_net (ps2link_response_open sock (-1)) } })"

definition ps2link_request_close :: "'f posix \<Rightarrow> int \<Rightarrow> ('f server, int) state" where
  "ps2link_request_close P sock = do {
     pkt \<leftarrow> gets sv_packet;
     let fd = sint (pkt_word pkt 6);
     result \<leftarrow> on_fs (p_close P fd);
     modify (\<lambda>s. if 0 \<le> sv_ping_fd s \<and> fd = sv_ping_fd s
                 then s\<lparr>sv_ping_fd := -1, sv_ping_answered := True\<rparr> else s);
     on_net (ps2link_response_close sock result) }"

text \<open>A size above \<open>sizeof (buffer)\<close> goes through \<open>malloc\<close>; both ways do the same after that.\<close>

definition ps2link_request_read :: "'f posix \<Rightarrow> int \<Rightarrow> ('f server, int) state" where
  "ps2link_request_read P sock = do {
     pkt \<leftarrow> gets sv_packet;
     let fd = sint (pkt_word pkt 6);
     let sz = unat (pkt_word pkt 10);
     if 65536 < sz then do {
       ok \<leftarrow> on_fs (p_malloc P sz);
       if \<not> ok then do {
         _ \<leftarrow> on_net (ps2link_response_read sock (-1) (-1));
         ret (-1) }
       else do {
         (r, bigbuffer) \<leftarrow> on_fs (sys_read P fd sz);
         _ \<leftarrow> on_net (ps2link_response_read sock (c_int r) (c_int r));
         _ \<leftarrow> on_net (network_send sock bigbuffer (c_int r));
         ret 0 } }
     else do {
       (r, buffer) \<leftarrow> on_fs (sys_read P fd sz);
       _ \<leftarrow> on_net (ps2link_response_read sock (c_int r) (c_int r));
       _ \<leftarrow> on_net (network_send sock buffer (c_int r));
       ret 0 } }"

text \<open>
  The size is passed to \<open>network_receive_all\<close> as an \<open>int\<close> and to \<open>write\<close> as an unsigned number; the
  part of the buffer that was not received holds what the memory held before, \<open>heap\<close>.
\<close>

definition ps2link_request_write :: "'f posix \<Rightarrow> (nat \<Rightarrow> byte) \<Rightarrow> int \<Rightarrow> ('f server, int) state" where
  "ps2link_request_write P heap sock = do {
     pkt \<leftarrow> gets sv_packet;
     let fd = sint (pkt_word pkt 6);
     let sz = unat (pkt_word pkt 10);
     if 65536 < sz then do {
       ok \<leftarrow> on_fs (p_malloc P sz);
       if \<not> ok then ret (-1)
       else do {
         (r, got) \<leftarrow> on_net (network_receive_all sock (c_int (int sz)));
         if r < 0 then ret (-1)
         else do {
           result \<leftarrow> on_fs (sys_write P fd (got @ map heap [length got..<sz]));
           _ \<leftarrow> on_net (ps2link_response_write sock (c_int result));
           ret 0 } } }
     else do {
       (r, got) \<leftarrow> on_net (network_receive_all sock (int sz));
       if r < 0 then ret (-1)
       else do {
         result \<leftarrow> on_fs (sys_write P fd (got @ map heap [length got..<sz]));
         _ \<leftarrow> on_net (ps2link_response_write sock (c_int result));
         ret 0 } } }"

text \<open>\<open>ntohl (request->offset)\<close> is unsigned, and \<open>off_t\<close> has 64 bits: the offset is never negative.\<close>

definition ps2link_request_lseek :: "'f posix \<Rightarrow> int \<Rightarrow> ('f server, int) state" where
  "ps2link_request_lseek P sock = do {
     pkt \<leftarrow> gets sv_packet;
     result \<leftarrow> on_fs (p_lseek P (sint (pkt_word pkt 6)) (uint (pkt_word pkt 10)) (sint (pkt_word pkt 14)));
     on_net (ps2link_response_lseek sock (c_int result)) }"

text \<open>The search for a free directory descriptor; \<open>-1\<close> if all ten are taken.\<close>

fun dd_free :: "nat \<Rightarrow> dd_entry list \<Rightarrow> int" where
  "dd_free loop0 [] = -1"
| "dd_free loop0 (e # es) = (if dd_dir e = None then int loop0 else dd_free (Suc loop0) es)"

definition ps2link_request_opendir :: "'f posix \<Rightarrow> int \<Rightarrow> ('f server, int) state" where
  "ps2link_request_opendir P sock = with_pathname 10 (\<lambda>pathname. do {
     stats \<leftarrow> on_fs (p_stat P pathname);
     if (case stats of None \<Rightarrow> False | Some st \<Rightarrow> S_ISDIR (st_mode st)) then do {
       result \<leftarrow> gets (\<lambda>s. dd_free 0 (sv_dd s));
       if result \<noteq> -1 then do {
         ok \<leftarrow> on_fs (p_malloc P (length pathname + 1));
         if \<not> ok then fault
         else do {
           dir \<leftarrow> on_fs (p_opendir P pathname);
           modify (\<lambda>s. s\<lparr>sv_dd := (sv_dd s)[nat result := \<lparr>dd_pathname = Some pathname, dd_dir = dir\<rparr>]\<rparr>);
           on_net (ps2link_response_opendir sock result) } }
       else on_net (ps2link_response_opendir sock result) }
     else on_net (ps2link_response_opendir sock (-1)) })"

text \<open>The entry a request names, if its descriptor is in range and open.\<close>

definition dd_lookup :: "dd_entry list \<Rightarrow> u32 \<Rightarrow> (nat \<times> byte list option \<times> int) option" where
  "dd_lookup dd w =
     (if 10 \<le> unat w then None
      else case dd_dir (dd ! unat w) of None \<Rightarrow> None
      | Some dir \<Rightarrow> Some (unat w, dd_pathname (dd ! unat w), dir))"

definition ps2link_request_closedir :: "'f posix \<Rightarrow> int \<Rightarrow> ('f server, int) state" where
  "ps2link_request_closedir P sock = do {
     pkt \<leftarrow> gets sv_packet;
     entry \<leftarrow> gets (\<lambda>s. dd_lookup (sv_dd s) (pkt_word pkt 6));
     case entry of None \<Rightarrow> on_net (ps2link_response_closedir sock (-1))
     | Some (i, pathname, dir) \<Rightarrow> do {
         result \<leftarrow> on_fs (p_closedir P dir);
         modify (\<lambda>s. s\<lparr>sv_dd := (sv_dd s)[i := \<lparr>dd_pathname = None, dd_dir = None\<rparr>]\<rparr>);
         on_net (ps2link_response_closedir sock result) } }"

text \<open>The mode bits of the PS2, and the six of eight bytes of a time that are assigned.\<close>

definition ps2_mode :: "u32 \<Rightarrow> u32" where
  "ps2_mode m =
     (let mode = m AND 0x07;
          mode = (if S_ISDIR m then mode OR 0x20 else mode);
          mode = (if S_ISLNK m then mode OR 0x08 else mode);
          mode = (if S_ISREG m then mode OR 0x10 else mode)
      in mode)"

definition ps2_time :: "byte list \<Rightarrow> tm_t \<Rightarrow> byte list" where
  "ps2_time old t = old[6 := word_of_int (tm_year t), 5 := word_of_int (tm_mon t) + 1,
     4 := word_of_int (tm_mday t), 3 := word_of_int (tm_hour t), 2 := word_of_int (tm_min t),
     1 := word_of_int (tm_sec t)]"

text \<open>
  The three times of a file, \<open>localtime\<close> for each; \<open>None\<close> is the null pointer it returns for a time it
  cannot convert, which is then read through.
\<close>

definition ps2_times ::
  "'f posix \<Rightarrow> byte list \<times> byte list \<times> byte list \<Rightarrow> stat_t \<Rightarrow> (byte list \<times> byte list \<times> byte list) option" where
  "ps2_times P old stats = (case old of (ctime, atime, mtime) \<Rightarrow>
     case p_localtime P (st_ctim stats) of None \<Rightarrow> None
     | Some c \<Rightarrow> (case p_localtime P (st_atim stats) of None \<Rightarrow> None
     | Some a \<Rightarrow> (case p_localtime P (st_mtim stats) of None \<Rightarrow> None
     | Some m \<Rightarrow> Some (ps2_time ctime c, ps2_time atime a, ps2_time mtime m))))"

definition ps2link_request_readdir :: "'f posix \<Rightarrow> stack \<Rightarrow> stack \<Rightarrow> int \<Rightarrow> ('f server, int) state" where
  "ps2link_request_readdir P J J' sock = do {
     pkt \<leftarrow> gets sv_packet;
     entry \<leftarrow> gets (\<lambda>s. dd_lookup (sv_dd s) (pkt_word pkt 6));
     case entry of
       None \<Rightarrow> on_net (ps2link_response_readdir sock J' (-1) 0 0 0 None None None 0 None)
     | Some (i, pathname, dir) \<Rightarrow> do {
         dirent \<leftarrow> on_fs (p_readdir P dir);
         case dirent of
           None \<Rightarrow> on_net (ps2link_response_readdir sock J' 0 0 0 0 None None None 0 None)
         | Some d_name \<Rightarrow>
             (case pathname of None \<Rightarrow> fault
              | Some path \<Rightarrow>
                let tname = path @ [slash] @ d_name in
                if 512 < length tname + 1 then fault
                else do {
                  st \<leftarrow> on_fs (p_stat P tname);
                  let stats = (case st of None \<Rightarrow> j_stat J | Some st \<Rightarrow> st);
                  case ps2_times P (j_ctime J, j_atime J, j_mtime J) stats of None \<Rightarrow> fault
                  | Some (ctime, atime, mtime) \<Rightarrow>
                      on_net (ps2link_response_readdir sock J' 1 (ps2_mode (st_mode stats)) 0
                        (word_of_int (st_size stats)) (Some ctime) (Some atime) (Some mtime) 0 (Some d_name)) }) } }"

definition ps2link_request_remove :: "'f posix \<Rightarrow> int \<Rightarrow> ('f server, int) state" where
  "ps2link_request_remove P sock = with_pathname 6 (\<lambda>name. do {
     result \<leftarrow> on_fs (p_remove P name);
     on_net (ps2link_response_remove sock result) })"

text \<open>The mode is read from the packet without \<open>ntohl\<close>.\<close>

definition ps2link_request_mkdir :: "'f posix \<Rightarrow> int \<Rightarrow> ('f server, int) state" where
  "ps2link_request_mkdir P sock = with_pathname 10 (\<lambda>name. do {
     pkt \<leftarrow> gets sv_packet;
     result \<leftarrow> on_fs (p_mkdir P name (load32 (drop 6 pkt)));
     on_net (ps2link_response_mkdir sock result) })"

definition ps2link_request_rmdir :: "'f posix \<Rightarrow> int \<Rightarrow> ('f server, int) state" where
  "ps2link_request_rmdir P sock = with_pathname 6 (\<lambda>name. do {
     result \<leftarrow> on_fs (p_rmdir P name);
     on_net (ps2link_response_rmdir sock result) })"

definition ps2link_request_getstat :: "'f posix \<Rightarrow> stack \<Rightarrow> int \<Rightarrow> ('f server, int) state" where
  "ps2link_request_getstat P J' sock = with_pathname 6 (\<lambda>name. do {
     st \<leftarrow> on_fs (p_stat P name);
     let zero = replicate 8 0;
     case st of
       None \<Rightarrow> on_net (ps2link_response_getstat sock J' (-1) 0 0 0 (Some zero) (Some zero) (Some zero) 0)
     | Some stats \<Rightarrow>
         (case ps2_times P (zero, zero, zero) stats of None \<Rightarrow> fault
          | Some (ctime, atime, mtime) \<Rightarrow>
              on_net (ps2link_response_getstat sock J' 0 (ps2_mode (st_mode stats)) 0
                (word_of_int (st_size stats)) (Some ctime) (Some atime) (Some mtime) 0)) })"

section \<open>Every request is answered\<close>

text \<open>
  What the PS2 sees of one request: one response with the number of the request plus one, of the
  length its header says, followed by data only if it is the response to a read, and then by as many
  bytes as the response announces.
\<close>

definition answer_to :: "u32 \<Rightarrow> byte list \<Rightarrow> bool" where
  "answer_to number bytes \<longleftrightarrow> 10 \<le> length bytes \<and> pkt_number bytes = number + 1
     \<and> length bytes = unat (pkt_length bytes)
         + (if number = PS2LINK_REQUEST_READ then nat (sint (pkt_word bytes 6)) else 0)"

definition answers :: "int \<Rightarrow> u32 \<Rightarrow> 'f server \<Rightarrow> 'f server \<Rightarrow> bool" where
  "answers sock number s s' \<longleftrightarrow> (\<exists>bytes. answer_to number bytes
     \<and> net_outbox (sv_net s') = (net_outbox (sv_net s))(sock := net_outbox (sv_net s) sock @ bytes))"

text \<open>
  Code that answers, whenever the connection takes what is sent, unless it runs into undefined
  behaviour. The rules follow the structure of the handlers: what comes before the response does not
  touch the connection.
\<close>

definition answering :: "int \<Rightarrow> u32 \<Rightarrow> ('f server, int) state \<Rightarrow> bool" where
  "answering sock number m \<longleftrightarrow> (\<forall>s. net_writable (sv_net s) sock \<longrightarrow>
     (case run_state m s of (r, s') \<Rightarrow> answers sock number s s' \<or> sv_fault s'))"

named_theorems answering_intros

lemma answers_same_net: "sv_net s = sv_net t \<Longrightarrow> answers sock number t s' \<Longrightarrow> answers sock number s s'"
  by (simp add: answers_def)

lemma answering_step:
  assumes "\<And>s a t. run_state m s = (a, t) \<Longrightarrow> sv_net t = sv_net s \<and> Q a"
    and "\<And>a. Q a \<Longrightarrow> answering sock number (f a)"
  shows "answering sock number (State_Monad.bind m f)"
  unfolding answering_def
proof (intro allI impI)
  fix s :: "'a server" assume w: "net_writable (sv_net s) sock"
  obtain a t where m: "run_state m s = (a, t)" by force
  obtain r u where f: "run_state (f a) t = (r, u)" by force
  from assms(1) [OF m] have net: "sv_net t = sv_net s" and "answering sock number (f a)"
    using assms(2) by auto
  with w f have "answers sock number t u \<or> sv_fault u"
    by (auto simp: answering_def dest!: spec [of _ t])
  with m f net show "case run_state (State_Monad.bind m f) s of (r, s') \<Rightarrow>
      answers sock number s s' \<or> sv_fault s'"
    by (auto dest: answers_same_net [of s t, rotated])
qed

lemma answering_gets [answering_intros]:
  "(\<And>a. answering sock number (f a)) \<Longrightarrow> answering sock number (State_Monad.bind (gets g) f)"
  by (rule answering_step [where Q = "\<lambda>_. True"]) auto

lemma answering_fs [answering_intros]:
  "(\<And>a. answering sock number (f a)) \<Longrightarrow> answering sock number (State_Monad.bind (on_fs g) f)"
  by (rule answering_step [where Q = "\<lambda>_. True"]) (auto simp: on_fs_def split: prod.splits)

lemma answering_read:
  "(\<And>r buf. r = -1 \<and> buf = [] \<or> r = int (length buf) \<Longrightarrow> answering sock number (f (r, buf))) \<Longrightarrow>
     answering sock number (State_Monad.bind (on_fs (sys_read P fd n)) f)"
  by (rule answering_step [where Q = "\<lambda>(r, buf). r = -1 \<and> buf = [] \<or> r = int (length buf)"])
     (auto simp: on_fs_def split: prod.splits dest: sys_read_le)

lemma answering_modify [answering_intros]:
  "(\<And>s. sv_net (h s) = sv_net s) \<Longrightarrow> answering sock number m \<Longrightarrow>
     answering sock number (State_Monad.bind (modify h) (\<lambda>_. m))"
  by (rule answering_step [where Q = "\<lambda>_. True"]) auto

lemma answering_if [answering_intros]:
  "answering sock number m \<Longrightarrow> answering sock number m' \<Longrightarrow> answering sock number (if b then m else m')"
  by simp

lemma answering_option [answering_intros]:
  "answering sock number m \<Longrightarrow> (\<And>x. answering sock number (f x)) \<Longrightarrow>
     answering sock number (case o' of None \<Rightarrow> m | Some x \<Rightarrow> f x)"
  by (cases o') auto

lemma answering_prod [answering_intros]:
  "(\<And>x y. p = (x, y) \<Longrightarrow> answering sock number (f x y)) \<Longrightarrow>
     answering sock number (case p of (x, y) \<Rightarrow> f x y)"
  by (cases p) auto

lemma answering_let [answering_intros]:
  "(\<And>x. x = a \<Longrightarrow> answering sock number (f x)) \<Longrightarrow> answering sock number (let x = a in f x)"
  by simp

lemma answering_fault [answering_intros]: "answering sock number fault"
  by (simp add: answering_def)

lemma answers_send:
  assumes "net_writable (sv_net s) sock" and "number \<noteq> PS2LINK_REQUEST_READ"
    and "4 \<le> length body" and "length body < 65530"
  shows "answers sock number s (s\<lparr>sv_net := after_send (sv_net s) sock (packet (number + 1) body)\<rparr>)"
  unfolding answers_def answer_to_def using assms
  by (intro exI [of _ "packet (number + 1) body"]) simp

lemma answering_send:
  "number \<noteq> PS2LINK_REQUEST_READ \<Longrightarrow> number' = number + 1 \<Longrightarrow> 4 \<le> length body \<Longrightarrow> length body < 65530 \<Longrightarrow>
     answering sock number (on_net (send_packet sock (packet number' body)))"
  by (simp add: answering_def on_net_def answers_send)

lemma answering_result [answering_intros]:
  "number \<noteq> PS2LINK_REQUEST_READ \<Longrightarrow> number' = number + 1 \<Longrightarrow>
     answering sock number (on_net (send_packet sock (response_result number' r)))"
  unfolding response_result_def by (rule answering_send) simp_all

lemma c_int_le: "0 \<le> x \<Longrightarrow> c_int x \<le> x"
  using signed_take_bit_int_less_eq_self_iff [of 31 x]
  by (simp add: c_int_def sint_sbintrunc')

lemma answers_read:
  assumes "net_writable (sv_net s) sock" and "k \<le> int (length buf)" and "int_range k"
  shows "answers sock PS2LINK_REQUEST_READ s
    (s\<lparr>sv_net := snd (run_state (network_send sock buf k)
       (after_send (sv_net s) sock (packet PS2LINK_RESPONSE_READ (be32 (word_of_int k) @ be32 (word_of_int k)))))\<rparr>)"
  unfolding answers_def
proof (intro exI conjI)
  let ?resp = "packet PS2LINK_RESPONSE_READ (be32 (word_of_int k) @ be32 (word_of_int k))"
  let ?data = "take (nat k) buf"
  show "answer_to PS2LINK_REQUEST_READ (?resp @ ?data)"
    using assms by (simp add: answer_to_def pkt_word_def pkt_number_append pkt_length_append)
  show "net_outbox (sv_net (s\<lparr>sv_net := snd (run_state (network_send sock buf k) (after_send (sv_net s) sock ?resp))\<rparr>))
      = (net_outbox (sv_net s))(sock := net_outbox (sv_net s) sock @ ?resp @ ?data)"
    using assms(1,2) by (cases "0 \<le> k") (simp_all add: run_network_send_part)
qed

lemma answering_response_read [answering_intros]:
  assumes "k \<le> int (length buf)" and "int_range k"
  shows "answering sock PS2LINK_REQUEST_READ
    (State_Monad.bind (on_net (ps2link_response_read sock k k)) (\<lambda>_.
       State_Monad.bind (on_net (network_send sock buf k)) (\<lambda>_. ret r)))"
  using answers_read [OF _ assms]
  by (fastforce simp: answering_def on_net_def ps2link_response_read_def split: prod.splits)

lemma answering_response_read_failed [answering_intros]:
  "answering sock PS2LINK_REQUEST_READ
    (State_Monad.bind (on_net (ps2link_response_read sock (-1) (-1))) (\<lambda>_. ret r))"
  using answers_read [of _ sock "-1" "[]"]
  by (auto simp: answering_def on_net_def ps2link_response_read_def int_range_def)

section \<open>The request thread\<close>

text \<open>The contents of uninitialised memory during one request.\<close>

record env =
  e_heap :: "nat \<Rightarrow> byte"
  e_stack :: stack
  e_response :: stack

text \<open>The chain of comparisons that selects the handler; an unknown number is ignored.\<close>

definition dispatch :: "'f posix \<Rightarrow> env \<Rightarrow> int \<Rightarrow> u32 \<Rightarrow> ('f server, int) state" where
  "dispatch P E sock number =
     (if number = PS2LINK_REQUEST_OPEN then ps2link_request_open P sock
      else if number = PS2LINK_REQUEST_CLOSE then ps2link_request_close P sock
      else if number = PS2LINK_REQUEST_READ then ps2link_request_read P sock
      else if number = PS2LINK_REQUEST_WRITE then ps2link_request_write P (e_heap E) sock
      else if number = PS2LINK_REQUEST_LSEEK then ps2link_request_lseek P sock
      else if number = PS2LINK_REQUEST_OPENDIR then ps2link_request_opendir P sock
      else if number = PS2LINK_REQUEST_CLOSEDIR then ps2link_request_closedir P sock
      else if number = PS2LINK_REQUEST_READDIR
        then ps2link_request_readdir P (e_stack E) (e_response E) sock
      else if number = PS2LINK_REQUEST_REMOVE then ps2link_request_remove P sock
      else if number = PS2LINK_REQUEST_MKDIR then ps2link_request_mkdir P sock
      else if number = PS2LINK_REQUEST_RMDIR then ps2link_request_rmdir P sock
      else if number = PS2LINK_REQUEST_GETSTAT then ps2link_request_getstat P (e_response E) sock
      else ret 0)"

text \<open>
  One round of the loop: the header, the check of the length, the rest of the packet, the handler.
  What comes in overwrites the packet buffer from its start. \<open>False\<close> is the \<open>break\<close>.
\<close>

definition thread_round :: "'f posix \<Rightarrow> env \<Rightarrow> int \<Rightarrow> ('f server, bool) state" where
  "thread_round P E sock = do {
     (r, header) \<leftarrow> on_net (network_receive_all sock 6);
     modify (\<lambda>s. s\<lparr>sv_packet := header @ drop (length header) (sv_packet s)\<rparr>);
     if r < 0 then ret False
     else do {
       pkt \<leftarrow> gets sv_packet;
       let len = int (unat (pkt_length pkt));
       if len < 6 \<or> 512 < len - 6 then ret False
       else do {
         (r, body) \<leftarrow> on_net (network_receive_all sock (len - 6));
         modify (\<lambda>s. s\<lparr>sv_packet := take 6 (sv_packet s) @ body @ drop (6 + length body) (sv_packet s)\<rparr>);
         if r < 0 then ret False
         else do {
           pkt \<leftarrow> gets sv_packet;
           _ \<leftarrow> dispatch P E sock (pkt_number pkt);
           ret True } } } }"

definition wf_stack :: "stack \<Rightarrow> bool" where
  "wf_stack J \<longleftrightarrow> length (j_ctime J) = 8 \<and> length (j_atime J) = 8 \<and> length (j_mtime J) = 8
     \<and> length (j_name J) = 256"

lemma length_ps2_time [simp]: "length (ps2_time old t) = length old"
  by (simp add: ps2_time_def)

lemma answering_times:
  assumes "\<And>c a m. length c = length c0 \<Longrightarrow> length a = length a0 \<Longrightarrow> length m = length m0 \<Longrightarrow> answering sock number (f c a m)"
  shows "answering sock number (case ps2_times P (c0, a0, m0) st of None \<Rightarrow> fault | Some (c, a, m) \<Rightarrow> f c a m)"
  using assms by (auto simp: ps2_times_def answering_fault split: option.split)

lemma length_stat_fields [simp]:
  "wf_stack J \<Longrightarrow> length (stat_fields J r mode attr sz None None None h) = 44"
  "length a = 8 \<Longrightarrow> length b = 8 \<Longrightarrow> length c = 8 \<Longrightarrow>
     length (stat_fields J r mode attr sz (Some a) (Some b) (Some c) h) = 44"
  by (simp_all add: stat_fields_def time_field_def wf_stack_def)

lemma dispatch_answers:
  assumes "number \<in> {PS2LINK_REQUEST_OPEN, PS2LINK_REQUEST_CLOSE, PS2LINK_REQUEST_READ,
      PS2LINK_REQUEST_LSEEK, PS2LINK_REQUEST_OPENDIR, PS2LINK_REQUEST_CLOSEDIR, PS2LINK_REQUEST_READDIR,
      PS2LINK_REQUEST_REMOVE, PS2LINK_REQUEST_MKDIR, PS2LINK_REQUEST_RMDIR, PS2LINK_REQUEST_GETSTAT}"
    and "wf_stack (e_stack E)" and "wf_stack (e_response E)"
  shows "answering sock number (dispatch P E sock number)"
proof -
  have J: "length (j_ctime (e_stack E)) = 8" "length (j_atime (e_stack E)) = 8"
    "length (j_mtime (e_stack E)) = 8" "length (j_name (e_response E)) = 256"
    using assms by (auto simp: wf_stack_def)
  note simple = response_defs with_pathname_def
  have "answering sock PS2LINK_REQUEST_OPEN (ps2link_request_open P sock)"
    unfolding ps2link_request_open_def simple
    by (intro answering_intros) simp_all
  moreover have "answering sock PS2LINK_REQUEST_CLOSE (ps2link_request_close P sock)"
    unfolding ps2link_request_close_def simple
    by (intro answering_intros) simp_all
  moreover have "answering sock PS2LINK_REQUEST_READ (ps2link_request_read P sock)"
    unfolding ps2link_request_read_def
    by (intro answering_gets answering_let answering_if answering_read answering_prod
        answering_fs [where g = "p_malloc P n" for n] answering_response_read
        answering_response_read_failed) (auto intro: c_int_le)
  moreover have "answering sock PS2LINK_REQUEST_LSEEK (ps2link_request_lseek P sock)"
    unfolding ps2link_request_lseek_def simple
    by (intro answering_intros) simp_all
  moreover have "answering sock PS2LINK_REQUEST_OPENDIR (ps2link_request_opendir P sock)"
    unfolding ps2link_request_opendir_def simple
    by (intro answering_intros) simp_all
  moreover have "answering sock PS2LINK_REQUEST_CLOSEDIR (ps2link_request_closedir P sock)"
    unfolding ps2link_request_closedir_def simple
    by (intro answering_intros) simp_all
  moreover have "answering sock PS2LINK_REQUEST_READDIR (ps2link_request_readdir P (e_stack E) (e_response E) sock)"
    unfolding ps2link_request_readdir_def simple
    by (intro answering_times answering_intros answering_send) (simp_all add: assms J)
  moreover have "answering sock PS2LINK_REQUEST_REMOVE (ps2link_request_remove P sock)"
    unfolding ps2link_request_remove_def simple
    by (intro answering_intros) simp_all
  moreover have "answering sock PS2LINK_REQUEST_MKDIR (ps2link_request_mkdir P sock)"
    unfolding ps2link_request_mkdir_def simple
    by (intro answering_intros) simp_all
  moreover have "answering sock PS2LINK_REQUEST_RMDIR (ps2link_request_rmdir P sock)"
    unfolding ps2link_request_rmdir_def simple
    by (intro answering_intros) simp_all
  moreover have "answering sock PS2LINK_REQUEST_GETSTAT (ps2link_request_getstat P (e_response E) sock)"
    unfolding ps2link_request_getstat_def simple
    by (intro answering_times answering_intros answering_send) (simp_all add: assms J)
  ultimately show ?thesis using assms(1) by (auto simp: dispatch_def request_numbers)
qed

end
