(* ===== verification/Link_Thread.thy ===== *)
theory Link_Thread
  imports Link_Request
begin

text \<open>
  The request thread as a whole: it ends, it stays in step with the stream of requests, it keeps the
  table of directories in order, and it stays inside its buffers for every well-formed request.
\<close>

section \<open>What handlers do to the connections\<close>

text \<open>
  Relations between the connections before and after a handler. \<open>net_relation\<close> is the interface: the
  relation is a preorder and \<open>network_send\<close> keeps it. Then every handler but the one for writes keeps
  it; with \<open>network_receive_all\<close> too, so does that one.
\<close>

definition over_net :: "(net \<Rightarrow> net \<Rightarrow> bool) \<Rightarrow> 'f server \<Rightarrow> 'f server \<Rightarrow> bool" where
  "over_net N s s' \<longleftrightarrow> N (sv_net s) (sv_net s')"

lemmas handler_defs = ps2link_request_open_def ps2link_request_close_def ps2link_request_read_def
  ps2link_request_lseek_def ps2link_request_opendir_def ps2link_request_closedir_def
  ps2link_request_readdir_def ps2link_request_remove_def ps2link_request_mkdir_def
  ps2link_request_rmdir_def ps2link_request_getstat_def response_defs send_packet_def

locale net_relation =
  fixes N :: "net \<Rightarrow> net \<Rightarrow> bool" and C :: "int \<Rightarrow> bool"
  assumes N_refl: "N n n"
    and N_trans: "N n m \<Longrightarrow> N m k \<Longrightarrow> N n k"
    and N_send: "C c \<Longrightarrow> run_state (network_send c bs i) n = (r, n') \<Longrightarrow> N n n'"

sublocale net_relation \<subseteq> step_preorder "over_net N"
  by unfold_locales (auto simp: over_net_def intro: N_refl N_trans)

context net_relation
begin

lemma net_on_fs: "state_io_rel (over_net N) (on_fs g)"
  by (auto simp: state_io_rel_def over_net_def on_fs_def N_refl split: prod.splits)

lemma net_fault: "state_io_rel (over_net N) fault"
  by (auto simp: state_io_rel_def over_net_def N_refl)

lemma net_modify: "(\<And>s. sv_net (h s) = sv_net s) \<Longrightarrow> state_io_rel (over_net N) (modify h)"
  by (auto simp: state_io_rel_def over_net_def N_refl)

lemma net_send: "C c \<Longrightarrow> state_io_rel (over_net N) (on_net (network_send c bs k))"
  by (auto simp: state_io_rel_def over_net_def on_net_def split: prod.splits dest: N_send)

lemmas net_keeps = keeps net_on_fs net_fault net_modify net_send

lemma net_dispatch:
  "C sock \<Longrightarrow> number \<noteq> PS2LINK_REQUEST_WRITE \<Longrightarrow> state_io_rel (over_net N) (dispatch P E sock number)"
  unfolding dispatch_def handler_defs with_pathname_def
  by (intro net_keeps) simp_all

end

locale net_relation_receive = net_relation +
  assumes N_receive: "C c \<Longrightarrow> run_state (network_receive_all c i) n = ((r, got), n') \<Longrightarrow> N n n'"
begin

lemma net_receive: "C c \<Longrightarrow> state_io_rel (over_net N) (on_net (network_receive_all c k))"
  by (auto simp: state_io_rel_def over_net_def on_net_def split: prod.splits dest: N_receive)

lemma net_dispatch_any: "C sock \<Longrightarrow> state_io_rel (over_net N) (dispatch P E sock number)"
  unfolding dispatch_def handler_defs with_pathname_def ps2link_request_write_def
  by (intro net_keeps net_receive) simp_all

lemma net_round: "C sock \<Longrightarrow> state_io_rel (over_net N) (thread_round P E sock)"
  unfolding thread_round_def
  by (intro net_keeps net_receive net_dispatch_any) simp_all

end

section \<open>Termination\<close>

interpretation shrink: net_relation_receive "\<lambda>n n'. net_weight n' sock \<le> net_weight n sock" "\<lambda>_. True" for sock
  by unfold_locales (auto dest: network_send_weight network_receive_all_weight(1))

text \<open>A round that goes on has received a header, so less of the history is left.\<close>

lemma thread_round_consumes:
  assumes "run_state (thread_round P E sock) s = (True, s')"
  shows "net_weight (sv_net s') sock < net_weight (sv_net s) sock"
proof -
  obtain r hdr n1 where h: "run_state (network_receive_all sock 6) (sv_net s) = ((r, hdr), n1)"
    by (metis surj_pair)
  define rest :: "('a server, bool) state" where "rest = do {
       modify (\<lambda>s. s\<lparr>sv_packet := hdr @ drop (length hdr) (sv_packet s)\<rparr>);
       pkt \<leftarrow> gets sv_packet;
       let len = int (unat (pkt_length pkt));
       if len < 6 \<or> 512 < len - 6 then ret False
       else do {
         (r, body) \<leftarrow> on_net (network_receive_all sock (len - 6));
         modify (\<lambda>s. s\<lparr>sv_packet := take 6 (sv_packet s) @ body @ drop (6 + length body) (sv_packet s)\<rparr>);
         if r < 0 then ret False
         else do {
           pkt \<leftarrow> gets sv_packet;
           _ \<leftarrow> dispatch P E sock (pkt_number pkt);
           ret True } } }"
  have "0 \<le> r" "run_state rest (s\<lparr>sv_net := n1\<rparr>) = (True, s')"
    using assms h by (auto simp: thread_round_def rest_def on_net_def split: if_splits)
  moreover have "state_io_rel (over_net (\<lambda>n n'. net_weight n' sock \<le> net_weight n sock)) rest"
    unfolding rest_def by (intro shrink.net_keeps shrink.net_receive shrink.net_dispatch_any) simp_all
  ultimately show ?thesis
    using network_receive_all_weight(2) [OF h] by (fastforce simp: state_io_rel_def over_net_def)
qed

text \<open>
  The thread: rounds until one breaks off. Uninitialised memory may be different in every round, so
  there is one \<open>env\<close> for each. The thread ends by telling the main loop that the connection is lost.
\<close>

function thread_loop :: "'f posix \<Rightarrow> (nat \<Rightarrow> env) \<Rightarrow> int \<Rightarrow> nat \<Rightarrow> 'f server \<Rightarrow> 'f server" where
  "thread_loop P Es sock i s =
     (case run_state (thread_round P (Es i) sock) s of
        (True, s') \<Rightarrow> thread_loop P Es sock (Suc i) s'
      | (False, s') \<Rightarrow> s')"
  by pat_completeness auto
termination
  by (relation "measure (\<lambda>(P, Es, sock, i, s). net_weight (sv_net s) sock)")
     (auto dest!: thread_round_consumes [OF sym])

declare thread_loop.simps [simp del]

text \<open>The thread with its guard: the final server state and the value of \<open>ps2link_lost\<close>.\<close>

definition ps2link_thread_request :: "'f posix \<Rightarrow> (nat \<Rightarrow> env) \<Rightarrow> int \<Rightarrow> 'f server \<Rightarrow> 'f server \<times> bool" where
  "ps2link_thread_request P Es sock s =
     (if sock < 0 then (s, False) else (thread_loop P Es sock 0 s, True))"

section \<open>Requests in step\<close>

text \<open>Handlers other than the one for writes leave what is still to come in alone.\<close>

interpretation input: net_relation "\<lambda>n n'. net_inbox n' = net_inbox n" "\<lambda>_. True"
  by unfold_locales (auto dest: network_send_weight)

text \<open>No handler makes a connection fail that takes all that is sent.\<close>

interpretation writable: net_relation_receive "\<lambda>n n'. net_writable n sock \<longrightarrow> net_writable n' sock" "\<lambda>_. True" for sock
  by unfold_locales (auto dest: network_send_stays_writable network_receive_all_stays_writable)

text \<open>What is served on one connection leaves every other connection alone.\<close>

interpretation apart: net_relation_receive "\<lambda>n n'. n' other = n other" "\<lambda>c. c \<noteq> other" for other
  by unfold_locales (auto dest: network_send_other network_receive_all_other)

text \<open>A request as it stands in the stream: header and body, of the length the header says.\<close>

definition request_frame :: "byte list \<Rightarrow> bool" where
  "request_frame req \<longleftrightarrow> 6 \<le> length req \<and> length req \<le> 518 \<and> unat (pkt_length req) = length req"

text \<open>What a round does with a frame: it puts the frame in the buffer and runs the handler.\<close>

definition loaded :: "int \<Rightarrow> byte list \<Rightarrow> 'f server \<Rightarrow> 'f server" where
  "loaded sock req s = s\<lparr>sv_net := after_recv (after_recv (sv_net s) sock 6) sock (length req - 6),
     sv_packet := req @ drop (length req) (sv_packet s)\<rparr>"

lemma pkt_length_take: "6 \<le> length req \<Longrightarrow> pkt_length (take 6 req @ r) = pkt_length req"
  using pkt_length_append [of "take 6 req" r] pkt_length_append [of "take 6 req" "drop 6 req"] by simp

lemma thread_round_frame:
  assumes "request_frame req" and "net_inbox (sv_net s) sock = req @ rest"
    and "length (sv_packet s) = 518"
  shows "run_state (thread_round P E sock) s =
    (True, snd (run_state (dispatch P E sock (pkt_number req)) (loaded sock req s)))"
proof -
  have len: "6 \<le> length req" "length req \<le> 518" "unat (pkt_length req) = length req"
    using assms(1) by (auto simp: request_frame_def)
  have pl: "pkt_length (take 6 req @ drop 6 (sv_packet s)) = pkt_length req"
    using len(1) by (rule pkt_length_take)
  have "run_state (network_receive_all sock 6) (sv_net s) = ((6, take 6 req), after_recv (sv_net s) sock 6)"
    using len assms(2) run_network_receive_all [of 6 6 "sv_net s" sock] by simp
  moreover have "run_state (network_receive_all sock (int (length req) - 6)) (after_recv (sv_net s) sock 6)
      = ((int (length req) - 6, drop 6 req),
         after_recv (after_recv (sv_net s) sock 6) sock (length req - 6))"
    using len assms(2) run_network_receive_all [of "int (length req) - 6" "length req - 6"
        "after_recv (sv_net s) sock 6" sock] by simp
  moreover have tk: "take 6 req @ drop 6 req @ x = req @ x" for x
    by (metis append_assoc append_take_drop_id)
  moreover have "uint (pkt_length req) = int (length req)"
    using len(3) by (metis uint_nat)
  moreover obtain r s' where "run_state (dispatch P E sock (pkt_number req)) (loaded sock req s) = (r, s')"
    by force
  ultimately show ?thesis
    using len pl pkt_number_append [OF len(1)]
    by (simp add: thread_round_def on_net_def loaded_def Let_def tk)
qed

section \<open>Staying inside the buffers\<close>

text \<open>
  The invariant of the server: the packet buffer has its 518 bytes, the table its ten entries; an
  entry with an open directory has a path name, and path names have at most 255 bytes.
\<close>

definition entry_ok :: "dd_entry \<Rightarrow> bool" where
  "entry_ok e \<longleftrightarrow> (case dd_pathname e of None \<Rightarrow> dd_dir e = None | Some p \<Rightarrow> length p \<le> 255)"

definition server_ok :: "'f server \<Rightarrow> bool" where
  "server_ok s \<longleftrightarrow> length (sv_packet s) = 518 \<and> length (sv_dd s) = 10 \<and> list_all entry_ok (sv_dd s)"

text \<open>
  What is relied on of the host: a directory entry has at most 255 bytes (\<open>NAME_MAX\<close>), and \<open>malloc\<close>
  does not fail below two gigabytes, and \<open>localtime\<close> converts the times of the files.
\<close>

definition host_ok :: "'f posix \<Rightarrow> bool" where
  "host_ok P \<longleftrightarrow> (\<forall>dir f. case p_readdir P dir f of (None, _) \<Rightarrow> True | (Some d, _) \<Rightarrow> length d \<le> 255)
     \<and> (\<forall>n f. n < 2 ^ 31 \<longrightarrow> fst (p_malloc P n f)) \<and> (\<forall>t. p_localtime P t \<noteq> None)"

definition safely :: "'f server \<Rightarrow> 'f server \<Rightarrow> bool" where
  "safely s s' \<longleftrightarrow> (server_ok s \<longrightarrow> server_ok s' \<and> sv_fault s' = sv_fault s)"

interpretation safe: step_preorder safely
  by unfold_locales (auto simp: safely_def)

lemma safe_step:
  assumes "\<And>s a t. server_ok s \<Longrightarrow> run_state m s = (a, t) \<Longrightarrow> server_ok t \<and> sv_fault t = sv_fault s \<and> Q a"
    and "\<And>a. Q a \<Longrightarrow> state_io_rel safely (f a)"
  shows "state_io_rel safely (State_Monad.bind m f)"
  unfolding state_io_rel_def safely_def
proof (intro allI impI)
  fix s :: "'a server" assume ok: "server_ok s"
  obtain a t where m: "run_state m s = (a, t)" by force
  obtain b u where f: "run_state (f a) t = (b, u)" by force
  from assms(1) [OF ok m] have t: "server_ok t" "sv_fault t = sv_fault s" "Q a" by blast+
  have "safely t u"
    using assms(2) [OF t(3)] f by (auto simp: state_io_rel_def dest!: spec [of _ t])
  with t m f show "server_ok (snd (run_state (State_Monad.bind m f) s))
      \<and> sv_fault (snd (run_state (State_Monad.bind m f) s)) = sv_fault s"
    by (simp add: safely_def)
qed

lemma server_ok_upd [simp]:
  "server_ok (s\<lparr>sv_net := n\<rparr>) = server_ok s" "server_ok (s\<lparr>sv_fs := f\<rparr>) = server_ok s"
  "server_ok (s\<lparr>sv_ping_fd := fd\<rparr>) = server_ok s" "server_ok (s\<lparr>sv_ping_answered := b\<rparr>) = server_ok s"
  "length p = 518 \<Longrightarrow> server_ok s \<Longrightarrow> server_ok (s\<lparr>sv_packet := p\<rparr>)"
  "entry_ok e \<Longrightarrow> server_ok s \<Longrightarrow> server_ok (s\<lparr>sv_dd := (sv_dd s)[i := e]\<rparr>)"
  by (auto simp: server_ok_def list_all_iff dest!: set_update_subset_insert [THEN subsetD])

lemma safe_on_fs: "state_io_rel safely (on_fs g)"
  by (auto simp: state_io_rel_def safely_def on_fs_def split: prod.splits)

lemma safe_on_net: "state_io_rel safely (on_net m)"
  by (auto simp: state_io_rel_def safely_def on_net_def split: prod.splits)

lemma safe_modify:
  "(\<And>s. server_ok s \<Longrightarrow> server_ok (h s) \<and> sv_fault (h s) = sv_fault s) \<Longrightarrow> state_io_rel safely (modify h)"
  by (auto simp: state_io_rel_def safely_def)

lemmas safes = safe.keeps safe_on_fs safe_on_net

lemma safe_malloc:
  assumes "host_ok P" and "n < 2 ^ 31" and "state_io_rel safely (f True)"
  shows "state_io_rel safely (State_Monad.bind (on_fs (p_malloc P n)) f)"
proof (rule safe_step [where Q = "\<lambda>ok. ok"])
  show "server_ok t \<and> sv_fault t = sv_fault s \<and> ok"
    if "server_ok s" "run_state (on_fs (p_malloc P n)) s = (ok, t)" for s t :: "'a server" and ok
  proof -
    obtain b f' where mf: "p_malloc P n (sv_fs s) = (b, f')" by force
    with assms(1,2) have "b" unfolding host_ok_def by (metis fst_conv)
    with that mf show ?thesis by (auto simp: on_fs_def)
  qed
qed (use assms(3) in simp)

lemma safe_readdir_call:
  assumes "host_ok P" and "\<And>d. case d of None \<Rightarrow> True | Some d \<Rightarrow> length d \<le> 255 \<Longrightarrow> state_io_rel safely (f d)"
  shows "state_io_rel safely (State_Monad.bind (on_fs (p_readdir P dir)) f)"
proof (rule safe_step [where Q = "\<lambda>d. case d of None \<Rightarrow> True | Some d \<Rightarrow> length d \<le> 255"])
  show "server_ok t \<and> sv_fault t = sv_fault s \<and> (case d of None \<Rightarrow> True | Some d \<Rightarrow> length d \<le> 255)"
    if "server_ok s" "run_state (on_fs (p_readdir P dir)) s = (d, t)" for s t :: "'a server" and d
    using that assms(1) unfolding host_ok_def
    by (auto simp: on_fs_def split: prod.splits option.splits)
qed (use assms(2) in simp)

lemma safe_times:
  assumes "host_ok P" and "\<And>x. state_io_rel safely (f x)"
  shows "state_io_rel safely (case ps2_times P old st of None \<Rightarrow> fault | Some x \<Rightarrow> f x)"
proof -
  have t: "p_localtime P t \<noteq> None" for t using assms(1) unfolding host_ok_def by blast
  from t [of "st_ctim st"] t [of "st_atim st"] t [of "st_mtim st"] have "ps2_times P old st \<noteq> None"
    by (auto simp: ps2_times_def split: prod.splits)
  with assms(2) show ?thesis by (auto split: option.split)
qed

lemma safe_lookup:
  assumes "state_io_rel safely (f None)"
    and "\<And>i p dir. length p \<le> 255 \<Longrightarrow> state_io_rel safely (f (Some (i, Some p, dir)))"
  shows "state_io_rel safely (State_Monad.bind (gets (\<lambda>s. dd_lookup (sv_dd s) w)) f)"
proof (rule safe_step [where Q = "\<lambda>e. e = None \<or> (\<exists>i p dir. e = Some (i, Some p, dir) \<and> length p \<le> 255)"])
  show "server_ok t \<and> sv_fault t = sv_fault s
      \<and> (e = None \<or> (\<exists>i p dir. e = Some (i, Some p, dir) \<and> length p \<le> 255))"
    if ok: "server_ok s" and run: "run_state (gets (\<lambda>s. dd_lookup (sv_dd s) w)) s = (e, t)"
    for s t :: "'a server" and e
  proof (cases "unat w < 10")
    case True
    with ok have "entry_ok (sv_dd s ! unat w)"
      by (simp add: server_ok_def list_all_length)
    with run ok show ?thesis
      by (auto simp: dd_lookup_def entry_ok_def split: option.splits if_splits)
  next
    case False
    with run ok show ?thesis by (auto simp: dd_lookup_def)
  qed
qed (use assms in auto)

text \<open>Where the name stands in the requests that have one.\<close>

definition name_offset :: "u32 \<Rightarrow> nat option" where
  "name_offset number =
     (if number \<in> {PS2LINK_REQUEST_OPEN, PS2LINK_REQUEST_OPENDIR, PS2LINK_REQUEST_MKDIR} then Some 10
      else if number \<in> {PS2LINK_REQUEST_REMOVE, PS2LINK_REQUEST_RMDIR, PS2LINK_REQUEST_GETSTAT} then Some 6
      else None)"

definition name_ok :: "byte list \<Rightarrow> bool" where
  "name_ok req = (case name_offset (pkt_number req) of None \<Rightarrow> True
     | Some off \<Rightarrow> nul_terminated (take 256 (drop off req)))"

lemma length_host_path: "length (host_path s) \<le> max 1 (length s)"
  by (auto simp: host_path_def Let_def split: list.splits)

lemma cstr_take: "nul_terminated (take n buf) \<Longrightarrow> cstr (take n buf) = cstr buf"
  by (metis append_take_drop_id cstr_append_nul cstr_nul_free append_assoc append_Cons nul_terminated_split)

text \<open>A handler runs with the name that \<open>host_path\<close> makes of the field, in the space of the field.\<close>

lemma run_with_pathname:
  assumes "nul_terminated (take 256 (drop off (sv_packet s)))" and "off + 256 \<le> length (sv_packet s)"
  obtains area where "length area = length (sv_packet s) - off"
    and "\<And>k. run_state (with_pathname off k) s
      = run_state (k (host_path (pkt_string (sv_packet s) off))) (s\<lparr>sv_packet := take off (sv_packet s) @ area\<rparr>)"
proof -
  let ?f = "drop off (sv_packet s)"
  have nt: "nul_terminated ?f" using assms(1) in_set_takeD by (auto simp: nul_terminated_def)
  moreover have "2 \<le> length ?f" using assms(2) by simp
  ultimately obtain rest where r: "fix_pathname ?f = Some (host_path (cstr ?f) @ 0 # rest)"
    "length (host_path (cstr ?f)) + length rest + 1 = length ?f"
    using fix_pathname_area by metis
  moreover have "cstr ?f = pkt_string (sv_packet s) off"
    using cstr_take [OF assms(1)] by (simp add: pkt_string_def)
  moreover have "cstr (host_path (cstr ?f) @ 0 # rest) = host_path (cstr ?f)" by simp
  ultimately show thesis
    using that [of "host_path (cstr ?f) @ 0 # rest"] by (simp add: with_pathname_def)
qed

lemma request_name_length:
  assumes "nul_terminated (take 256 (drop off pkt))"
  shows "length (host_path (pkt_string pkt off)) \<le> 255"
  using length_cstr_less [OF assms] length_host_path [of "pkt_string pkt off"]
  by (auto simp: pkt_string_def max_def split: if_splits)

lemma safe_with_pathname:
  assumes "nul_terminated (take 256 (drop off (sv_packet s)))" and "off \<le> 10" and "server_ok s"
    and "\<And>name. length name \<le> 255 \<Longrightarrow> state_io_rel safely (k name)"
  shows "safely s (snd (run_state (with_pathname off k) s))"
proof -
  have l: "length (sv_packet s) = 518" using assms(3) by (simp add: server_ok_def)
  have "off + 256 \<le> length (sv_packet s)" using l assms(2) by simp
  then obtain area where a: "length area = length (sv_packet s) - off"
    "\<And>k. run_state (with_pathname off k) s = run_state (k (host_path (pkt_string (sv_packet s) off)))
       (s\<lparr>sv_packet := take off (sv_packet s) @ area\<rparr>)"
    by (rule run_with_pathname [OF assms(1)]) (rule that)
  from assms(4) [OF request_name_length [OF assms(1)]] have "safely t (snd (run_state (k (host_path (pkt_string (sv_packet s) off))) t))" for t
    by (auto simp: state_io_rel_def)
  from this [of "s\<lparr>sv_packet := take off (sv_packet s) @ area\<rparr>"] show ?thesis
    using a assms(2,3) l by (simp add: safely_def)
qed

lemma safe_packet:
  "(\<And>pkt. length pkt = 518 \<Longrightarrow> state_io_rel safely (f pkt)) \<Longrightarrow>
     state_io_rel safely (State_Monad.bind (gets sv_packet) f)"
  by (rule safe_step [where Q = "\<lambda>pkt. length pkt = 518"]) (auto simp: server_ok_def)

lemma dispatch_safe:
  assumes "host_ok P" and "server_ok s" and "pkt_number (sv_packet s) = number" and "name_ok (sv_packet s)"
  shows "safely s (snd (run_state (dispatch P E sock number) s))"
proof (cases "name_offset number")
  case (Some off)
  then have nt: "nul_terminated (take 256 (drop off (sv_packet s)))" and off: "off \<le> 10"
    using assms(3,4) by (auto simp: name_ok_def name_offset_def split: if_splits)
  have named: "safely s (snd (run_state (with_pathname o' k) s))"
    if "off = o'" and "\<And>name. length name \<le> 255 \<Longrightarrow> state_io_rel safely (k name)" for o' k
    using that safe_with_pathname [OF nt off assms(2)] by simp
  have "off = 10 \<Longrightarrow> safely s (snd (run_state (ps2link_request_open P sock) s))"
    unfolding ps2link_request_open_def
    by (erule named)
       (intro safe_packet safes safe_modify; simp)
  moreover have "off = 10 \<Longrightarrow> safely s (snd (run_state (ps2link_request_opendir P sock) s))"
    unfolding ps2link_request_opendir_def
    by (erule named, rule safe.keeps_bind [OF safe_on_fs])
       (intro safe.keeps_if safe_malloc [OF assms(1)] safes safe_modify; simp add: entry_ok_def)
  moreover have "off = 10 \<Longrightarrow> safely s (snd (run_state (ps2link_request_mkdir P sock) s))"
    unfolding ps2link_request_mkdir_def by (erule named) (intro safes)
  moreover have "off = 6 \<Longrightarrow> safely s (snd (run_state (ps2link_request_remove P sock) s))"
    unfolding ps2link_request_remove_def by (erule named) (intro safes)
  moreover have "off = 6 \<Longrightarrow> safely s (snd (run_state (ps2link_request_rmdir P sock) s))"
    unfolding ps2link_request_rmdir_def by (erule named) (intro safes)
  moreover have "off = 6 \<Longrightarrow> safely s (snd (run_state (ps2link_request_getstat P (e_response E) sock) s))"
    unfolding ps2link_request_getstat_def by (erule named) (intro safes safe_times [OF assms(1)])
  ultimately show ?thesis
    using Some by (auto simp: name_offset_def dispatch_def request_numbers split: if_splits)
next
  case None
  have "state_io_rel safely (ps2link_request_close P sock)"
    unfolding ps2link_request_close_def by (intro safes safe_modify) simp
  moreover have "state_io_rel safely (ps2link_request_read P sock)"
    unfolding ps2link_request_read_def by (intro safes)
  moreover have "state_io_rel safely (ps2link_request_write P (e_heap E) sock)"
    unfolding ps2link_request_write_def by (intro safes)
  moreover have "state_io_rel safely (ps2link_request_lseek P sock)"
    unfolding ps2link_request_lseek_def by (intro safes)
  moreover have "state_io_rel safely (ps2link_request_closedir P sock)"
    unfolding ps2link_request_closedir_def
    by (intro safes safe_modify) (simp add: entry_ok_def)
  moreover have "state_io_rel safely (ps2link_request_readdir P (e_stack E) (e_response E) sock)"
    unfolding ps2link_request_readdir_def
    by (rule safe_packet, rule safe_lookup, simp add: safe_on_net, simp, rule safe_readdir_call [OF assms(1)])
       (auto simp: Let_def intro!: safes safe_times [OF assms(1)] split: option.split)
  ultimately have "state_io_rel safely (dispatch P E sock number)"
    using None safe.keeps_ret by (auto simp: name_offset_def dispatch_def split: if_splits)
  then show ?thesis by (auto simp: state_io_rel_def)
qed

section \<open>Serving a stream of requests\<close>

text \<open>
  What the PS2 sends for one request: a frame, and after a write request the data. A message is in
  order if its name fits its field and the data has the length the request announces.
\<close>

definition message_ok :: "byte list \<times> byte list \<Rightarrow> bool" where
  "message_ok m = (case m of (req, data) \<Rightarrow> request_frame req \<and> name_ok req
     \<and> (if pkt_number req = PS2LINK_REQUEST_WRITE
        then 14 \<le> length req \<and> length data = unat (pkt_word req 10) \<and> length data < 2 ^ 31
        else data = []))"

definition known_numbers :: "u32 list" where
  "known_numbers = [PS2LINK_REQUEST_OPEN, PS2LINK_REQUEST_CLOSE, PS2LINK_REQUEST_READ, PS2LINK_REQUEST_WRITE,
     PS2LINK_REQUEST_LSEEK, PS2LINK_REQUEST_OPENDIR, PS2LINK_REQUEST_CLOSEDIR, PS2LINK_REQUEST_READDIR,
     PS2LINK_REQUEST_REMOVE, PS2LINK_REQUEST_MKDIR, PS2LINK_REQUEST_RMDIR, PS2LINK_REQUEST_GETSTAT]"

text \<open>The answer to a message: none if the number is unknown.\<close>

definition answer_of :: "byte list \<times> byte list \<Rightarrow> byte list \<Rightarrow> bool" where
  "answer_of m bytes = (if pkt_number (fst m) \<in> set known_numbers then answer_to (pkt_number (fst m)) bytes
     else bytes = [])"

text \<open>The host with the buffer for a transfer there: a big one comes from \<open>malloc\<close>.\<close>

definition buffer_host :: "'f posix \<Rightarrow> nat \<Rightarrow> 'f \<Rightarrow> 'f" where
  "buffer_host P n f = (if 65536 < n then snd (p_malloc P n f) else f)"

lemma loaded_views:
  assumes "request_frame req" and "net_inbox (sv_net s) sock = req @ rest"
  shows "net_inbox (sv_net (loaded sock req s)) sock = rest"
    and "net_outbox (sv_net (loaded sock req s)) = net_outbox (sv_net s)"
    and "net_writable (sv_net (loaded sock req s)) = net_writable (sv_net s)"
    and "sv_fault (loaded sock req s) = sv_fault s"
    and "sv_fs (loaded sock req s) = sv_fs s"
    and "server_ok s \<Longrightarrow> server_ok (loaded sock req s)"
    and "pkt_number (sv_packet (loaded sock req s)) = pkt_number req"
  using assms by (auto simp: loaded_def request_frame_def pkt_number_append server_ok_def)

lemma name_ok_loaded:
  assumes "request_frame req" and "name_ok req"
  shows "name_ok (sv_packet (loaded sock req s))"
proof -
  have n: "pkt_number (req @ x) = pkt_number req" for x
    using assms(1) by (simp add: request_frame_def pkt_number_append)
  show ?thesis
    using assms(2) by (auto simp: loaded_def name_ok_def n nul_terminated_def split: option.splits)
qed

text \<open>A write request passes on exactly the data that follows it, and reports what \<open>write\<close> returns.\<close>

lemma run_write:
  assumes ok: "message_ok (req, data)" and wr: "pkt_number req = PS2LINK_REQUEST_WRITE"
    and inb: "net_inbox (sv_net s) sock = req @ data @ rest" and "net_writable (sv_net s) sock"
    and "host_ok P" and "server_ok s"
    and w: "sys_write P (sint (pkt_word req 6)) data (buffer_host P (length data) (sv_fs s)) = (r, f')"
  obtains s' where "run_state (thread_round P E sock) s = (True, s')"
    and "net_inbox (sv_net s') sock = rest" and "sv_fs s' = f'"
    and "net_outbox (sv_net s') = (net_outbox (sv_net s))(sock := net_outbox (sv_net s) sock
           @ response_result PS2LINK_RESPONSE_WRITE (c_int r))"
proof -
  let ?s = "loaded sock req s" let ?n = "length data"
  have fr: "request_frame req" and len: "14 \<le> length req" "?n = unat (pkt_word req 10)" "?n < 2 ^ 31"
    using ok wr by (auto simp: message_ok_def)
  have p: "pkt_word (sv_packet ?s) 6 = pkt_word req 6" "pkt_word (sv_packet ?s) 10 = pkt_word req 10"
    using len(1) by (auto simp: loaded_def pkt_word_append)
  note v = loaded_views [OF fr inb]
  have c: "c_int (int ?n) = int ?n" using len(3) by simp
  obtain f1 where m: "p_malloc P ?n (sv_fs s) = (True, f1)"
    using assms(5) len(3) unfolding host_ok_def by (metis eq_fst_iff)
  have rc: "run_state (network_receive_all sock (int ?n)) (sv_net ?s)
      = ((int ?n, data), after_recv (sv_net ?s) sock ?n)"
    using v(1) by simp
  let ?t = "?s\<lparr>sv_net := after_send (after_recv (sv_net ?s) sock ?n) sock
      (response_result PS2LINK_RESPONSE_WRITE (c_int r)), sv_fs := f'\<rparr>"
  have "run_state (ps2link_request_write P (e_heap E) sock) ?s = (0, ?t)"
    using v assms(4) w c m rc
    by (cases "65536 < ?n")
       (simp_all add: ps2link_request_write_def p len(2) [symmetric] on_net_def on_fs_def buffer_host_def
        ps2link_response_write_def Let_def)
  then have "run_state (dispatch P E sock PS2LINK_REQUEST_WRITE) ?s = (0, ?t)"
    by (simp add: dispatch_def request_numbers)
  moreover have "length (sv_packet s) = 518" using assms(6) by (simp add: server_ok_def)
  ultimately show thesis
    using thread_round_frame [OF fr inb, of P E] that [of ?t] v wr assms(4)
    by simp
qed

definition env_ok :: "env \<Rightarrow> bool" where
  "env_ok E \<longleftrightarrow> wf_stack (e_stack E) \<and> wf_stack (e_response E)"

text \<open>The state in which the thread can take the next message.\<close>

definition ready :: "int \<Rightarrow> 'f server \<Rightarrow> bool" where
  "ready sock s \<longleftrightarrow> server_ok s \<and> \<not> sv_fault s \<and> net_writable (sv_net s) sock"

lemma round_ready:
  assumes "message_ok (req, data)" and "net_inbox (sv_net s) sock = req @ data @ rest"
    and "host_ok P" and "ready sock s" and "run_state (thread_round P E sock) s = (b, s')"
  shows "ready sock s'"
proof -
  let ?s = "loaded sock req s"
  have fr: "request_frame req" and nm: "name_ok req" using assms(1) by (auto simp: message_ok_def)
  have ok: "server_ok s" "length (sv_packet s) = 518" "\<not> sv_fault s" "net_writable (sv_net s) sock"
    using assms(4) by (auto simp: ready_def server_ok_def)
  note v = loaded_views [OF fr assms(2)]
  have s': "s' = snd (run_state (dispatch P E sock (pkt_number req)) ?s)"
    using thread_round_frame [OF fr assms(2) ok(2), of P E] assms(5) by simp
  have "safely ?s s'"
    unfolding s' using dispatch_safe [OF assms(3) v(6) [OF ok(1)] v(7) name_ok_loaded [OF fr nm]] .
  moreover have "net_writable (sv_net ?s) sock \<longrightarrow> net_writable (sv_net s') sock"
    using writable.net_dispatch_any [OF TrueI, of sock P E sock "pkt_number req"]
    unfolding s' by (auto simp: state_io_rel_def over_net_def)
  ultimately show ?thesis
    using v ok by (simp add: ready_def safely_def)
qed

lemma message_round:
  assumes "message_ok (req, data)" and "net_inbox (sv_net s) sock = req @ data @ rest"
    and "host_ok P" and "env_ok E" and "ready sock s"
  obtains s' bytes where "run_state (thread_round P E sock) s = (True, s')"
    and "net_inbox (sv_net s') sock = rest" and "ready sock s'" and "answer_of (req, data) bytes"
    and "net_outbox (sv_net s') = (net_outbox (sv_net s))(sock := net_outbox (sv_net s) sock @ bytes)"
proof (cases "pkt_number req = PS2LINK_REQUEST_WRITE")
  case True
  have ok: "net_writable (sv_net s) sock" "server_ok s" using assms(5) by (simp_all add: ready_def)
  obtain r f' where w: "sys_write P (sint (pkt_word req 6)) data (buffer_host P (length data) (sv_fs s)) = (r, f')"
    by force
  obtain s' where "run_state (thread_round P E sock) s = (True, s')"
    "net_inbox (sv_net s') sock = rest" "net_outbox (sv_net s') = (net_outbox (sv_net s))(sock :=
       net_outbox (sv_net s) sock @ response_result PS2LINK_RESPONSE_WRITE (c_int r))"
    by (rule run_write [OF assms(1) True assms(2) ok(1) assms(3) ok(2) w, of E])
  moreover have "answer_of (req, data) (response_result PS2LINK_RESPONSE_WRITE (c_int r))"
    using True by (simp add: answer_of_def known_numbers_def answer_to_def response_result_def)
  ultimately show thesis using round_ready assms that by blast
next
  case False
  let ?s = "loaded sock req s"
  have fr: "request_frame req" and inb: "net_inbox (sv_net s) sock = req @ rest" "data = []"
    and ok: "length (sv_packet s) = 518" "\<not> sv_fault s" "net_writable (sv_net s) sock"
    using assms False by (auto simp: message_ok_def ready_def server_ok_def)
  note v = loaded_views [OF fr inb(1)]
  obtain r s' where d: "run_state (dispatch P E sock (pkt_number req)) ?s = (r, s')" by force
  with thread_round_frame [OF fr inb(1) ok(1), of P E]
  have run: "run_state (thread_round P E sock) s = (True, s')" by simp
  have rest: "net_inbox (sv_net s') sock = rest"
    using input.net_dispatch [OF TrueI False, of P E sock] d v(1)
    by (auto simp: state_io_rel_def over_net_def dest!: spec [of _ ?s])
  have rd: "ready sock s'" using round_ready [OF assms(1-3,5) run] .
  show thesis
  proof (cases "pkt_number req \<in> set known_numbers")
    case True
    then have "answering sock (pkt_number req) (dispatch P E sock (pkt_number req))"
      using False assms(4) by (intro dispatch_answers) (auto simp: known_numbers_def env_ok_def)
    with d v(3) ok(3) rd have "answers sock (pkt_number req) ?s s'"
      by (auto simp: answering_def ready_def dest!: spec [of _ ?s])
    with True v(2) that [OF run rest rd] show thesis
      by (auto simp: answers_def answer_of_def)
  next
    case nk: False
    then have "s' = ?s" using d by (auto simp: dispatch_def known_numbers_def split: if_splits)
    with nk v(2) that [OF run rest rd, of "[]"] show thesis by (simp add: answer_of_def)
  qed
qed

lemma thread_round_end:
  assumes "net_inbox (sv_net s) sock = []"
  shows "\<exists>s'. run_state (thread_round P E sock) s = (False, s') \<and> net_outbox (sv_net s') = net_outbox (sv_net s)
    \<and> sv_dd s' = sv_dd s \<and> sv_fault s' = sv_fault s \<and> server_ok s' = server_ok s"
  using assms by (simp add: thread_round_def on_net_def server_ok_def)

lemma thread_loop_serves:
  assumes "host_ok P" and "\<And>i. env_ok (Es i)"
  shows "list_all message_ok ms \<Longrightarrow> ready sock s \<Longrightarrow>
    net_inbox (sv_net s) sock = concat (map (\<lambda>(req, data). req @ data) ms) \<Longrightarrow>
    \<exists>answers. list_all2 answer_of ms answers
      \<and> net_outbox (sv_net (thread_loop P Es sock i s)) sock = net_outbox (sv_net s) sock @ concat answers
      \<and> server_ok (thread_loop P Es sock i s) \<and> \<not> sv_fault (thread_loop P Es sock i s)"
proof (induction ms arbitrary: s i)
  case Nil
  with thread_round_end [of s sock P "Es i"] show ?case
    by (subst (1 2 3) thread_loop.simps) (auto simp: ready_def)
next
  case (Cons m ms)
  obtain req data where m: "m = (req, data)" by force
  let ?rest = "concat (map (\<lambda>(req, data). req @ data) ms)"
  have mo: "message_ok (req, data)" and inb: "net_inbox (sv_net s) sock = req @ data @ ?rest"
    using Cons.prems m by simp_all
  obtain s' bytes where r: "run_state (thread_round P (Es i) sock) s = (True, s')"
      "net_inbox (sv_net s') sock = ?rest" "ready sock s'" "answer_of m bytes"
      "net_outbox (sv_net s') = (net_outbox (sv_net s))(sock := net_outbox (sv_net s) sock @ bytes)"
    using message_round [OF mo inb assms(1) assms(2) [of i] Cons.prems(2)] m by metis
  from Cons.IH [of s' "Suc i"] Cons.prems(1) r(2,3) obtain answers where
    "list_all2 answer_of ms answers"
    "net_outbox (sv_net (thread_loop P Es sock (Suc i) s')) sock = net_outbox (sv_net s') sock @ concat answers"
    "server_ok (thread_loop P Es sock (Suc i) s')" "\<not> sv_fault (thread_loop P Es sock (Suc i) s')"
    by auto
  with r show ?case
    by (subst (1 2 3) thread_loop.simps) (intro exI [of _ "bytes # answers"], simp)
qed

section \<open>Properties\<close>

text \<open>(C1) The request thread serves a whole stream of requests. If the PS2 sends any number of requests
  in order, in whatever pieces they arrive, and then closes the connection, then the thread comes to
  an end, has sent exactly one answer to each request in the order of the requests (nothing for an
  unknown number), each with the right number and a length that agrees with its header, has never
  left its buffers, has kept the table of directories well-formed, and reports the connection lost.\<close>

theorem requests_served:
  assumes "host_ok P" and "\<And>i. env_ok (Es i)" and "0 \<le> sock" and "ready sock s"
    and "list_all message_ok ms"
    and "net_inbox (sv_net s) sock = concat (map (\<lambda>(req, data). req @ data) ms)"
  shows "case ps2link_thread_request P Es sock s of (s', lost) \<Rightarrow> lost \<and> server_ok s' \<and> \<not> sv_fault s'
    \<and> (\<exists>answers. list_all2 answer_of ms answers
         \<and> net_outbox (sv_net s') sock = net_outbox (sv_net s) sock @ concat answers)"
  using thread_loop_serves [where Es = Es and i = 0, OF assms(1,2,5,4,6)] assms(3) by (auto simp: ps2link_thread_request_def)

definition sample_host :: "unit posix" where
  "sample_host = \<lparr>p_open = (\<lambda>_ _ _ f. (3, f)), p_close = (\<lambda>_ f. (0, f)), p_read = (\<lambda>_ n f. (Some (replicate n 7), f)),
     p_write = (\<lambda>_ bs f. (int (length bs), f)), p_lseek = (\<lambda>_ off _ f. (off, f)), 
     p_stat = (\<lambda>_ f. (Some \<lparr>st_mode = 0x41ED, st_size = 4096, st_ctim = 0, st_atim = 0, st_mtim = 0\<rparr>, f)),
     p_opendir = (\<lambda>_ f. (Some 1, f)), p_readdir = (\<lambda>_ f. (Some (lit ''a''), f)), p_closedir = (\<lambda>_ f. (0, f)),
     p_remove = (\<lambda>_ f. (0, f)), p_mkdir = (\<lambda>_ _ f. (0, f)), p_rmdir = (\<lambda>_ f. (0, f)),
     p_malloc = (\<lambda>_ f. (True, f)), p_localtime = (\<lambda>_. Some \<lparr>tm_sec = 0, tm_min = 0, tm_hour = 0, tm_mday = 1, tm_mon = 0, tm_year = 100\<rparr>)\<rparr>"

definition sample_env :: env where
  "sample_env = (let t = replicate 8 0xAA; st = \<lparr>j_ctime = t, j_atime = t, j_mtime = t, j_name = replicate 256 0xAA,
     j_stat = \<lparr>st_mode = 0, st_size = 0, st_ctim = 0, st_atim = 0, st_mtim = 0\<rparr>\<rparr>
     in \<lparr>e_heap = (\<lambda>_. 0xAA), e_stack = st, e_response = st\<rparr>)"

definition sample_server :: "byte list \<Rightarrow> unit server" where
  "sample_server bs = \<lparr>sv_net = (\<lambda>_. \<lparr>rx = [Rx_Data bs], tx = [], tx_plan = []\<rparr>), sv_fs = (),
     sv_packet = replicate 518 0, sv_dd = replicate 10 \<lparr>dd_pathname = None, dd_dir = None\<rparr>,
     sv_ping_fd = -1, sv_ping_answered = False, sv_fault = False\<rparr>"

lemma sample_ok: "host_ok sample_host" "env_ok sample_env"
  by (simp_all add: host_ok_def sample_host_def lit_def env_ok_def sample_env_def wf_stack_def Let_def)

lemma sample_server_ready: "ready sock (sample_server bs)"
  by (simp add: ready_def sample_server_def server_ok_def entry_ok_def net_writable_def list_all_iff)

lemma sample_server_inbox: "net_inbox (sv_net (sample_server bs)) sock = bs"
  by (simp add: sample_server_def net_inbox_def)

lemma sample_server_outbox: "net_outbox (sv_net (sample_server bs)) sock = []"
  by (simp add: sample_server_def net_outbox_def)

lemma sample_write: "sys_write sample_host fd bs f = (int (length bs), f)"
  by (simp add: sample_host_def sys_write_def)

definition sample_messages :: "(byte list \<times> byte list) list" where
  "sample_messages = [(packet PS2LINK_REQUEST_WRITE (be32 5 @ be32 3), [1, 2, 3]),
     (packet PS2LINK_REQUEST_CLOSE (be32 5), []), (packet PS2LINK_REQUEST_REMOVE (lit ''a'' @ [0]), [])]"

lemma sample_messages_ok: "list_all message_ok sample_messages"
  by (simp add: sample_messages_def message_ok_def request_frame_def name_ok_def name_offset_def
      nul_terminated_def pkt_word_def request_numbers lit_def)

theorem requests_served_witness:
  "case ps2link_thread_request sample_host (\<lambda>_. sample_env) 4
      (sample_server (concat (map (\<lambda>(req, data). req @ data) sample_messages))) of (s', lost) \<Rightarrow>
    lost \<and> server_ok s' \<and> \<not> sv_fault s' \<and> (\<exists>answers. list_all2 answer_of sample_messages answers
      \<and> net_outbox (sv_net s') 4 = concat answers)"
  using requests_served [OF sample_ok(1), of "\<lambda>_. sample_env" 4, OF sample_ok(2) _ sample_server_ready
      sample_messages_ok sample_server_inbox]
  by (simp add: sample_server_outbox)

text \<open>(C3) A write request hands exactly the bytes that follow it in the stream to \<open>write\<close>, for any
  size below two gigabytes and whether or not the bytes fit the 64 KiB buffer; it leaves the stream
  at the next request, and answers with what \<open>write\<close> returned.\<close>

theorem write_request_exact:
  assumes "message_ok (req, data)" and "pkt_number req = PS2LINK_REQUEST_WRITE"
    and "net_inbox (sv_net s) sock = req @ data @ rest" and "ready sock s" and "host_ok P"
  shows "case run_state (thread_round P E sock) s of (goes_on, s') \<Rightarrow>
    case sys_write P (sint (pkt_word req 6)) data (buffer_host P (length data) (sv_fs s)) of (r, f') \<Rightarrow>
      goes_on \<and> net_inbox (sv_net s') sock = rest \<and> sv_fs s' = f'
      \<and> net_outbox (sv_net s') sock = net_outbox (sv_net s) sock
           @ packet PS2LINK_RESPONSE_WRITE (be32 (word_of_int (c_int r)))"
proof -
  obtain r f' where w: "sys_write P (sint (pkt_word req 6)) data (buffer_host P (length data) (sv_fs s)) = (r, f')"
    by force
  have "net_writable (sv_net s) sock" "server_ok s" using assms(4) by (simp_all add: ready_def)
  then obtain s' where "run_state (thread_round P E sock) s = (True, s')"
    "net_inbox (sv_net s') sock = rest" "sv_fs s' = f'" "net_outbox (sv_net s') = (net_outbox (sv_net s))(sock :=
       net_outbox (sv_net s) sock @ response_result PS2LINK_RESPONSE_WRITE (c_int r))"
    by (rule run_write [OF assms(1-3) _ assms(5) _ w, of E])
  with w show ?thesis by (simp add: response_result_def)
qed

theorem write_request_exact_witness:
  "case run_state (thread_round sample_host sample_env 4)
      (sample_server (packet PS2LINK_REQUEST_WRITE (be32 5 @ be32 3) @ [1, 2, 3] @ [9])) of (goes_on, s') \<Rightarrow>
    goes_on \<and> net_inbox (sv_net s') 4 = [9]
    \<and> net_outbox (sv_net s') 4 = packet PS2LINK_RESPONSE_WRITE (be32 (word_of_int (c_int 3)))"
proof -
  let ?req = "packet PS2LINK_REQUEST_WRITE (be32 5 @ be32 3)"
  have "message_ok (?req, [1, 2, 3])" using sample_messages_ok by (simp add: sample_messages_def)
  from write_request_exact [OF this _ sample_server_inbox sample_server_ready sample_ok(1), of 4 "[9]" sample_env]
  show ?thesis unfolding sample_write sample_server_outbox by (simp add: case_prod_beta)
qed

end
