(* ===== verification/Link_Service.thy ===== *)
theory Link_Service
  imports Link_Thread
begin

text \<open>
  What the single requests do on the host: the table of directory descriptors as a map, files, and
  the descriptor of the handshake.
\<close>

section \<open>The table of directories\<close>

text \<open>
  The interface of a table of a fixed number of handles: \<open>lookup\<close> tells what a handle stands for,
  \<open>free\<close> finds the lowest handle that stands for nothing, if there is one, and \<open>put\<close> changes one handle.
\<close>

locale handle_table =
  fixes lookup :: "'t \<Rightarrow> nat \<Rightarrow> 'v option"
    and free :: "'t \<Rightarrow> int"
    and put :: "nat \<Rightarrow> 'v option \<Rightarrow> 't \<Rightarrow> 't"
    and ok :: "'t \<Rightarrow> bool"
    and cap :: nat
  assumes free_found: "ok t \<Longrightarrow> free t \<noteq> -1 \<Longrightarrow> 0 \<le> free t \<and> nat (free t) < cap \<and> lookup t (nat (free t)) = None"
    and free_lowest: "ok t \<Longrightarrow> free t \<noteq> -1 \<Longrightarrow> i < nat (free t) \<Longrightarrow> lookup t i \<noteq> None"
    and free_full: "ok t \<Longrightarrow> free t = -1 \<Longrightarrow> i < cap \<Longrightarrow> lookup t i \<noteq> None"
    and lookup_beyond: "ok t \<Longrightarrow> cap \<le> i \<Longrightarrow> lookup t i = None"
    and lookup_put: "ok t \<Longrightarrow> i < cap \<Longrightarrow> lookup (put i v t) = (lookup t)(i := v)"
    and ok_put: "ok t \<Longrightarrow> ok (put i v t)"
begin

definition in_use :: "'t \<Rightarrow> nat set" where
  "in_use t = dom (lookup t)"

lemma in_use_finite: "ok t \<Longrightarrow> in_use t \<subseteq> {..<cap} \<and> finite (in_use t)"
proof -
  assume t: "ok t"
  have "i < cap" if "i \<in> in_use t" for i
    using lookup_beyond [OF t, of i] that by (cases "cap \<le> i") (auto simp: in_use_def)
  then have "in_use t \<subseteq> {..<cap}" by blast
  then show ?thesis using finite_subset by blast
qed

text \<open>A handle is found exactly when fewer than \<open>cap\<close> are in use.\<close>

lemma free_iff: "ok t \<Longrightarrow> free t \<noteq> -1 \<longleftrightarrow> card (in_use t) < cap"
proof
  assume t: "ok t" and "free t \<noteq> -1"
  then have "nat (free t) \<in> {..<cap}" "nat (free t) \<notin> in_use t"
    using free_found by (auto simp: in_use_def)
  with in_use_finite [OF t] have "in_use t \<subset> {..<cap}" by blast
  then show "card (in_use t) < cap" using psubset_card_mono [of "{..<cap}"] by simp
next
  assume t: "ok t" and c: "card (in_use t) < cap"
  show "free t \<noteq> -1"
  proof
    assume "free t = -1"
    from free_full [OF t this] have "{..<cap} \<subseteq> in_use t" by (auto simp: in_use_def)
    with in_use_finite [OF t] have "in_use t = {..<cap}" by blast
    with c show False by simp
  qed
qed

end

text \<open>The table \<open>ps2link_dd\<close>: a handle stands for an open directory and the path it was opened by.\<close>

definition handles :: "dd_entry list \<Rightarrow> nat \<Rightarrow> (byte list option \<times> int) option" where
  "handles dd i = (if i < length dd
     then map_option (Pair (dd_pathname (dd ! i))) (dd_dir (dd ! i)) else None)"

definition put_handle :: "nat \<Rightarrow> (byte list option \<times> int) option \<Rightarrow> dd_entry list \<Rightarrow> dd_entry list" where
  "put_handle i v dd = dd[i := (case v of None \<Rightarrow> \<lparr>dd_pathname = None, dd_dir = None\<rparr>
     | Some (p, d) \<Rightarrow> \<lparr>dd_pathname = p, dd_dir = Some d\<rparr>)]"

lemma dd_free_cases:
  "dd_free k es = -1 \<and> (\<forall>e \<in> set es. dd_dir e \<noteq> None)
   \<or> (\<exists>i < length es. dd_free k es = int (k + i) \<and> dd_dir (es ! i) = None \<and> (\<forall>j < i. dd_dir (es ! j) \<noteq> None))"
proof (induction es arbitrary: k)
  case (Cons e es)
  show ?case
  proof (cases "dd_dir e = None")
    case False
    with Cons.IH [of "Suc k"] consider "dd_free k (e # es) = -1" "\<forall>e \<in> set (e # es). dd_dir e \<noteq> None"
      | i where "i < length es" "dd_free k (e # es) = int (k + Suc i)" "dd_dir ((e # es) ! Suc i) = None"
          "\<forall>j < Suc i. dd_dir ((e # es) ! j) \<noteq> None"
      by (fastforce simp: less_Suc_eq_0_disj)
    then show ?thesis by cases (auto intro: exI [of _ "Suc _"])
  qed (auto intro!: exI [of _ 0])
qed simp

interpretation dd: handle_table handles "dd_free 0" put_handle "\<lambda>dd. length dd = 10" 10
proof
  fix t :: "dd_entry list" and i :: nat and v assume t: "length t = 10"
  note c = dd_free_cases [of 0 t]
  show "0 \<le> dd_free 0 t \<and> nat (dd_free 0 t) < 10 \<and> handles t (nat (dd_free 0 t)) = None"
    if "dd_free 0 t \<noteq> -1"
    using c that t by (auto simp: handles_def)
  show "handles t i \<noteq> None" if "dd_free 0 t \<noteq> -1" "i < nat (dd_free 0 t)"
    using c that t by (auto simp: handles_def)
  show "handles t i \<noteq> None" if "dd_free 0 t = -1" "i < 10"
    using c that t by (auto simp: handles_def dest: nth_mem)
  show "handles (put_handle i v t) = (handles t)(i := v)" if "i < 10"
    using t that by (auto simp: handles_def put_handle_def fun_eq_iff split: option.splits)
qed (auto simp: handles_def put_handle_def)

lemma dd_lookup_handles:
  "length dd = 10 \<Longrightarrow> dd_lookup dd w = map_option (\<lambda>(p, d). (unat w, p, d)) (handles dd (unat w))"
  by (auto simp: dd_lookup_def handles_def split: option.splits)

text \<open>Name and flags of a request, as its handler sees them.\<close>

abbreviation request_name :: "'f server \<Rightarrow> nat \<Rightarrow> byte list" where
  "request_name s off \<equiv> host_path (pkt_string (sv_packet s) off)"

definition names_directory :: "'f posix \<Rightarrow> byte list \<Rightarrow> 'f \<Rightarrow> bool" where
  "names_directory P name f = (case fst (p_stat P name f) of None \<Rightarrow> False | Some st \<Rightarrow> S_ISDIR (st_mode st))"

lemma on_net_run: "run_state (on_net m) s = (fst (run_state m (sv_net s)), s\<lparr>sv_net := snd (run_state m (sv_net s))\<rparr>)"
  by (simp add: on_net_def split: prod.splits)

lemma on_fs_run: "run_state (on_fs g) s = (fst (g (sv_fs s)), s\<lparr>sv_fs := snd (g (sv_fs s))\<rparr>)"
  by (simp add: on_fs_def split: prod.splits)

lemmas handler_runs = on_net_run on_fs_run Let_def

text \<open>(C18) A request to open a directory. If the name is not that of a directory, or ten directories are
  open, the answer is \<open>-1\<close> and the table stays as it was. Otherwise the answer is the lowest descriptor
  that was not in use. If the host's \<open>opendir\<close> succeeds, that descriptor now stands for what it
  returned, under that name; if \<open>opendir\<close> fails, the same descriptor is answered and stands for nothing.
  All other descriptors are unchanged. If there is no memory for the name, the null pointer is written
  through, since the code does not look at what \<open>malloc\<close> returned.\<close>

theorem opendir_spec:
  assumes "server_ok s" and "nul_terminated (take 256 (drop 10 (sv_packet s)))"
  shows "case run_state (ps2link_request_opendir P sock) s of (r, s') \<Rightarrow>
    if names_directory P (request_name s 10) (sv_fs s) \<and> card (dd.in_use (sv_dd s)) < 10 then
      case p_malloc P (length (request_name s 10) + 1) (snd (p_stat P (request_name s 10) (sv_fs s))) of
        (False, f) \<Rightarrow> sv_fault s'
      | (True, f) \<Rightarrow> \<exists>h < 10. handles (sv_dd s) h = None \<and> {..<h} \<subseteq> dd.in_use (sv_dd s)
          \<and> (r, sv_net s') = run_state (ps2link_response_opendir sock (int h)) (sv_net s)
          \<and> (case p_opendir P (request_name s 10) f of
               (None, f') \<Rightarrow> handles (sv_dd s') = handles (sv_dd s) \<and> sv_fs s' = f'
             | (Some dir, f') \<Rightarrow> handles (sv_dd s') = (handles (sv_dd s))(h \<mapsto> (Some (request_name s 10), dir)) \<and> sv_fs s' = f')
    else sv_dd s' = sv_dd s \<and> (r, sv_net s') = run_state (ps2link_response_opendir sock (-1)) (sv_net s)"
proof -
  let ?n = "request_name s 10" let ?h = "dd_free 0 (sv_dd s)"
  have l: "length (sv_packet s) = 518" "length (sv_dd s) = 10" using assms(1) by (auto simp: server_ok_def)
  obtain area where run: "\<And>k. run_state (with_pathname 10 k) s
      = run_state (k ?n) (s\<lparr>sv_packet := take 10 (sv_packet s) @ area\<rparr>)"
    using run_with_pathname [OF assms(2)] l(1) by auto
  have upd: "handles ((sv_dd s)[nat ?h := \<lparr>dd_pathname = Some ?n, dd_dir = dir\<rparr>])
      = (handles (sv_dd s))(nat ?h := map_option (Pair (Some ?n)) dir)" if "?h \<noteq> -1" for dir
    using dd.free_found [OF l(2) that] l(2) by (auto simp: handles_def fun_eq_iff)
  show ?thesis
  proof (cases "names_directory P ?n (sv_fs s) \<and> ?h \<noteq> -1")
    case True
    note h = dd.free_found [OF l(2) conjunct2 [OF True]] dd.free_lowest [OF l(2) conjunct2 [OF True]]
    obtain ok f where m: "p_malloc P (length ?n + 1) (snd (p_stat P ?n (sv_fs s))) = (ok, f)" by force
    obtain dir f' where d: "p_opendir P ?n f = (dir, f')" by force
    have c: "card (dd.in_use (sv_dd s)) < 10" using dd.free_iff [OF l(2)] True by simp
    have low: "{..<nat ?h} \<subseteq> dd.in_use (sv_dd s)" using h(2) by (auto simp: dd.in_use_def)
    have "(handles (sv_dd s))(nat ?h := None) = handles (sv_dd s)" using h(1) by (auto simp: fun_eq_iff)
    with True h(1) low c m d upd show ?thesis
      by (cases ok; cases dir)
         (auto simp: ps2link_request_opendir_def run handler_runs names_directory_def intro!: exI [of _ "nat ?h"])
  next
    case False
    then show ?thesis
      using dd.free_iff [OF l(2)] by (auto simp: ps2link_request_opendir_def run handler_runs names_directory_def)
  qed
qed

definition sample_request :: "byte list \<Rightarrow> unit server" where
  "sample_request req = (sample_server [])\<lparr>sv_packet := req @ replicate (518 - length req) 0\<rparr>"

lemma sample_request_ok: "length req \<le> 518 \<Longrightarrow> server_ok (sample_request req)"
  using sample_server_ready [of 4 "[]"] by (simp add: sample_request_def ready_def)

definition sample_opendir :: "unit server" where
  "sample_opendir = sample_request (packet PS2LINK_REQUEST_OPENDIR (be32 0 @ lit ''/d'' @ [0]))"

lemma sample_opendir_ok: "server_ok sample_opendir" "nul_terminated (take 256 (drop 10 (sv_packet sample_opendir)))"
  unfolding sample_opendir_def
  by (rule sample_request_ok) (simp_all add: sample_request_def nul_terminated_def lit_def)

theorem opendir_spec_witness:
  "case run_state (ps2link_request_opendir sample_host 4) sample_opendir of (r, s') \<Rightarrow>
    (r, sv_net s') = run_state (ps2link_response_opendir 4 0) (sv_net sample_opendir)
    \<and> handles (sv_dd s') 0 = Some (Some (request_name sample_opendir 10), 1)"
proof -
  have n: "names_directory sample_host (request_name sample_opendir 10) (sv_fs sample_opendir)"
    by (simp add: names_directory_def sample_host_def S_ISDIR_def)
  have u: "dd.in_use (sv_dd sample_opendir) = {}"
    by (auto simp: sample_opendir_def sample_request_def sample_server_def dd.in_use_def handles_def split: if_splits)
  have h: "p_opendir sample_host p f = (Some 1, f)" "p_malloc sample_host k f = (True, f)" for p f k
    by (simp_all add: sample_host_def)
  from opendir_spec [OF sample_opendir_ok, of sample_host 4] n show ?thesis
    by (auto simp: u h lessThan_empty_iff split: prod.splits)
qed

text \<open>(C19) A request to close a directory: for a descriptor in use the directory it stands for is closed,
  the descriptor stands for nothing afterwards, all others are unchanged and the answer is what
  \<open>closedir\<close> returned; for any other number, however big, the answer is \<open>-1\<close> and nothing changes.\<close>

theorem closedir_spec:
  assumes "server_ok s"
  shows "case run_state (ps2link_request_closedir P sock) s of (r, s') \<Rightarrow>
    (case handles (sv_dd s) (unat (pkt_word (sv_packet s) 6)) of
       None \<Rightarrow> sv_dd s' = sv_dd s \<and> sv_fs s' = sv_fs s
         \<and> (r, sv_net s') = run_state (ps2link_response_closedir sock (-1)) (sv_net s)
     | Some (path, dir) \<Rightarrow>
         handles (sv_dd s') = (handles (sv_dd s))(unat (pkt_word (sv_packet s) 6) := None)
         \<and> sv_fs s' = snd (p_closedir P dir (sv_fs s))
         \<and> (r, sv_net s') = run_state (ps2link_response_closedir sock (fst (p_closedir P dir (sv_fs s)))) (sv_net s))"
proof -
  let ?i = "unat (pkt_word (sv_packet s) 6)"
  have l: "length (sv_dd s) = 10" using assms by (simp add: server_ok_def)
  show ?thesis
  proof (cases "handles (sv_dd s) ?i")
    case None
    then show ?thesis
      by (simp add: ps2link_request_closedir_def dd_lookup_handles l handler_runs)
  next
    case (Some e)
    then have "?i < 10" using dd.lookup_beyond [OF l, of ?i] by (cases "10 \<le> ?i") auto
    from dd.lookup_put [OF l this, of None] Some show ?thesis
      by (cases e) (simp add: ps2link_request_closedir_def dd_lookup_handles l handler_runs put_handle_def)
  qed
qed

theorem closedir_spec_witness:
  "case run_state (ps2link_request_closedir sample_host 4)
      (sample_request (packet PS2LINK_REQUEST_CLOSEDIR (be32 3))) of (r, s') \<Rightarrow>
    sv_dd s' = replicate 10 \<lparr>dd_pathname = None, dd_dir = None\<rparr>"
  using closedir_spec [where s = "sample_request (packet PS2LINK_REQUEST_CLOSEDIR (be32 3))"
      and P = sample_host and sock = 4, OF sample_request_ok]
  by (simp add: sample_request_def sample_server_def handles_def pkt_word_def case_prod_beta)

text \<open>(C20) A request to read a directory: when the directory behind the descriptor has another entry, the
  answer tells the PS2 so, with the entry's name complete, and with the mode and the size of the file
  of that name in that directory; nothing of the table changes. When \<open>localtime\<close> cannot convert one of the
  times of that file, the null pointer it returned is read through.\<close>

theorem readdir_spec:
  assumes "server_ok s" and "net_writable (sv_net s) sock" and "wf_stack J" and "wf_stack J'"
    and "handles (sv_dd s) (unat (pkt_word (sv_packet s) 6)) = Some (Some path, dir)"
    and "p_readdir P dir (sv_fs s) = (Some name, f)" and "length name \<le> 255" and "0 \<notin> set name"
    and "p_stat P (path @ [slash] @ name) f = (Some st, f')"
  shows "case run_state (ps2link_request_readdir P J J' sock) s of (r, s') \<Rightarrow>
    sv_dd s' = sv_dd s \<and> sv_fs s' = f'
    \<and> (if None \<in> p_localtime P ` {st_ctim st, st_atim st, st_mtim st} then sv_fault s'
       else sv_fault s' = sv_fault s
         \<and> (\<exists>resp. net_outbox (sv_net s') sock = net_outbox (sv_net s) sock @ resp
           \<and> pkt_number resp = PS2LINK_RESPONSE_READDIR \<and> length resp = 306
           \<and> pkt_word resp 6 = 1 \<and> pkt_word resp 10 = ps2_mode (st_mode st)
           \<and> pkt_word resp 18 = word_of_int (st_size st) \<and> pkt_string resp 50 = name))"
proof -
  have l: "length (sv_dd s) = 10" and e: "list_all entry_ok (sv_dd s)" using assms(1) by (auto simp: server_ok_def)
  have "length path \<le> 255"
    using assms(5) e by (auto simp: handles_def entry_ok_def list_all_length split: if_splits option.splits)
  then have fits: "\<not> 512 < length (path @ [slash] @ name) + 1" using assms(7) by simp
  have t: "length (j_ctime J) = 8" "length (j_atime J) = 8" "length (j_mtime J) = 8" "length (j_name J') = 256"
    using assms(3,4) by (auto simp: wf_stack_def)
  show ?thesis
  proof (cases "ps2_times P (j_ctime J, j_atime J, j_mtime J) st")
    case None
    then have "None \<in> p_localtime P ` {st_ctim st, st_atim st, st_mtim st}"
      by (auto simp: ps2_times_def image_iff split: option.splits)
    with None assms fits show ?thesis
      by (simp add: ps2link_request_readdir_def dd_lookup_handles l handler_runs)
  next
    case (Some x)
    then obtain c a m where x: "x = (c, a, m)" "length c = 8" "length a = 8" "length m = 8"
      using t by (auto simp: ps2_times_def split: option.splits)
    have "None \<notin> p_localtime P ` {st_ctim st, st_atim st, st_mtim st}"
      using Some by (auto simp: ps2_times_def image_iff split: option.splits)
    with Some x assms fits t show ?thesis
      by (simp add: ps2link_request_readdir_def dd_lookup_handles l handler_runs ps2link_response_readdir_def
          stat_fields_def time_field_def pkt_word_def pkt_string_def)
  qed
qed

definition sample_readdir :: "unit server" where
  "sample_readdir = (sample_request (packet PS2LINK_REQUEST_READDIR (be32 0)))
     \<lparr>sv_dd := \<lparr>dd_pathname = Some (lit ''d''), dd_dir = Some 1\<rparr> # replicate 9 \<lparr>dd_pathname = None, dd_dir = None\<rparr>\<rparr>"

lemma sample_readdir_ok: "server_ok sample_readdir" "net_writable (sv_net sample_readdir) 4"
  by (simp_all add: sample_readdir_def sample_request_def sample_server_def server_ok_def entry_ok_def
      list_all_iff net_writable_def)

theorem readdir_spec_witness:
  "case run_state (ps2link_request_readdir sample_host (e_stack sample_env) (e_response sample_env) 4) sample_readdir of
    (r, s') \<Rightarrow> \<not> sv_fault s' \<and> (\<exists>resp. net_outbox (sv_net s') 4 = net_outbox (sv_net sample_readdir) 4 @ resp
       \<and> pkt_word resp 6 = 1 \<and> pkt_string resp 50 = lit ''a'')"
proof -
  have st: "wf_stack (e_stack sample_env)" "wf_stack (e_response sample_env)" using sample_ok(2) by (simp_all add: env_ok_def)
  have "handles (sv_dd sample_readdir) (unat (pkt_word (sv_packet sample_readdir) 6)) = Some (Some (lit ''d''), 1)"
    "p_readdir sample_host 1 (sv_fs sample_readdir) = (Some (lit ''a''), ())" "length (lit ''a'') \<le> 255"
    "0 \<notin> set (lit ''a'')" "p_stat sample_host (lit ''d'' @ [slash] @ lit ''a'') () =
       (Some \<lparr>st_mode = 0x41ED, st_size = 4096, st_ctim = 0, st_atim = 0, st_mtim = 0\<rparr>, ())"
    "sv_fault sample_readdir = False" "None \<notin> range (p_localtime sample_host)"
    by (simp_all add: sample_readdir_def sample_request_def sample_server_def handles_def pkt_word_def
        sample_host_def lit_def)
  with readdir_spec [OF sample_readdir_ok st this(1-5)] show ?thesis
    by (auto split: prod.splits if_splits)
qed

text \<open>(C21) A read request answers with the number of bytes that \<open>read\<close> returned and sends exactly those
  bytes after it, for any size below two gigabytes and whether or not it exceeds the 64 KiB buffer.\<close>

theorem read_request_exact:
  assumes "net_writable (sv_net s) sock" and "host_ok P" and "unat (pkt_word (sv_packet s) 10) < 2 ^ 31"
  shows "case run_state (ps2link_request_read P sock) s of (r, s') \<Rightarrow>
    (case sys_read P (sint (pkt_word (sv_packet s) 6)) (unat (pkt_word (sv_packet s) 10))
       (buffer_host P (unat (pkt_word (sv_packet s) 10)) (sv_fs s)) of ((k, bs), f') \<Rightarrow>
     sv_fs s' = f' \<and> net_outbox (sv_net s') sock = net_outbox (sv_net s) sock
       @ packet PS2LINK_RESPONSE_READ (be32 (word_of_int k) @ be32 (word_of_int k)) @ bs)"
proof -
  let ?n = "unat (pkt_word (sv_packet s) 10)"
  obtain k bs f' where rd: "sys_read P (sint (pkt_word (sv_packet s) 6)) ?n (buffer_host P ?n (sv_fs s)) = ((k, bs), f')"
    by (metis surj_pair)
  have k: "c_int k = k" "k = -1 \<and> bs = [] \<or> k = int (length bs)"
    using sys_read_le [OF rd] assms(3) by auto
  have m: "fst (p_malloc P ?n (sv_fs s))" using assms(2,3) by (simp add: host_ok_def)
  let ?n1 = "after_send (sv_net s) sock (packet PS2LINK_RESPONSE_READ (be32 (word_of_int k) @ be32 (word_of_int k)))"
  have "run_state (network_send sock bs k) ?n1 = (if k = -1 then (0, ?n1) else (k, after_send ?n1 sock bs))"
    using k(2) assms(1) by auto
  then show ?thesis
    using rd k m assms(1)
    by (auto simp: ps2link_request_read_def handler_runs ps2link_response_read_def buffer_host_def)
qed

theorem read_request_exact_witness:
  "case run_state (ps2link_request_read sample_host 4) (sample_request (packet PS2LINK_REQUEST_READ (be32 5 @ be32 2)))
    of (r, s') \<Rightarrow> net_outbox (sv_net s') 4 = packet PS2LINK_RESPONSE_READ (be32 2 @ be32 2) @ [7, 7]"
proof -
  let ?s = "sample_request (packet PS2LINK_REQUEST_READ (be32 5 @ be32 2))"
  have "net_writable (sv_net ?s) 4" "unat (pkt_word (sv_packet ?s) 10) = 2" "net_outbox (sv_net ?s) 4 = []"
    by (simp_all add: sample_request_def sample_server_def net_writable_def pkt_word_def net_outbox_def)
  moreover have "sys_read sample_host fd 2 f = ((2, [7, 7]), f)" for fd f
    by (simp add: sys_read_def sample_host_def Let_def numeral_2_eq_2)
  ultimately show ?thesis
    using read_request_exact [of ?s 4 sample_host, OF _ sample_ok(1)] by (auto split: prod.splits)
qed

text \<open>(C22) A request to open a file: the name the host sees is the field's string with its slashes turned
  and a leading one dropped, the flags are the host's. The name of the handshake opens the null device
  and its descriptor is remembered; any other name is opened if it is that of something that is not a
  directory, or if the file may be created, and the answer is what \<open>open\<close> returned; otherwise it is
  \<open>-1\<close> and nothing is opened.\<close>

theorem open_spec:
  assumes "server_ok s" and "nul_terminated (take 256 (drop 10 (sv_packet s)))"
  shows "case run_state (ps2link_request_open P sock) s of (r, s') \<Rightarrow>
    if request_name s 10 = PS2LINK_PING_PATHNAME then
      case p_open P PS2LINK_NULL_DEVICE O_WRONLY 0 (sv_fs s) of (fd, f) \<Rightarrow>
        sv_ping_fd s' = fd \<and> sv_fs s' = f \<and> (r, sv_net s') = run_state (ps2link_response_open sock fd) (sv_net s)
    else sv_ping_fd s' = sv_ping_fd s \<and>
      (case p_stat P (request_name s 10) (sv_fs s) of (st, f) \<Rightarrow>
        if st \<noteq> None \<and> \<not> names_directory P (request_name s 10) (sv_fs s)
          \<or> fix_flags (pkt_word (sv_packet s) 6) AND O_CREAT \<noteq> 0
        then case p_open P (request_name s 10) (fix_flags (pkt_word (sv_packet s) 6)) 420 f of (fd, f') \<Rightarrow>
          sv_fs s' = f' \<and> (r, sv_net s') = run_state (ps2link_response_open sock fd) (sv_net s)
        else sv_fs s' = f \<and> (r, sv_net s') = run_state (ps2link_response_open sock (-1)) (sv_net s))"
proof -
  have l: "length (sv_packet s) = 518" using assms(1) by (simp add: server_ok_def)
  obtain area where run: "\<And>k. run_state (with_pathname 10 k) s
      = run_state (k (request_name s 10)) (s\<lparr>sv_packet := take 10 (sv_packet s) @ area\<rparr>)"
    using run_with_pathname [OF assms(2)] l by auto
  have "pkt_word (take 10 (sv_packet s) @ area) 6 = pkt_word (sv_packet s) 6"
    using l pkt_word_append [of 6 "take 10 (sv_packet s)" area]
      pkt_word_append [of 6 "take 10 (sv_packet s)" "drop 10 (sv_packet s)"] by simp
  then show ?thesis
    by (simp add: ps2link_request_open_def run handler_runs names_directory_def split: prod.splits option.splits)
qed

theorem open_spec_witness:
  "case run_state (ps2link_request_open sample_host 4)
      (sample_request (packet PS2LINK_REQUEST_OPEN (be32 2 @ lit ''/ps2client.ping'' @ [0]))) of (r, s') \<Rightarrow> sv_ping_fd s' = 3"
proof -
  let ?req = "packet PS2LINK_REQUEST_OPEN (be32 2 @ lit ''/ps2client.ping'' @ [0])"
  have "request_name (sample_request ?req) 10 = PS2LINK_PING_PATHNAME"
    by (simp add: sample_request_def pkt_string_def lit_def host_path_def PS2LINK_PING_PATHNAME_def
        backslash_def slash_def Let_def)
  moreover have "nul_terminated (take 256 (drop 10 (sv_packet (sample_request ?req))))"
    by (simp add: sample_request_def nul_terminated_def lit_def)
  moreover have "p_open sample_host n fl m f = (3, f)" for n fl m f by (simp add: sample_host_def)
  ultimately show ?thesis
    using open_spec [where s = "sample_request ?req" and P = sample_host and sock = 4, OF sample_request_ok]
    by (auto split: prod.splits)
qed

section \<open>The descriptor of the handshake\<close>

definition same_flag :: "'f server \<Rightarrow> 'f server \<Rightarrow> bool" where
  "same_flag s s' \<longleftrightarrow> sv_ping_answered s' = sv_ping_answered s"

interpretation flag: step_preorder same_flag
  by unfold_locales (auto simp: same_flag_def)

lemma flag_primitive:
  "state_io_rel same_flag (on_fs g)" "state_io_rel same_flag (on_net m)" "state_io_rel same_flag fault"
  "(\<And>s. sv_ping_answered (h s) = sv_ping_answered s) \<Longrightarrow> state_io_rel same_flag (modify h)"
  by (auto simp: state_io_rel_def same_flag_def on_fs_def on_net_def split: prod.splits)

lemma flag_dispatch:
  assumes "number \<noteq> PS2LINK_REQUEST_CLOSE"
  shows "state_io_rel same_flag (dispatch P E sock number)"
  unfolding dispatch_def handler_defs with_pathname_def ps2link_request_write_def if_not_P [OF assms]
  by (intro flag.keeps flag_primitive) simp_all

text \<open>Once raised, the flag stays up.\<close>

definition flag_rises :: "'f server \<Rightarrow> 'f server \<Rightarrow> bool" where
  "flag_rises s s' \<longleftrightarrow> (sv_ping_answered s \<longrightarrow> sv_ping_answered s')"

interpretation rises: step_preorder flag_rises
  by unfold_locales (auto simp: flag_rises_def)

lemma rises_primitive:
  "state_io_rel flag_rises (on_fs g)" "state_io_rel flag_rises (on_net m)" "state_io_rel flag_rises fault"
  "(\<And>s. sv_ping_answered s \<Longrightarrow> sv_ping_answered (h s)) \<Longrightarrow> state_io_rel flag_rises (modify h)"
  by (auto simp: state_io_rel_def flag_rises_def on_fs_def on_net_def split: prod.splits)

lemma rises_round: "state_io_rel flag_rises (thread_round P E sock)"
  unfolding thread_round_def dispatch_def handler_defs with_pathname_def ps2link_request_write_def
  by (intro rises.keeps rises_primitive) simp_all

text \<open>(C23) The handshake counts as answered exactly when the PS2 closes the descriptor it was given for
  the file of the handshake: no other request, on no path through any handler, raises the flag, and
  none clears it.\<close>

theorem ping_answered_iff:
  "case run_state (dispatch P E sock number) s of (r, s') \<Rightarrow>
    sv_ping_answered s' \<longleftrightarrow> sv_ping_answered s
      \<or> (number = PS2LINK_REQUEST_CLOSE \<and> 0 \<le> sv_ping_fd s \<and> sint (pkt_word (sv_packet s) 6) = sv_ping_fd s)"
proof (cases "number = PS2LINK_REQUEST_CLOSE")
  case True
  then show ?thesis
    by (auto simp: dispatch_def request_numbers ps2link_request_close_def handler_runs)
next
  case False
  obtain r s' where "run_state (dispatch P E sock number) s = (r, s')" by force
  moreover from this flag_dispatch [OF False, of P E sock] have "same_flag s s'"
    unfolding state_io_rel_def by (metis snd_conv)
  ultimately show ?thesis by (simp add: same_flag_def False)
qed

end
