(* ===== verification/Link_Console.thy ===== *)
theory Link_Console
  imports CString
begin

text \<open>
  The search for the marker in the console output: \<open>ps2link_check_line\<close>, \<open>ps2link_scan_console\<close> and
  \<open>ps2link_set_marker\<close> of \<^verbatim>\<open>src/ps2link.c\<close> (lines 34 to 40, 81 to 117 and 123 to 127).

  \<open>c_line\<close> holds the first \<open>ps2link_line_length\<close> bytes of the buffer \<open>ps2link_line\<close>; the bytes after
  them are never read before they are written. Null bytes are skipped when the line is stored, so
  that the terminator \<open>check_line\<close> writes is the only one and \<open>strstr\<close> sees the whole line.
\<close>

record console =
  c_marker :: "byte list option"
  c_line :: "byte list"
  c_seen :: bool
  c_status :: int

definition newline :: byte where "newline = 10"
definition return_char :: byte where "return_char = 13"

definition sizeof_line :: nat where "sizeof_line = 4096"

definition ps2link_set_marker :: "byte list option \<Rightarrow> console \<Rightarrow> console" where
  "ps2link_set_marker marker c = c\<lparr>c_marker := marker\<rparr>"

text \<open>
  The number after \<open>status=\<close>, where only the line from the marker on is looked at; what stands before the
  marker does not count.
\<close>

definition marker_status :: "byte list \<Rightarrow> int" where
  "marker_status found = (case strstr found (lit ''status='') of None \<Rightarrow> 0
     | Some status \<Rightarrow> c_int (strtol10 (drop 7 status)))"

text \<open>With no marker set the C function would pass a null pointer to \<open>strstr\<close>; its callers check.\<close>

definition ps2link_check_line :: "console \<Rightarrow> console" where
  "ps2link_check_line c = (case c_marker c of None \<Rightarrow> c | Some marker \<Rightarrow>
     if c_seen c then c
     else case strstr (c_line c) marker of None \<Rightarrow> c
     | Some found \<Rightarrow> c\<lparr>c_status := marker_status found, c_seen := True\<rparr>)"

definition scan_char :: "byte \<Rightarrow> console \<Rightarrow> console" where
  "scan_char ch c =
     (if ch = newline then (ps2link_check_line c)\<lparr>c_line := []\<rparr>
      else if ch = return_char \<or> ch = 0 then c
      else let line = (if length (c_line c) = sizeof_line - 1
                       then drop (length (c_line c) - 256) (c_line c) else c_line c)
           in c\<lparr>c_line := line @ [ch]\<rparr>)"

definition ps2link_scan_console :: "byte list \<Rightarrow> console \<Rightarrow> console" where
  "ps2link_scan_console buffer c = (if c_marker c = None then c else fold scan_char buffer c)"

section \<open>The line buffer\<close>

text \<open>
  How much of a line of \<open>n\<close> bytes is in the buffer at its end: all of it, or what has come in since
  the buffer was last cut down to its last 256 bytes.
\<close>

definition kept :: "nat \<Rightarrow> nat" where
  "kept n = (if n < 4096 then n else 257 + (n - 4096) mod 3839)"

definition window :: "byte list \<Rightarrow> byte list" where
  "window line = drop (length line - kept (length line)) line"

definition clean :: "byte list \<Rightarrow> byte list" where
  "clean = filter (\<lambda>c. c \<noteq> return_char \<and> c \<noteq> 0)"

lemma kept_le: "kept n \<le> n" "kept n \<le> 4095"
proof -
  have "(n - 4096) mod 3839 < 3839" by simp
  then show "kept n \<le> 4095" by (auto simp: kept_def)
  have "(n - 4096) mod 3839 \<le> n - 4096" by simp
  then show "kept n \<le> n" by (auto simp: kept_def)
qed

lemma kept_ge: "257 \<le> n \<Longrightarrow> 257 \<le> kept n"
  by (simp add: kept_def)

lemma length_window: "length (window line) = kept (length line)"
  using kept_le(1) [of "length line"] by (simp add: window_def)

lemma kept_Suc: "kept (Suc n) = (if kept n = 4095 then 257 else Suc (kept n))"
proof (cases "n < 4095")
  case True
  then show ?thesis by (simp add: kept_def)
next
  case False
  show ?thesis
  proof (cases "n = 4095")
    case False
    define k where "k = n - 4096"
    have "n = 4096 + k" using False \<open>\<not> n < 4095\<close> by (simp add: k_def)
    then show ?thesis by (auto simp: kept_def mod_Suc)
  qed (simp add: kept_def)
qed

text \<open>Storing one more byte moves the window by one, whether or not the buffer was full.\<close>

lemma window_snoc:
  "window (line @ [ch]) = (if length (window line) = sizeof_line - 1
     then drop (length (window line) - 256) (window line) else window line) @ [ch]"
proof -
  let ?n = "length line"
  have "drop (Suc ?n - kept (Suc ?n)) (line @ [ch]) = (if kept ?n = 4095
      then drop (?n - 256) line else drop (?n - kept ?n) line) @ [ch]"
    using kept_le [of ?n] by (simp add: kept_Suc)
  moreover have "drop (4095 - 256) (drop (?n - 4095) line) = drop (?n - 256) line" if "4095 \<le> ?n"
    using that by simp
  ultimately show ?thesis
    using kept_le(1) [of ?n] by (simp add: window_def length_window [unfolded window_def] sizeof_line_def)
qed

lemma scan_text:
  "newline \<notin> set bs \<Longrightarrow> c_line c = window l \<Longrightarrow>
     fold scan_char bs c = c\<lparr>c_line := window (l @ clean bs)\<rparr>"
proof (induction bs arbitrary: c l)
  case (Cons b bs)
  show ?case
  proof (cases "b = return_char \<or> b = 0")
    case True
    then have "scan_char b c = c" "clean (b # bs) = clean bs"
      using Cons.prems(1) by (auto simp: scan_char_def clean_def)
    with Cons show ?thesis by simp
  next
    case False
    then have "scan_char b c = c\<lparr>c_line := window (l @ [b])\<rparr>" "clean (b # bs) = b # clean bs"
      using Cons.prems by (auto simp: scan_char_def clean_def window_snoc Let_def)
    with Cons.IH [of "c\<lparr>c_line := window (l @ [b])\<rparr>" "l @ [b]"] Cons.prems show ?thesis by simp
  qed
qed (simp add: clean_def)

lemma window_Nil [simp]: "window [] = []"
  by (simp add: window_def)

lemma window_short: "length line < 4096 \<Longrightarrow> window line = line"
  by (simp add: window_def kept_def)

lemma window_suffix: "suffix (window line) line"
  by (simp add: window_def suffix_drop)

lemma window_tail: "suffix (drop (length line - 257) line) (window line)"
proof (cases "length line < 257")
  case False
  then have "257 \<le> kept (length line)" by (simp add: kept_ge)
  then have "drop (length line - 257) line = drop (kept (length line) - 257) (window line)"
    using kept_le(1) [of "length line"] by (simp add: window_def)
  then show ?thesis by (simp add: suffix_drop)
qed (simp add: window_short)

lemma scan_line:
  assumes "newline \<notin> set bs" and "c_line c = []"
  shows "fold scan_char (bs @ [newline]) c = (ps2link_check_line (c\<lparr>c_line := window (clean bs)\<rparr>))\<lparr>c_line := []\<rparr>"
  using scan_text [OF assms(1), of c "[]"] assms(2) by (simp add: scan_char_def)

lemma check_line_same [simp]:
  "c_marker (ps2link_check_line c) = c_marker c" "c_line (ps2link_check_line c) = c_line c"
  by (simp_all add: ps2link_check_line_def split: option.splits)

lemma scan_char_marker: "c_marker (scan_char ch c) = c_marker c"
  by (simp add: scan_char_def Let_def)

lemma fold_scan_marker: "c_marker (fold scan_char bs c) = c_marker c"
  by (induction bs arbitrary: c) (simp_all add: scan_char_marker)

lemma scan_packets: "fold ps2link_scan_console packets c = ps2link_scan_console (concat packets) c"
  by (induction packets arbitrary: c) (auto simp: ps2link_scan_console_def fold_scan_marker)

lemma scan_seen:
  "c_seen c \<Longrightarrow> c_seen (fold scan_char bs c) \<and> c_status (fold scan_char bs c) = c_status c"
proof (induction bs arbitrary: c)
  case (Cons b bs)
  have "c_seen (scan_char b c)" "c_status (scan_char b c) = c_status c"
    using Cons.prems by (auto simp: scan_char_def ps2link_check_line_def Let_def split: option.splits)
  with Cons.IH show ?case by simp
qed simp

lemma scan_lines_end:
  "c_line c = [] \<Longrightarrow> c_line (fold scan_char (concat (map (\<lambda>l. l @ [newline]) ls)) c) = []"
  by (induction ls arbitrary: c) (simp_all add: scan_char_def)

text \<open>What the first line with the marker leaves behind.\<close>

definition verdict :: "byte list \<Rightarrow> byte list list \<Rightarrow> int option" where
  "verdict m ls = map_option (\<lambda>l. marker_status (the (strstr l m))) (find (sublist m) ls)"

lemma scan_lines:
  assumes "c_marker c = Some m" and "c_line c = []" and "\<not> c_seen c"
    and "list_all (\<lambda>l. newline \<notin> set l) ls"
  shows "let c' = fold scan_char (concat (map (\<lambda>l. l @ [newline]) ls)) c in
    c_line c' = [] \<and> (case verdict m (map (window \<circ> clean) ls) of None \<Rightarrow> \<not> c_seen c'
      | Some st \<Rightarrow> c_seen c' \<and> c_status c' = st)"
  using assms
proof (induction ls arbitrary: c)
  case (Cons l ls)
  let ?w = "window (clean l)"
  let ?c = "(ps2link_check_line (c\<lparr>c_line := ?w\<rparr>))\<lparr>c_line := []\<rparr>"
  have step: "fold scan_char (concat (map (\<lambda>l. l @ [newline]) (l # ls))) c
      = fold scan_char (concat (map (\<lambda>l. l @ [newline]) ls)) ?c"
    using scan_line [of l c] Cons.prems by simp
  show ?case
  proof (cases "strstr ?w m")
    case None
    then have "\<not> sublist m ?w" "\<not> c_seen ?c"
      using Cons.prems strstr_None_iff [of ?w m] by (auto simp: ps2link_check_line_def)
    with Cons.IH [of ?c] Cons.prems step show ?thesis
      by (simp add: verdict_def)
  next
    case (Some found)
    then have sub: "sublist m ?w" using strstr_None_iff [of ?w m] by auto
    have seen: "c_seen ?c" "c_status ?c = marker_status found"
      using Some Cons.prems by (auto simp: ps2link_check_line_def)
    from scan_seen [OF seen(1)] scan_lines_end [of ?c ls] sub Some seen(2) step show ?thesis
      by (simp add: verdict_def Let_def)
  qed
qed (simp add: verdict_def)

text \<open>One line from the start: the marker is looked for in what the buffer keeps of it.\<close>

lemma line_seen:
  assumes "c_marker c = Some m" and "c_line c = []" and "\<not> c_seen c" and "newline \<notin> set l"
  shows "c_seen (ps2link_scan_console (l @ [newline]) c) = sublist m (window (clean l))"
  using scan_lines [OF assms(1-3), of "[l]"] assms(1,4)
  by (auto simp: ps2link_scan_console_def verdict_def Let_def split: if_splits)

section \<open>Properties\<close>

text \<open>(C6) The console output is searched line by line, however it is cut into packets: with a marker
  set, after any sequence of packets whose concatenation is the lines \<open>ls\<close> and the beginning of a
  further line, the marker has been seen exactly if one of the lines contains it in what the line
  buffer keeps of it, and the status is that of the first such line: the number after the first
  \<open>status=\<close> that stands at or after the marker in it, or \<open>0\<close>. (The usage text promises the number after
  \<open>status=\<close> on that line, wherever it is.) The unfinished line is in the buffer.\<close>

theorem console_spec:
  assumes "c_marker c = Some m" and "c_line c = []" and "\<not> c_seen c"
    and "list_all (\<lambda>l. newline \<notin> set l) (rest # ls)"
    and "concat packets = concat (map (\<lambda>l. l @ [newline]) ls) @ rest"
  shows "let c' = fold ps2link_scan_console packets c in c_line c' = window (clean rest)
    \<and> (case verdict m (map (window \<circ> clean) ls) of None \<Rightarrow> \<not> c_seen c'
       | Some st \<Rightarrow> c_seen c' \<and> c_status c' = st)"
proof -
  let ?d = "fold scan_char (concat (map (\<lambda>l. l @ [newline]) ls)) c"
  have d: "c_line ?d = []" "case verdict m (map (window \<circ> clean) ls) of None \<Rightarrow> \<not> c_seen ?d
      | Some st \<Rightarrow> c_seen ?d \<and> c_status ?d = st"
    using scan_lines [of c m ls] assms by (auto simp: Let_def)
  have "fold ps2link_scan_console packets c = fold scan_char rest ?d"
    using assms(1,5) by (simp add: scan_packets ps2link_scan_console_def)
  also have "\<dots> = ?d\<lparr>c_line := window (clean rest)\<rparr>"
    using scan_text [of rest ?d "[]"] assms(4) d(1) by simp
  finally show ?thesis using d(2) by (simp add: Let_def split: option.splits)
qed

definition sample_console :: console where
  "sample_console = \<lparr>c_marker = Some (lit ''done''), c_line = [], c_seen = False, c_status = 0\<rparr>"

theorem console_spec_witness:
  "c_seen (fold ps2link_scan_console [lit ''a'' @ [10] @ lit ''do'', lit ''ne status=7'' @ [13, 10], lit ''b''] sample_console)
   \<and> c_status (fold ps2link_scan_console [lit ''a'' @ [10] @ lit ''do'', lit ''ne status=7'' @ [13, 10], lit ''b''] sample_console) = 7"
proof -
  let ?ls = "[lit ''a'', lit ''done status=7'' @ [13]]"
  have v: "verdict (lit ''done'') (map (window \<circ> clean) ?ls) = Some 7"
    by code_simp
  show ?thesis
    using console_spec [of sample_console "lit ''done''" "lit ''b''" ?ls
        "[lit ''a'' @ [10] @ lit ''do'', lit ''ne status=7'' @ [13, 10], lit ''b'']"] v
    by (simp add: sample_console_def lit_def newline_def Let_def)
qed

text \<open>(C38) For the marker in one line: it is never reported unless the line contains it; a line shorter
  than the buffer of 4096 bytes is searched as a whole; and of a line of any length the last 257 bytes
  are always searched.\<close>

theorem marker_in_line:
  assumes "c_marker c = Some m" and "c_line c = []" and "\<not> c_seen c" and "newline \<notin> set l"
  shows "let seen = c_seen (ps2link_scan_console (l @ [newline]) c) in
    (seen \<longrightarrow> sublist m (clean l))
    \<and> (length (clean l) < 4096 \<longrightarrow> seen = sublist m (clean l))
    \<and> (sublist m (drop (length (clean l) - 257) (clean l)) \<longrightarrow> seen)"
proof -
  have "c_seen (ps2link_scan_console (l @ [newline]) c) = sublist m (window (clean l))"
    by (rule line_seen [OF assms(1-4)])
  moreover have "sublist m (window (clean l)) \<Longrightarrow> sublist m (clean l)"
    by (meson window_suffix suffix_imp_sublist sublist_order.order.trans)
  moreover have "sublist m (drop (length (clean l) - 257) (clean l)) \<Longrightarrow> sublist m (window (clean l))"
    by (meson window_tail suffix_imp_sublist sublist_order.order.trans)
  ultimately show ?thesis by (auto simp: window_short Let_def)
qed

theorem marker_in_line_witness:
  "c_seen (ps2link_scan_console (lit ''all done'' @ [newline]) sample_console)"
proof -
  have "clean (lit ''all done'') = lit ''all done''" "sublist (lit ''done'') (lit ''all done'')" by code_simp+
  then show ?thesis
    using marker_in_line [of sample_console "lit ''done''" "lit ''all done''"]
    by (simp add: sample_console_def lit_def newline_def Let_def)
qed

text \<open>(C39) What is searched of a line of 4096 bytes or more, exactly: its last
  \<open>257 + (n - 4096) mod 3839\<close> bytes for a line of \<open>n\<close> bytes, which is all that came in since the buffer was
  last cut down. A marker that only stands before them is missed.\<close>

theorem long_line_marker_lost:
  assumes "c_marker c = Some m" and "c_line c = []" and "\<not> c_seen c" and "newline \<notin> set l"
    and "4096 \<le> length (clean l)"
  shows "c_seen (ps2link_scan_console (l @ [newline]) c)
    = sublist m (drop (length (clean l) - (257 + (length (clean l) - 4096) mod 3839)) (clean l))"
proof -
  have "c_seen (ps2link_scan_console (l @ [newline]) c) = sublist m (window (clean l))"
    by (rule line_seen [OF assms(1-4)])
  with assms(5) show ?thesis by (simp add: window_def kept_def)
qed

text \<open>The marker at the start of a line of 4100 bytes is not reported.\<close>

theorem long_line_marker_lost_witness:
  "sublist (lit ''done'') (lit ''done'' @ replicate 4096 65)
   \<and> \<not> c_seen (ps2link_scan_console ((lit ''done'' @ replicate 4096 65) @ [newline]) sample_console)"
proof -
  let ?l = "lit ''done'' @ replicate 4096 65"
  have cl: "clean ?l = ?l" by (simp add: clean_def lit_def return_char_def filter_id_conv)
  have n: "newline \<notin> set ?l" "4096 \<le> length (clean ?l)" unfolding cl by (simp_all add: newline_def lit_def)
  have w: "drop (length (clean ?l) - (257 + (length (clean ?l) - 4096) mod 3839)) (clean ?l) = replicate 261 65"
    unfolding cl by (simp add: lit_def)
  have "\<not> sublist (lit ''done'') (replicate 261 65)"
    using set_mono_sublist [of "lit ''done''" "replicate 261 65"] by (auto simp: lit_def)
  then show ?thesis
    using long_line_marker_lost [of sample_console "lit ''done''" ?l] n w by (simp add: sample_console_def)
qed

text \<open>(C40) A status before the marker is not found: when the line has the marker, and from the first place of the
  marker on there is no \<open>status=\<close>, the status is \<open>0\<close>, whatever stands before it; the usage text and the
  README promise the number after \<open>status=\<close> on that line.\<close>

theorem status_before_marker:
  assumes "c_marker c = Some m" and "c_line c = []" and "\<not> c_seen c" and "newline \<notin> set l"
    and "length (clean l) < 4096" and "strstr (clean l) m = Some found" and "\<not> sublist (lit ''status='') found"
  shows "c_seen (ps2link_scan_console (l @ [newline]) c) \<and> c_status (ps2link_scan_console (l @ [newline]) c) = 0"
proof -
  have "sublist m (clean l)" using assms(6) strstr_None_iff [of "clean l" m] by auto
  then have "verdict m (map (window \<circ> clean) [l]) = Some (marker_status found)"
    using assms(5,6) by (simp add: verdict_def window_short)
  moreover have "marker_status found = 0"
    using assms(7) strstr_None_iff [of found "lit ''status=''"] by (simp add: marker_status_def split: option.split)
  ultimately show ?thesis
    using scan_lines [OF assms(1-3), of "[l]"] assms(1,4) by (simp add: ps2link_scan_console_def Let_def)
qed

theorem status_before_marker_witness:
  "c_status (ps2link_scan_console (lit ''status=5 done'' @ [newline]) sample_console) = 0"
proof -
  have "strstr (clean (lit ''status=5 done'')) (lit ''done'') = Some (lit ''done'')"
    "length (clean (lit ''status=5 done'')) < 4096" "newline \<notin> set (lit ''status=5 done'')"
    "\<not> sublist (lit ''status='') (lit ''done'')" by code_simp+
  then show ?thesis
    using status_before_marker [of sample_console "lit ''done''" "lit ''status=5 done''"] by (simp add: sample_console_def)
qed

end
