(* ===== verification/Link_Connect.thy ===== *)
theory Link_Connect
  imports Network
begin

text \<open>
  \<open>ps2link_connect\<close> and \<open>ps2link_disconnect\<close> of \<^verbatim>\<open>src/ps2link.c\<close> (lines 129 to 173 and 242 to 255) with the
  exit statuses and connection flags of \<^verbatim>\<open>src/ps2link.h\<close>.
\<close>

section \<open>Connecting\<close>

record sockets =
  console_socket :: int
  request_socket :: int
  command_socket :: int

definition no_sockets :: sockets where
  "no_sockets = \<lparr>console_socket = -1, request_socket = -1, command_socket = -1\<rparr>"

definition PS2CLIENT_EXIT_OK :: int where "PS2CLIENT_EXIT_OK = 0"
definition PS2CLIENT_EXIT_USAGE :: int where "PS2CLIENT_EXIT_USAGE = 64"
definition PS2CLIENT_EXIT_NOCONNECT :: int where "PS2CLIENT_EXIT_NOCONNECT = 69"
definition PS2CLIENT_EXIT_CONNLOST :: int where "PS2CLIENT_EXIT_CONNLOST = 74"
definition PS2CLIENT_EXIT_PORTBUSY :: int where "PS2CLIENT_EXIT_PORTBUSY = 75"
definition PS2CLIENT_EXIT_TIMEOUT :: int where "PS2CLIENT_EXIT_TIMEOUT = 124"

lemmas exit_codes = PS2CLIENT_EXIT_OK_def PS2CLIENT_EXIT_USAGE_def PS2CLIENT_EXIT_NOCONNECT_def
  PS2CLIENT_EXIT_CONNLOST_def PS2CLIENT_EXIT_PORTBUSY_def PS2CLIENT_EXIT_TIMEOUT_def

definition PS2LINK_CONNECT_CONSOLE :: int where "PS2LINK_CONNECT_CONSOLE = 1"
definition PS2LINK_CONNECT_REQUEST :: int where "PS2LINK_CONNECT_REQUEST = 2"
definition PS2LINK_CONNECT_COMMAND :: int where "PS2LINK_CONNECT_COMMAND = 4"

lemmas connect_flags = PS2LINK_CONNECT_CONSOLE_def PS2LINK_CONNECT_REQUEST_def PS2LINK_CONNECT_COMMAND_def

text \<open>
  The answers of the system to the three attempts are input. The result: the value returned, the
  sockets, the calls made in order. The threads are created when the value is \<open>0\<close>, the console thread
  if there is a console socket, the request thread if there is a request socket.
\<close>

definition ps2link_connect ::
  "sock_answers \<Rightarrow> sock_answers \<Rightarrow> sock_answers \<Rightarrow> int \<Rightarrow> int \<Rightarrow> sockets \<Rightarrow> int \<times> sockets \<times> sock_op list" where
  "ps2link_connect a_con a_req a_cmd what timeout_ms k =
     (let (c, ops1) = (if what AND PS2LINK_CONNECT_CONSOLE \<noteq> 0
                       then network_listen a_con 0x4712 SOCK_DGRAM else (console_socket k, []));
          k1 = k\<lparr>console_socket := c\<rparr> in
      if what AND PS2LINK_CONNECT_CONSOLE \<noteq> 0 \<and> c < 0 then (PS2CLIENT_EXIT_PORTBUSY, k1, ops1)
      else
      let (r, ops2) = (if what AND PS2LINK_CONNECT_REQUEST \<noteq> 0
                       then network_connect_timeout a_req 0x4711 SOCK_STREAM timeout_ms else (request_socket k, []));
          k2 = k1\<lparr>request_socket := r\<rparr> in
      if what AND PS2LINK_CONNECT_REQUEST \<noteq> 0 \<and> r < 0 then (PS2CLIENT_EXIT_NOCONNECT, k2, ops1 @ ops2)
      else
      let ops3 = (if what AND PS2LINK_CONNECT_REQUEST \<noteq> 0 then [Op_Nodelay r] else []);
          (d, ops4) = (if what AND PS2LINK_CONNECT_COMMAND \<noteq> 0
                       then network_connect a_cmd 0x4712 SOCK_DGRAM else (command_socket k, []));
          k3 = k2\<lparr>command_socket := d\<rparr> in
      if what AND PS2LINK_CONNECT_COMMAND \<noteq> 0 \<and> d < 0
      then (PS2CLIENT_EXIT_NOCONNECT, k3, ops1 @ ops2 @ ops3 @ ops4)
      else (0, k3, ops1 @ ops2 @ ops3 @ ops4))"

text \<open>\<open>ps2link_disconnect\<close>: the calls that close, and the sockets afterwards.\<close>

definition ps2link_disconnect :: "sockets \<Rightarrow> sockets \<times> sock_op list" where
  "ps2link_disconnect k =
     (\<lparr>console_socket = (if 0 \<le> console_socket k then -1 else console_socket k),
       request_socket = (if 0 \<le> request_socket k then -1 else request_socket k),
       command_socket = (if 0 \<le> command_socket k then -1 else command_socket k)\<rparr>,
      (if 0 \<le> command_socket k then [Op_Close (command_socket k)] else [])
      @ (if 0 \<le> request_socket k then [Op_Close (request_socket k)] else [])
      @ (if 0 \<le> console_socket k then [Op_Close (console_socket k)] else []))"

section \<open>Properties\<close>

definition opened :: "int \<Rightarrow> int set" where
  "opened x = {y. y = x \<and> 0 \<le> y}"

lemma disconnect_open:
  "open_socks S (snd (ps2link_disconnect k)) =
     S - (opened (console_socket k) \<union> opened (request_socket k) \<union> opened (command_socket k))"
  by (auto simp: ps2link_disconnect_def opened_def)

text \<open>(C24) Connecting is all or nothing in what it reports: the result is \<open>0\<close> exactly when every connection
  that was asked for was made; the sockets it leaves in the variables are exactly the ones that are
  open, on failure too; and \<open>ps2link_disconnect\<close> closes every one of them.\<close>

theorem connect_spec:
  assumes "distinct [a_socket a, a_socket b, a_socket c]"
  shows "case ps2link_connect a b c what timeout_ms no_sockets of (r, k, ops) \<Rightarrow>
    (r = 0) = ((what AND PS2LINK_CONNECT_CONSOLE = 0 \<or> 0 \<le> console_socket k)
      \<and> (what AND PS2LINK_CONNECT_REQUEST = 0 \<or> 0 \<le> request_socket k)
      \<and> (what AND PS2LINK_CONNECT_COMMAND = 0 \<or> 0 \<le> command_socket k))
    \<and> open_socks {} ops = {x \<in> {console_socket k, request_socket k, command_socket k}. 0 \<le> x}
    \<and> open_socks {} (ops @ snd (ps2link_disconnect k)) = {}"
proof -
  define p q w where "p \<longleftrightarrow> what AND PS2LINK_CONNECT_CONSOLE \<noteq> 0"
    and "q \<longleftrightarrow> what AND PS2LINK_CONNECT_REQUEST \<noteq> 0" and "w \<longleftrightarrow> what AND PS2LINK_CONNECT_COMMAND \<noteq> 0"
  note pqw = p_def [symmetric] q_def [symmetric] w_def [symmetric]
  obtain c' o1 where c: "(if p then network_listen a 0x4712 SOCK_DGRAM else (-1, [])) = (c', o1)" by force
  obtain r' o2 where r: "(if q then network_connect_timeout b 0x4711 SOCK_STREAM timeout_ms else (-1, [])) = (r', o2)"
    by force
  obtain d' o3 where d: "(if w then network_connect c 0x4712 SOCK_DGRAM else (-1, [])) = (d', o3)" by force
  have oc: "open_socks S o1 = S \<union> opened c'" "opened c' \<subseteq> {a_socket a}" if "a_socket a \<notin> S" for S
    using c network_listen_open [OF _ that] by (auto simp: opened_def split: if_splits)
  have orr: "open_socks S o2 = S \<union> opened r'" "opened r' \<subseteq> {a_socket b}" if "a_socket b \<notin> S" for S
    using r network_connect_timeout_open [OF _ that] network_connect_timeout_result
    by (auto simp: opened_def split: if_splits)
  have od: "open_socks S o3 = S \<union> opened d'" if "a_socket c \<notin> S" for S
    using d network_connect_timeout_open [OF _ that] by (auto simp: opened_def network_connect_def split: if_splits)
  have o: "open_socks {} o1 = opened c'" "open_socks (opened c') o2 = opened c' \<union> opened r'"
    "open_socks (opened c' \<union> opened r') o3 = opened c' \<union> opened r' \<union> opened d'"
  proof -
    have sub: "opened c' \<subseteq> {a_socket a}" "opened r' \<subseteq> {a_socket b}" using oc(2) orr(2) by blast+
    show "open_socks {} o1 = opened c'" using oc(1) [of "{}"] by simp
    show "open_socks (opened c') o2 = opened c' \<union> opened r'" using sub assms by (intro orr(1)) auto
    show "open_socks (opened c' \<union> opened r') o3 = opened c' \<union> opened r' \<union> opened d'"
      using sub assms by (intro od) auto
  qed
  have neg: "(p \<or> c' = -1)" "(q \<or> r' = -1)" "(w \<or> d' = -1)" using c r d by (auto split: if_splits)
  have ns: "console_socket no_sockets = -1" "request_socket no_sockets = -1" "command_socket no_sockets = -1"
    by (simp_all add: no_sockets_def)
  have run: "ps2link_connect a b c what timeout_ms no_sockets =
      (if p \<and> c' < 0 then (PS2CLIENT_EXIT_PORTBUSY, no_sockets\<lparr>console_socket := c'\<rparr>, o1)
       else if q \<and> r' < 0 then (PS2CLIENT_EXIT_NOCONNECT, no_sockets\<lparr>console_socket := c', request_socket := r'\<rparr>, o1 @ o2)
       else let o4 = (if q then [Op_Nodelay r'] else []);
                k = no_sockets\<lparr>console_socket := c', request_socket := r', command_socket := d'\<rparr> in
         if w \<and> d' < 0 then (PS2CLIENT_EXIT_NOCONNECT, k, o1 @ o2 @ o4 @ o3) else (0, k, o1 @ o2 @ o4 @ o3))"
    unfolding ps2link_connect_def pqw ns c r d by (simp add: Let_def)
  have k: "open_socks {} o1 - opened c' = {}" "open_socks {} (o1 @ o2) - (opened c' \<union> opened r') = {}"
    "open_socks {} (o1 @ o2 @ o3) - (opened c' \<union> opened r' \<union> opened d') = {}" using o by auto
  have np: "(what AND PS2LINK_CONNECT_CONSOLE = 0) = (\<not> p)" "(what AND PS2LINK_CONNECT_REQUEST = 0) = (\<not> q)"
    "(what AND PS2LINK_CONNECT_COMMAND = 0) = (\<not> w)" by (simp_all add: p_def q_def w_def)
  have n: "x < 0 \<Longrightarrow> opened x = {}" for x by (auto simp: opened_def)
  have e: "{x \<in> {c, r, d}. 0 \<le> x} = opened c \<union> opened r \<union> opened d" for c r d by (auto simp: opened_def)
  have m: "opened (-1) = {}" by (simp add: n)
  consider "p" "c' < 0" | "\<not> (p \<and> c' < 0)" "q" "r' < 0" | "\<not> (p \<and> c' < 0)" "\<not> (q \<and> r' < 0)" by blast
  then show ?thesis
  proof cases
    case 1
    then show ?thesis unfolding run np e using k(1)
      by (simp add: disconnect_open no_sockets_def exit_codes m n o)
  next
    case 2
    then have "p \<Longrightarrow> 0 \<le> c'" by auto
    with 2 show ?thesis unfolding run np e using k(2)
      by (simp add: disconnect_open no_sockets_def exit_codes m n o)
  next
    case 3
    then have "\<not> p \<or> 0 \<le> c'" "\<not> q \<or> 0 \<le> r'" by auto
    with 3 show ?thesis unfolding run np e using k(3)
      by (cases "w \<and> d' < 0") (auto simp: disconnect_open no_sockets_def exit_codes o)
  qed
qed

definition sample_answers :: "int \<Rightarrow> sock_answers" where
  "sample_answers sock = \<lparr>a_resolved = True, a_socket = sock, a_fcntl_off = (2, 0), a_connect = -1, a_inprogress = True,
     a_select = 1, a_getsockopt = 0, a_so_error = 0, a_fcntl_on = (2050, 0), a_bind = 0\<rparr>"

theorem connect_spec_witness:
  "case ps2link_connect (sample_answers 3) (sample_answers 4) (sample_answers 5) 3 3000 no_sockets of (r, k, ops) \<Rightarrow>
    r = 0 \<and> open_socks {} ops = {3, 4} \<and> open_socks {} (ops @ snd (ps2link_disconnect k)) = {}"
proof -
  have "fst (ps2link_connect (sample_answers 3) (sample_answers 4) (sample_answers 5) 3 3000 no_sockets) = 0"
    "fst (snd (ps2link_connect (sample_answers 3) (sample_answers 4) (sample_answers 5) 3 3000 no_sockets))
       = \<lparr>console_socket = 3, request_socket = 4, command_socket = -1\<rparr>"
    by code_simp+
  with connect_spec [of "sample_answers 3" "sample_answers 4" "sample_answers 5" 3 3000]
  show ?thesis by (auto simp: sample_answers_def)
qed

end
