(* ===== verification/Link_Main.thy ===== *)
theory Link_Main
  imports Link_Service Link_Console Link_Connect
begin

text \<open>
  The client as a whole: \<open>ps2link_handshake\<close>, \<open>ps2link_mainloop\<close> and \<open>ps2link_thread_console\<close> of
  \<^verbatim>\<open>src/ps2link.c\<close> (lines 62 to 79, 175 to 240 and 986 to 1018), with the part of \<open>main\<close> (\<^verbatim>\<open>src/ps2client.c\<close>, lines 180 to 222) that calls them.

  Three threads work on one state. A step is one access to the shared state: one critical section,
  one reading of the clock, one call that may block, one request served. A relation \<open>client_step\<close>
  interleaves the steps of the threads with the passing of time in every order.
\<close>

section \<open>The threads\<close>

text \<open>
  Where each thread is. \<open>Hs\<close> are the points of \<open>ps2link_handshake\<close> with its variables \<open>start\<close>, \<open>next\<close> and
  \<open>now\<close>; \<open>Ml\<close> those of \<open>ps2link_mainloop\<close>. A point that sleeps holds the time at which it wakes up.
\<close>

datatype main_pc =
    Hs_Enter
  | Hs_Test int int
  | Hs_Time int int
  | Hs_Lost int int int
  | Hs_Send int int
  | Hs_Sleep int int int
  | Hs_Answered int
  | Hs_Done int
  | Command
  | Ml_Enter
  | Ml_Poll
  | Ml_Lost int
  | Ml_Idle int
  | Ml_Expired
  | Ml_Sleep int
  | Ml_Done int
  | Exited int

datatype console_pc = Con_Receive | Con_Scan "byte list" | Con_Activity | Con_Sleep int | Con_Off

datatype request_pc = Req_Serve | Req_Activity | Req_Lost | Req_Off

text \<open>
  The state: what the request thread works on, the console, the standard output, the shared
  variables \<open>ps2link_activity\<close> and \<open>ps2link_lost\<close>, the sockets, the clock and the threads.
  \<open>cl_pings\<close> records, for every command the handshake sends, the value of \<open>now\<close> it was decided by and the time
  at which it is sent.
\<close>

record 'f client =
  cl_server :: "'f server"
  cl_console :: console
  cl_stdout :: "byte list"
  cl_activity :: int
  cl_lost :: bool
  cl_socks :: sockets
  cl_clock :: int
  cl_pings :: "(int \<times> int) list"
  cl_main :: main_pc
  cl_con :: console_pc
  cl_req :: request_pc

text \<open>What \<open>main\<close> is asked to do: the command, if it sends one, the two timeouts, and whether it pings.\<close>

record job =
  j_command :: "link_command option"
  j_ping :: bool
  j_handshake_ms :: int
  j_timeout :: int

text \<open>
  Each of these is one critical section of \<open>ps2link_lock\<close>. The flags are the two that are handed to
  \<open>ps2link_get_flag\<close> and \<open>ps2link_set_flag\<close> by address.
\<close>

datatype shared_flag = Ps2link_Lost | Ps2link_Ping_Answered

definition ps2link_set_activity :: "'f client \<Rightarrow> 'f client" where
  [simp]: "ps2link_set_activity s = s\<lparr>cl_activity := cl_clock s\<rparr>"

fun ps2link_get_flag :: "shared_flag \<Rightarrow> 'f client \<Rightarrow> bool" where
  "ps2link_get_flag Ps2link_Lost s = cl_lost s"
| "ps2link_get_flag Ps2link_Ping_Answered s = sv_ping_answered (cl_server s)"

fun ps2link_set_flag :: "shared_flag \<Rightarrow> 'f client \<Rightarrow> 'f client" where
  "ps2link_set_flag Ps2link_Lost s = s\<lparr>cl_lost := True\<rparr>"
| "ps2link_set_flag Ps2link_Ping_Answered s = s\<lparr>cl_server := (cl_server s)\<lparr>sv_ping_answered := True\<rparr>\<rparr>"

text \<open>The console thread: receive and print, scan, note the activity.\<close>

definition ps2link_thread_console :: "'f client \<Rightarrow> 'f client" where
  "ps2link_thread_console s = (case cl_con s of
     Con_Receive \<Rightarrow>
       (case run_state (network_receive (console_socket (cl_socks s)) 65536) (sv_net (cl_server s)) of
          ((sz, buffer), n) \<Rightarrow>
            let s1 = s\<lparr>cl_server := (cl_server s)\<lparr>sv_net := n\<rparr>\<rparr> in
            if sz < 0 then s1\<lparr>cl_con := Con_Sleep (cl_clock s + 10)\<rparr>
            else s1\<lparr>cl_stdout := cl_stdout s @ buffer, cl_con := Con_Scan buffer\<rparr>)
   | Con_Scan buffer \<Rightarrow> s\<lparr>cl_console := ps2link_scan_console buffer (cl_console s), cl_con := Con_Activity\<rparr>
   | Con_Activity \<Rightarrow> (ps2link_set_activity s)\<lparr>cl_con := Con_Receive\<rparr>
   | Con_Sleep until \<Rightarrow> if until \<le> cl_clock s then s\<lparr>cl_con := Con_Receive\<rparr> else s
   | Con_Off \<Rightarrow> s)"

text \<open>The request thread: rounds of \<open>thread_round\<close>, each followed by \<open>ps2link_set_activity\<close>.\<close>

definition request_step :: "'f posix \<Rightarrow> env \<Rightarrow> 'f client \<Rightarrow> 'f client" where
  "request_step P E s = (case cl_req s of
     Req_Serve \<Rightarrow> (case run_state (thread_round P E (request_socket (cl_socks s))) (cl_server s) of
       (True, sv) \<Rightarrow> s\<lparr>cl_server := sv, cl_req := Req_Activity\<rparr>
     | (False, sv) \<Rightarrow> s\<lparr>cl_server := sv, cl_req := Req_Lost\<rparr>)
   | Req_Activity \<Rightarrow> (ps2link_set_activity s)\<lparr>cl_req := Req_Serve\<rparr>
   | Req_Lost \<Rightarrow> (ps2link_set_flag Ps2link_Lost s)\<lparr>cl_req := Req_Off\<rparr>
   | Req_Off \<Rightarrow> s)"

text \<open>\<open>ps2link_disconnect\<close> and the end of the program: the threads are cancelled, the sockets closed.\<close>

definition leave :: "int \<Rightarrow> 'f client \<Rightarrow> 'f client" where
  "leave status s = s\<lparr>cl_socks := fst (ps2link_disconnect (cl_socks s)), cl_con := Con_Off, cl_req := Req_Off,
     cl_main := Exited status\<rparr>"

definition PS2LINK_PING_REGS :: u32 where "PS2LINK_PING_REGS = 1"

text \<open>The last look at the unfinished line when the main loop ends without having seen the marker.\<close>

definition check_rest :: "console \<Rightarrow> console" where
  "check_rest c = (if c_marker c \<noteq> None \<and> \<not> c_seen c \<and> c_line c \<noteq> [] then ps2link_check_line c else c)"

text \<open>The points of \<open>ps2link_handshake\<close>.\<close>

definition ps2link_handshake :: "job \<Rightarrow> byte list \<Rightarrow> 'f client \<Rightarrow> 'f client" where
  "ps2link_handshake J junk s = (case cl_main s of
     Hs_Enter \<Rightarrow> s\<lparr>cl_main := Hs_Test (cl_clock s) (cl_clock s)\<rparr>
   | Hs_Test start next \<Rightarrow>
       s\<lparr>cl_main := if ps2link_get_flag Ps2link_Ping_Answered s then Hs_Answered start else Hs_Time start next\<rparr>
   | Hs_Time start next \<Rightarrow>
       s\<lparr>cl_main := if j_handshake_ms J \<le> cl_clock s - start then Hs_Done (-1) else Hs_Lost start next (cl_clock s)\<rparr>
   | Hs_Lost start next now \<Rightarrow>
       s\<lparr>cl_main := if ps2link_get_flag Ps2link_Lost s then Hs_Done (-1) else if next \<le> now then Hs_Send start now
                     else Hs_Sleep start next (cl_clock s + 5)\<rparr>
   | Hs_Send start now \<Rightarrow>
       (case run_state (ps2link_command_dumpreg (command_socket (cl_socks s)) junk PS2LINK_PING_REGS
               (Some PS2LINK_PING_PATHNAME)) (sv_net (cl_server s)) of (r, n) \<Rightarrow>
          s\<lparr>cl_server := (cl_server s)\<lparr>sv_net := n\<rparr>, cl_pings := cl_pings s @ [(now, cl_clock s)],
            cl_main := Hs_Sleep start (now + 1000) (cl_clock s + 5)\<rparr>)
   | Hs_Sleep start next until \<Rightarrow> if until \<le> cl_clock s then s\<lparr>cl_main := Hs_Test start next\<rparr> else s
   | Hs_Answered start \<Rightarrow> s\<lparr>cl_main := Hs_Done (c_int (cl_clock s - start))\<rparr>
   | _ \<Rightarrow> s)"

text \<open>The points of \<open>ps2link_mainloop\<close>.\<close>

definition ps2link_mainloop :: "job \<Rightarrow> 'f client \<Rightarrow> 'f client" where
  "ps2link_mainloop J s = (case cl_main s of
     Ml_Enter \<Rightarrow>
       let k = cl_socks s;
           s1 = s\<lparr>cl_socks := (if 0 \<le> command_socket k then k\<lparr>command_socket := -1\<rparr> else k)\<rparr> in
       if j_timeout J = 0 then s1\<lparr>cl_main := Ml_Done PS2CLIENT_EXIT_OK\<rparr>
       else (ps2link_set_activity s1)\<lparr>cl_main := Ml_Poll\<rparr>
   | Ml_Poll \<Rightarrow>
       s\<lparr>cl_main := if c_seen (cl_console s) then Ml_Done (c_status (cl_console s) AND 255)
                     else if cl_lost s then Ml_Lost (cl_clock s + 500)
                     else Ml_Idle (cl_activity s)\<rparr>
   | Ml_Lost until \<Rightarrow>
       if until \<le> cl_clock s then
         let c = check_rest (cl_console s) in
         s\<lparr>cl_console := c,
           cl_main := Ml_Done (if c_seen c then c_status c AND 255 else PS2CLIENT_EXIT_CONNLOST)\<rparr>
       else s
   | Ml_Idle activity \<Rightarrow>
       s\<lparr>cl_main := if 0 < j_timeout J \<and> j_timeout J * 1000 \<le> cl_clock s - activity then Ml_Expired
                     else Ml_Sleep (cl_clock s + 20)\<rparr>
   | Ml_Expired \<Rightarrow>
       let c = check_rest (cl_console s) in
       s\<lparr>cl_console := c,
         cl_main := Ml_Done (if c_seen c then c_status c AND 255
                             else if c_marker c \<noteq> None then PS2CLIENT_EXIT_TIMEOUT else PS2CLIENT_EXIT_OK)\<rparr>
   | Ml_Sleep until \<Rightarrow> if until \<le> cl_clock s then s\<lparr>cl_main := Ml_Poll\<rparr> else s
   | _ \<Rightarrow> s)"

text \<open>The command: \<open>listen\<close> and \<open>console\<close> send none.\<close>

definition run_command :: "int \<Rightarrow> byte list \<Rightarrow> link_command option \<Rightarrow> (net, int) state" where
  "run_command sock junk cmd = (case cmd of None \<Rightarrow> ret 0 | Some c \<Rightarrow> perform_command sock junk c)"

text \<open>\<open>main\<close> from the end of \<open>ps2link_connect\<close>: handshake, command, main loop, disconnect.\<close>

definition main_step :: "job \<Rightarrow> byte list \<Rightarrow> 'f client \<Rightarrow> 'f client" where
  "main_step J junk s = (case cl_main s of
     Hs_Done r \<Rightarrow>
       if j_ping J then leave (if r < 0 then PS2CLIENT_EXIT_NOCONNECT else PS2CLIENT_EXIT_OK) s
       else if r < 0 then leave PS2CLIENT_EXIT_NOCONNECT s
       else s\<lparr>cl_main := Command\<rparr>
   | Command \<Rightarrow>
       (case run_state (run_command (command_socket (cl_socks s)) junk (j_command J)) (sv_net (cl_server s)) of
          (r, n) \<Rightarrow> let s1 = s\<lparr>cl_server := (cl_server s)\<lparr>sv_net := n\<rparr>\<rparr> in
            if r < 0 then leave PS2CLIENT_EXIT_NOCONNECT s1 else s1\<lparr>cl_main := Ml_Enter\<rparr>)
   | Ml_Done status \<Rightarrow> leave status s
   | Exited _ \<Rightarrow> s
   | Ml_Enter \<Rightarrow> ps2link_mainloop J s
   | Ml_Poll \<Rightarrow> ps2link_mainloop J s
   | Ml_Lost _ \<Rightarrow> ps2link_mainloop J s
   | Ml_Idle _ \<Rightarrow> ps2link_mainloop J s
   | Ml_Expired \<Rightarrow> ps2link_mainloop J s
   | Ml_Sleep _ \<Rightarrow> ps2link_mainloop J s
   | _ \<Rightarrow> ps2link_handshake J junk s)"

section \<open>Interleavings\<close>

text \<open>
  Time passes, or one of the threads takes a step. \<open>junk\<close> is what the stack held under the name field of a
  command.
\<close>

inductive client_step :: "'f posix \<Rightarrow> job \<Rightarrow> 'f client \<Rightarrow> 'f client \<Rightarrow> bool" for P J where
  tick: "0 \<le> d \<Longrightarrow> client_step P J s (s\<lparr>cl_clock := cl_clock s + d\<rparr>)"
| console: "client_step P J s (ps2link_thread_console s)"
| request: "client_step P J s (request_step P E s)"
| main: "length junk = 256 \<Longrightarrow> client_step P J s (main_step J junk s)"

text \<open>
  The state after a successful \<open>ps2link_connect\<close>: \<open>main\<close> goes on with the handshake if there is a request
  connection, with the command if there is none.
\<close>

definition client_start :: "'f client \<Rightarrow> bool" where
  "client_start s \<longleftrightarrow> cl_main s = (if 0 \<le> request_socket (cl_socks s) then Hs_Enter else Command)
     \<and> cl_con s = (if 0 \<le> console_socket (cl_socks s) then Con_Receive else Con_Off)
     \<and> cl_req s = (if 0 \<le> request_socket (cl_socks s) then Req_Serve else Req_Off)
     \<and> cl_stdout s = [] \<and> cl_pings s = [] \<and> \<not> cl_lost s \<and> \<not> sv_ping_answered (cl_server s)
     \<and> c_line (cl_console s) = [] \<and> \<not> c_seen (cl_console s)"

inductive client_run :: "'f posix \<Rightarrow> job \<Rightarrow> 'f client \<Rightarrow> 'f client \<Rightarrow> bool" for P J s0 where
  start: "client_start s0 \<Longrightarrow> client_run P J s0 s0"
| step: "client_run P J s0 s \<Longrightarrow> client_step P J s s' \<Longrightarrow> client_run P J s0 s'"

text \<open>
  An invariant holds in every state of a run if it holds at the start and each kind of step keeps it.
\<close>

lemma client_run_invariant:
  assumes "client_run P J s0 s" and "client_start s0 \<Longrightarrow> I s0"
    and "\<And>s d. I s \<Longrightarrow> 0 \<le> d \<Longrightarrow> I (s\<lparr>cl_clock := cl_clock s + d\<rparr>)"
    and "\<And>s. I s \<Longrightarrow> I (ps2link_thread_console s)"
    and "\<And>s E. I s \<Longrightarrow> I (request_step P E s)"
    and "\<And>s junk. I s \<Longrightarrow> length junk = 256 \<Longrightarrow> I (main_step J junk s)"
  shows "I s"
  using assms(1)
proof induction
  case start
  then show ?case using assms(2) by simp
next
  case (step s s')
  from step(2) show ?case by cases (use step(3) assms(3-6) in auto)
qed

lemmas main_defs = main_step_def ps2link_handshake_def ps2link_mainloop_def leave_def Let_def

section \<open>A sample\<close>

definition sample_client :: "sockets \<Rightarrow> byte list \<Rightarrow> unit client" where
  "sample_client k bs = \<lparr>cl_server = (sample_server bs)\<lparr>sv_ping_fd := 3\<rparr>,
     cl_console = sample_console, cl_stdout = [], cl_activity = 0, cl_lost = False, cl_socks = k, cl_clock = 100,
     cl_pings = [], cl_main = (if 0 \<le> request_socket k then Hs_Enter else Command),
     cl_con = (if 0 \<le> console_socket k then Con_Receive else Con_Off),
     cl_req = (if 0 \<le> request_socket k then Req_Serve else Req_Off)\<rparr>"

definition sample_job :: job where
  "sample_job = \<lparr>j_command = None, j_ping = False, j_handshake_ms = 3000, j_timeout = 0\<rparr>"

lemma sample_client_start: "client_start (sample_client k bs)"
  by (simp add: client_start_def sample_client_def sample_console_def sample_server_def)

definition sample_junk :: "byte list" where
  "sample_junk = replicate 256 0xAA"

lemma run_main: "client_run P J s0 s \<Longrightarrow> client_run P J s0 ((main_step J sample_junk ^^ n) s)"
  by (induction n) (auto intro!: client_step.main intro: client_run.step simp: sample_junk_def)

end
