(* ===== verification/Client_Main.thy ===== *)
theory Client_Main
  imports Link_Main
begin

text \<open>
  \<^verbatim>\<open>src/ps2client.c\<close>: the table of commands, the parsing of numbers, of the environment and of the
  arguments, the checks, and what \<open>main\<close> then sets out to do. \<open>main\<close> is split where the outside world
  comes in: \<open>plan_main\<close> is everything up to \<open>network_startup\<close>, and the state machine of \<open>Link_Main\<close> is
  what follows \<open>ps2link_connect\<close>. Arguments and environment are lists of null-free strings.
\<close>

datatype command_id = CMD_RESET | CMD_RESETCHECK | CMD_EXECIOP | CMD_EXECEE | CMD_POWEROFF | CMD_SCRDUMP
  | CMD_NETDUMP | CMD_DUMPMEM | CMD_STARTVU | CMD_STOPVU | CMD_DUMPREG | CMD_GSEXEC | CMD_WRITEMEM
  | CMD_IOPEXCEP | CMD_LISTEN | CMD_PING | CMD_CONSOLE

record command_entry =
  ce_name :: "byte list"
  ce_id :: command_id
  ce_args :: nat
  ce_needs_host :: bool
  ce_no_wait :: bool

definition entry :: "string \<Rightarrow> command_id \<Rightarrow> nat \<Rightarrow> bool \<Rightarrow> bool \<Rightarrow> command_entry" where
  "entry name i n h w = \<lparr>ce_name = lit name, ce_id = i, ce_args = n, ce_needs_host = h, ce_no_wait = w\<rparr>"

definition commands :: "command_entry list" where
  "commands = [
     entry ''reset'' CMD_RESET 0 False True,
     entry ''resetcheck'' CMD_RESETCHECK 0 False True,
     entry ''execiop'' CMD_EXECIOP 1 True False,
     entry ''execee'' CMD_EXECEE 1 True False,
     entry ''poweroff'' CMD_POWEROFF 0 False True,
     entry ''scrdump'' CMD_SCRDUMP 0 False True,
     entry ''netdump'' CMD_NETDUMP 0 False True,
     entry ''dumpmem'' CMD_DUMPMEM 3 True False,
     entry ''startvu'' CMD_STARTVU 1 False True,
     entry ''stopvu'' CMD_STOPVU 1 False True,
     entry ''dumpreg'' CMD_DUMPREG 2 True False,
     entry ''gsexec'' CMD_GSEXEC 2 True False,
     entry ''writemem'' CMD_WRITEMEM 3 True False,
     entry ''iopexcep'' CMD_IOPEXCEP 0 False True,
     entry ''listen'' CMD_LISTEN 0 False False,
     entry ''ping'' CMD_PING 0 True False,
     entry ''console'' CMD_CONSOLE 0 False False]"

definition regtypes :: "byte list list" where
  "regtypes = map lit [''dma'', ''intc'', ''timer'', ''gs'', ''sif'', ''fifo'', ''gif'', ''vif0'', ''vif1'', ''ipu'',
     ''all'', ''vu0'', ''vu1'']"

text \<open>The value of \<open>strtoul\<close> has 64 bits and is stored in 32. \<open>None\<close> is the return of \<open>-1\<close>.\<close>

definition parse_number :: "byte list \<Rightarrow> u32 option" where
  "parse_number s = (case strtoul0 s of (v, rest) \<Rightarrow>
     if s = [] \<or> rest \<noteq> [] then None else Some (of_nat v))"

fun regtype_loop :: "byte list \<Rightarrow> int \<Rightarrow> byte list list \<Rightarrow> int option" where
  "regtype_loop s loop0 [] = None"
| "regtype_loop s loop0 (t # ts) = (if s = t then Some loop0 else regtype_loop s (loop0 + 1) ts)"

definition parse_regtype :: "byte list \<Rightarrow> int" where
  "parse_regtype s = (case regtype_loop s 0 regtypes of Some i \<Rightarrow> i
     | None \<Rightarrow> (case parse_number s of Some value \<Rightarrow> sint value | None \<Rightarrow> -1))"

section \<open>Options\<close>

record options =
  o_hostname :: "byte list"
  o_timeout :: int
  o_marker :: "byte list option"

definition default_options :: options where
  "default_options = \<lparr>o_hostname = lit ''192.168.0.10'', o_timeout = -1, o_marker = None\<rparr>"

text \<open>\<open>snprintf (hostname, sizeof (hostname), "%s", value)\<close> on an array of 256 bytes.\<close>

definition set_hostname :: "byte list \<Rightarrow> options \<Rightarrow> options" where
  "set_hostname value o' = o'\<lparr>o_hostname := take 255 value\<rparr>"

fun parse_environment :: "byte list list \<Rightarrow> options \<Rightarrow> options" where
  "parse_environment [] o' = o'"
| "parse_environment (e # es) o' =
     parse_environment es (if take 12 e = lit ''PS2HOSTNAME='' then set_hostname (drop 12 e) o' else o')"

text \<open>The options, up to the first argument that is none; \<open>Inl\<close> is the exit with a usage error.\<close>

fun parse_options :: "byte list list \<Rightarrow> options \<Rightarrow> int + options \<times> byte list list" where
  "parse_options [] o' = Inr (o', [])"
| "parse_options (a # as) o' =
     (if a = lit ''-h'' then
        (case as of [] \<Rightarrow> Inl PS2CLIENT_EXIT_USAGE | v # as' \<Rightarrow> parse_options as' (set_hostname v o'))
      else if a = lit ''-t'' then
        (case as of [] \<Rightarrow> Inl PS2CLIENT_EXIT_USAGE | v # as' \<Rightarrow> parse_options as' (o'\<lparr>o_timeout := atoi v\<rparr>))
      else if a = lit ''-e'' then
        (case as of [] \<Rightarrow> Inl PS2CLIENT_EXIT_USAGE
         | v # as' \<Rightarrow> if v = [] then Inl PS2CLIENT_EXIT_USAGE else parse_options as' (o'\<lparr>o_marker := Some v\<rparr>))
      else Inr (o', a # as))"

section \<open>Commands\<close>

definition find_command :: "byte list \<Rightarrow> command_entry option" where
  "find_command name = find (\<lambda>c. name = ce_name c) commands"

text \<open>
  The checks of the arguments and the call of the command, for each command: \<open>None\<close> is a usage error,
  \<open>Some None\<close> a command that sends nothing. \<open>strnlen (argv[loop0], 257)\<close> bounds the length that is added.
\<close>

definition argv_length :: "byte list list \<Rightarrow> nat" where
  "argv_length argv = sum_list (map (\<lambda>a. min (length a) 257 + 1) argv)"

fun build_command :: "command_id \<Rightarrow> byte list list \<Rightarrow> link_command option option" where
  "build_command CMD_RESET argv = Some (Some Reset)"
| "build_command CMD_RESETCHECK argv = Some None"
| "build_command CMD_EXECIOP argv = (if 256 < argv_length argv then None else Some (Some (Execiop argv)))"
| "build_command CMD_EXECEE argv = (if 256 < argv_length argv then None else Some (Some (Execee argv)))"
| "build_command CMD_POWEROFF argv = Some (Some Poweroff)"
| "build_command CMD_SCRDUMP argv = Some (Some Scrdump)"
| "build_command CMD_NETDUMP argv = Some (Some Netdump)"
| "build_command CMD_DUMPMEM argv = (case (parse_number (argv ! 0), parse_number (argv ! 1)) of
     (Some off, Some sz) \<Rightarrow> Some (Some (Dumpmem off sz (argv ! 2))) | _ \<Rightarrow> None)"
| "build_command CMD_STARTVU argv = map_option (\<lambda>n. Some (Startvu n)) (parse_number (argv ! 0))"
| "build_command CMD_STOPVU argv = map_option (\<lambda>n. Some (Stopvu n)) (parse_number (argv ! 0))"
| "build_command CMD_DUMPREG argv = (let t = parse_regtype (argv ! 0) in
     if t < 0 then None else Some (Some (Dumpreg (word_of_int t) (argv ! 1))))"
| "build_command CMD_GSEXEC argv = map_option (\<lambda>n. Some (Gsexec n (argv ! 1))) (parse_number (argv ! 0))"
| "build_command CMD_WRITEMEM argv = (case (parse_number (argv ! 0), parse_number (argv ! 1)) of
     (Some off, Some sz) \<Rightarrow> Some (Some (Writemem off sz (argv ! 2))) | _ \<Rightarrow> None)"
| "build_command CMD_IOPEXCEP argv = Some (Some Iopexcep)"
| "build_command CMD_LISTEN argv = Some None"
| "build_command CMD_PING argv = Some None"
| "build_command CMD_CONSOLE argv = Some None"

text \<open>What \<open>main\<close> is going to do: run \<open>resetcheck\<close>, or connect for \<open>what\<close> and go on with a job.\<close>

datatype plan =
    Plan_Resetcheck "byte list" int
  | Plan_Connect "byte list" int int job "byte list option"

definition connect_what :: "command_entry \<Rightarrow> int" where
  "connect_what c =
     (if ce_id c \<noteq> CMD_CONSOLE then PS2LINK_CONNECT_COMMAND else 0)
     OR (if ce_needs_host c \<or> ce_id c = CMD_LISTEN then PS2LINK_CONNECT_REQUEST else 0)
     OR (if \<not> ce_no_wait c \<and> ce_id c \<noteq> CMD_PING then PS2LINK_CONNECT_CONSOLE else 0)"

text \<open>
  The ping measures its limit from before the connection; \<open>elapsed\<close> is the time the connection took.
\<close>

definition plan_command :: "int \<Rightarrow> options \<Rightarrow> command_entry \<Rightarrow> byte list list \<Rightarrow> int + plan" where
  "plan_command elapsed o' c argv =
     (if length argv < ce_args c then Inl PS2CLIENT_EXIT_USAGE
      else case build_command (ce_id c) argv of
        None \<Rightarrow> Inl PS2CLIENT_EXIT_USAGE
      | Some cmd \<Rightarrow>
          if ce_id c = CMD_RESETCHECK then
            (if argv \<noteq> [] then Inl PS2CLIENT_EXIT_USAGE
             else Inr (Plan_Resetcheck (o_hostname o') (if o_timeout o' < 0 then 10 else o_timeout o')))
          else
            let timeout = (if ce_no_wait c then 0 else o_timeout o') in
            if ce_id c = CMD_PING then
              let limit = (if 0 < timeout then c_int (timeout * 1000) else 2000) in
              Inr (Plan_Connect (o_hostname o') (connect_what c) limit
                \<lparr>j_command = None, j_ping = True, j_handshake_ms = limit - elapsed, j_timeout = timeout\<rparr> None)
            else Inr (Plan_Connect (o_hostname o') (connect_what c) 3000
                \<lparr>j_command = cmd, j_ping = False, j_handshake_ms = 3000, j_timeout = timeout\<rparr> (o_marker o')))"

definition plan_main :: "int \<Rightarrow> byte list list \<Rightarrow> byte list list \<Rightarrow> int + plan" where
  "plan_main elapsed env args =
     (if args = [] then Inl PS2CLIENT_EXIT_USAGE
      else case parse_options args (parse_environment env default_options) of
        Inl status \<Rightarrow> Inl status
      | Inr (o', []) \<Rightarrow> Inl PS2CLIENT_EXIT_USAGE
      | Inr (o', name # argv) \<Rightarrow>
          (case find_command name of None \<Rightarrow> Inl PS2CLIENT_EXIT_USAGE
           | Some c \<Rightarrow> plan_command elapsed o' c argv))"

section \<open>Facts\<close>

lemma find_command_in: "find_command name = Some c \<Longrightarrow> c \<in> set commands"
  by (auto simp: find_command_def find_Some_iff)

lemma argv_length_fits:
  "argv_length argv \<le> 256 \<Longrightarrow> sum_list (map (\<lambda>a. length a + 1) argv) \<le> 256"
proof -
  assume l: "argv_length argv \<le> 256"
  have "length a \<le> 256" if "a \<in> set argv" for a
    using that l member_le_sum_list [of "min (length a) 257 + 1" "map (\<lambda>a. min (length a) 257 + 1) argv"]
    by (auto simp: argv_length_def)
  then have "map (\<lambda>a. length a + 1) argv = map (\<lambda>a. min (length a) 257 + 1) argv" by force
  with l show ?thesis by (simp only: argv_length_def)
qed

text \<open>The arguments that are left after the options are some of the arguments.\<close>

lemma parse_options_set: "parse_options args o' = Inr (o'', rest) \<Longrightarrow> set rest \<subseteq> set args"
proof (induction args o' rule: parse_options.induct)
  case (2 a as o')
  then show ?case by (cases as) (auto split: if_splits)
qed simp

lemma parse_options_error: "parse_options args o' = Inl st \<Longrightarrow> st = PS2CLIENT_EXIT_USAGE"
proof (induction args o' rule: parse_options.induct)
  case (2 a as o')
  then show ?case by (cases as) (auto split: if_splits)
qed simp

lemma build_command_exec:
  "build_command i argv = Some (Some (Execiop av)) \<Longrightarrow> argv = av \<and> argv_length av \<le> 256"
  "build_command i argv = Some (Some (Execee av)) \<Longrightarrow> argv = av \<and> argv_length av \<le> 256"
  by (cases i; auto simp: Let_def split: if_splits option.splits)+

lemma plan_command_job:
  "plan_command elapsed o' c argv = Inr (Plan_Connect host what limit J marker) \<Longrightarrow> j_command J = Some cmd \<Longrightarrow>
     build_command (ce_id c) argv = Some (Some cmd)"
  by (auto simp: plan_command_def Let_def split: if_splits option.splits)

text \<open>Commands that make the PS2 read or write files of the host.\<close>

fun uses_host :: "link_command \<Rightarrow> bool" where
  "uses_host (Execiop _) = True"
| "uses_host (Execee _) = True"
| "uses_host (Dumpmem _ _ _) = True"
| "uses_host (Dumpreg _ _) = True"
| "uses_host (Gsexec _ _) = True"
| "uses_host (Writemem _ _ _) = True"
| "uses_host _ = False"

lemma connect_what_bits:
  "connect_what c AND PS2LINK_CONNECT_COMMAND \<noteq> 0 \<longleftrightarrow> ce_id c \<noteq> CMD_CONSOLE"
  "connect_what c AND PS2LINK_CONNECT_REQUEST \<noteq> 0 \<longleftrightarrow> ce_needs_host c \<or> ce_id c = CMD_LISTEN"
  "connect_what c AND PS2LINK_CONNECT_CONSOLE \<noteq> 0 \<longleftrightarrow> \<not> ce_no_wait c \<and> ce_id c \<noteq> CMD_PING"
  by (simp_all add: connect_what_def connect_flags)

lemma parse_environment_host:
  "length (o_hostname o') \<le> 255 \<Longrightarrow> length (o_hostname (parse_environment env o')) \<le> 255"
  by (induction env o' rule: parse_environment.induct) (auto simp: set_hostname_def)

lemma parse_options_host:
  "length (o_hostname o') \<le> 255 \<Longrightarrow> parse_options args o' = Inr (o'', rest) \<Longrightarrow> length (o_hostname o'') \<le> 255"
proof (induction args o' rule: parse_options.induct)
  case (2 a as o')
  then show ?case by (cases as) (auto simp: set_hostname_def split: if_splits)
qed simp

lemma build_command_host:
  "c \<in> set commands \<Longrightarrow> build_command (ce_id c) argv = Some (Some cmd) \<Longrightarrow>
     ce_id c \<noteq> CMD_CONSOLE \<and> ce_id c \<noteq> CMD_LISTEN \<and> ce_needs_host c = uses_host cmd"
  by (auto simp: commands_def entry_def Let_def split: if_splits option.splits)

lemma plan_command_cases:
  "case plan_command elapsed o' c argv of Inl st \<Rightarrow> st = PS2CLIENT_EXIT_USAGE
   | Inr (Plan_Resetcheck h t) \<Rightarrow> h = o_hostname o' \<and> 0 \<le> t
   | Inr (Plan_Connect h what limit J marker) \<Rightarrow> h = o_hostname o' \<and> what = connect_what c"
  by (simp add: plan_command_def Let_def split: option.splits)

lemma plan_main_connect:
  assumes "plan_main elapsed env args = Inr (Plan_Connect host what limit J marker)"
  obtains o' name rest c where "parse_options args (parse_environment env default_options) = Inr (o', name # rest)"
    and "find_command name = Some c" and "plan_command elapsed o' c rest = Inr (Plan_Connect host what limit J marker)"
  using assms by (auto simp: plan_main_def split: if_splits sum.splits list.splits option.splits)

lemma plan_main_usage: "plan_main elapsed env args = Inl status \<Longrightarrow> status = PS2CLIENT_EXIT_USAGE"
  by (auto simp: plan_main_def plan_command_def Let_def dest: parse_options_error
      split: if_splits sum.splits list.splits option.splits prod.splits)

text \<open>A command read from arguments that are C strings of at most 255 bytes fits its packet.\<close>

lemma build_command_fits:
  assumes "c \<in> set commands" and "ce_args c \<le> length argv" and "build_command (ce_id c) argv = Some (Some cmd)"
    and "\<forall>a \<in> set argv. 0 \<notin> set a \<and> length a \<le> 255"
  shows "fits cmd"
proof -
  have nth: "0 \<notin> set (argv ! i) \<and> length (argv ! i) \<le> 255" if "i < length argv" for i
    using assms(4) that by simp
  show ?thesis
    using assms(1-3) assms(4) nth [of 1] nth [of 2] argv_length_fits [of argv]
    by (auto simp: commands_def entry_def Let_def split: if_splits option.splits)
qed

lemma planned_command:
  assumes "plan_main elapsed env args = Inr (Plan_Connect host what limit J marker)" and "j_command J = Some cmd"
  shows "what AND PS2LINK_CONNECT_COMMAND \<noteq> 0" and "\<not> j_ping J"
    and "list_all (\<lambda>a. 0 \<notin> set a \<and> length a \<le> 255) args \<Longrightarrow> fits cmd"
proof -
  obtain o' name rest c where o: "parse_options args (parse_environment env default_options) = Inr (o', name # rest)"
    "find_command name = Some c" "plan_command elapsed o' c rest = Inr (Plan_Connect host what limit J marker)"
    using plan_main_connect [OF assms(1)] .
  note c = find_command_in [OF o(2)] and b = plan_command_job [OF o(3) assms(2)]
  have l: "ce_args c \<le> length rest" and w: "what = connect_what c" and p: "\<not> j_ping J"
    using o(3) assms(2) by (auto simp: plan_command_def Let_def split: if_splits option.splits)
  show "what AND PS2LINK_CONNECT_COMMAND \<noteq> 0"
    using build_command_host [OF c b] unfolding w connect_what_bits by simp
  show "\<not> j_ping J" by (rule p)
  show "fits cmd" if "list_all (\<lambda>a. 0 \<notin> set a \<and> length a \<le> 255) args"
    using build_command_fits [OF c l b] parse_options_set [OF o(1)] that by (auto simp: list_all_iff)
qed

lemma find_command_name: "find_command name = Some c \<Longrightarrow> ce_name c = name"
  by (auto simp: find_command_def find_Some_iff)

text \<open>
  What the words of the command line ask for: the command of that name, with the words as they are for
  file names and arguments, and the numbers as \<open>parse_number\<close> reads them, which is modulo \<open>2 ^ 32\<close>.
\<close>

definition asks :: "byte list \<Rightarrow> byte list list \<Rightarrow> link_command \<Rightarrow> bool" where
  "asks name argv cmd = (case cmd of
     Reset \<Rightarrow> name = lit ''reset''
   | Execiop as \<Rightarrow> name = lit ''execiop'' \<and> as = argv
   | Execee as \<Rightarrow> name = lit ''execee'' \<and> as = argv
   | Poweroff \<Rightarrow> name = lit ''poweroff''
   | Scrdump \<Rightarrow> name = lit ''scrdump''
   | Netdump \<Rightarrow> name = lit ''netdump''
   | Dumpmem off sz path \<Rightarrow> name = lit ''dumpmem'' \<and> 3 \<le> length argv \<and> parse_number (argv ! 0) = Some off
       \<and> parse_number (argv ! 1) = Some sz \<and> path = argv ! 2
   | Startvu vu \<Rightarrow> name = lit ''startvu'' \<and> 1 \<le> length argv \<and> parse_number (argv ! 0) = Some vu
   | Stopvu vu \<Rightarrow> name = lit ''stopvu'' \<and> 1 \<le> length argv \<and> parse_number (argv ! 0) = Some vu
   | Dumpreg ty path \<Rightarrow> name = lit ''dumpreg'' \<and> 2 \<le> length argv \<and> 0 \<le> parse_regtype (argv ! 0)
       \<and> ty = word_of_int (parse_regtype (argv ! 0)) \<and> path = argv ! 1
   | Gsexec sz path \<Rightarrow> name = lit ''gsexec'' \<and> 2 \<le> length argv \<and> parse_number (argv ! 0) = Some sz \<and> path = argv ! 1
   | Writemem off sz path \<Rightarrow> name = lit ''writemem'' \<and> 3 \<le> length argv \<and> parse_number (argv ! 0) = Some off
       \<and> parse_number (argv ! 1) = Some sz \<and> path = argv ! 2
   | Iopexcep \<Rightarrow> name = lit ''iopexcep'')"

lemma build_command_asks:
  "c \<in> set commands \<Longrightarrow> ce_args c \<le> length argv \<Longrightarrow> build_command (ce_id c) argv = Some (Some cmd) \<Longrightarrow>
     asks (ce_name c) argv cmd"
  by (auto simp: commands_def entry_def asks_def Let_def split: if_splits option.splits)

lemma planned_asks:
  assumes "plan_main elapsed env args = Inr (Plan_Connect host what limit J marker)" and "j_command J = Some cmd"
  shows "\<exists>o' name argv. parse_options args (parse_environment env default_options) = Inr (o', name # argv)
    \<and> asks name argv cmd"
proof -
  obtain o' name rest c where o: "parse_options args (parse_environment env default_options) = Inr (o', name # rest)"
    "find_command name = Some c" "plan_command elapsed o' c rest = Inr (Plan_Connect host what limit J marker)"
    using plan_main_connect [OF assms(1)] .
  have "ce_args c \<le> length rest" using o(3) by (auto simp: plan_command_def split: if_splits)
  from build_command_asks [OF find_command_in [OF o(2)] this plan_command_job [OF o(3) assms(2)]] o(1) show ?thesis
    by (auto simp: find_command_name [OF o(2)])
qed

section \<open>Properties\<close>

text \<open>
  The commands by what they need: files of the host for the PS2, or no more than the console, or no
  waiting at all.
\<close>

definition serving_commands :: "byte list list" where
  "serving_commands = map lit [''execiop'', ''execee'', ''dumpmem'', ''dumpreg'', ''gsexec'', ''writemem'', ''listen'']"

definition silent_commands :: "byte list list" where
  "silent_commands = map lit [''reset'', ''poweroff'', ''scrdump'', ''netdump'', ''startvu'', ''stopvu'', ''iopexcep'']"

lemma command_table:
  "list_all (\<lambda>c. let name = ce_name c; what = connect_what c in
     0 \<le> what \<and> what \<le> 7
     \<and> (what AND PS2LINK_CONNECT_COMMAND \<noteq> 0) = (name \<noteq> lit ''console'')
     \<and> (what AND PS2LINK_CONNECT_REQUEST \<noteq> 0) = (name \<in> set (lit ''ping'' # serving_commands))
     \<and> (what AND PS2LINK_CONNECT_CONSOLE \<noteq> 0) = (name \<in> set (lit ''console'' # serving_commands))
     \<and> (ce_id c = CMD_PING) = (name = lit ''ping'') \<and> (ce_id c = CMD_RESETCHECK) = (name = lit ''resetcheck'')
     \<and> ce_no_wait c = (name \<in> set (lit ''resetcheck'' # silent_commands))
     \<and> (ce_id c \<in> {CMD_LISTEN, CMD_PING, CMD_CONSOLE, CMD_RESETCHECK})
         = (name \<in> set (map lit [''listen'', ''ping'', ''console'', ''resetcheck'']))) commands"
  by code_simp

lemma build_command_none:
  "build_command i argv = Some cmd \<Longrightarrow> (cmd = None) = (i \<in> {CMD_LISTEN, CMD_PING, CMD_CONSOLE, CMD_RESETCHECK})"
  by (cases i) (auto simp: Let_def split: if_splits option.splits)

text \<open>(C28) What \<open>main\<close> sets out to do, for any environment and arguments. Every error found before the
  network is touched is a usage error with status 64. Otherwise the host name fits its buffer, and for
  each command exactly the connections it needs are asked for: the command socket for all but \<open>console\<close>; the
  request connection, and so the handshake, for \<open>ping\<close>, \<open>listen\<close> and the six commands that make the PS2 use
  files of the host; the console for the same but \<open>ping\<close>, and for \<open>console\<close>. The commands that only send a
  datagram do not wait, the others wait as long as \<open>-t\<close> says; \<open>listen\<close>, \<open>console\<close> and \<open>ping\<close> send no
  command; and only \<open>resetcheck\<close> goes its own way.\<close>

theorem plan_connects:
  "case plan_main elapsed env args of Inl st \<Rightarrow> st = PS2CLIENT_EXIT_USAGE
   | Inr plan \<Rightarrow> \<exists>o' name argv. parse_options args (parse_environment env default_options) = Inr (o', name # argv)
       \<and> length (o_hostname o') \<le> 255
       \<and> (case plan of
            Plan_Resetcheck h t \<Rightarrow> name = lit ''resetcheck'' \<and> h = o_hostname o'
              \<and> t = (if o_timeout o' < 0 then 10 else o_timeout o')
          | Plan_Connect h what limit J marker \<Rightarrow> name \<noteq> lit ''resetcheck'' \<and> h = o_hostname o'
              \<and> 0 \<le> what \<and> what \<le> 7
              \<and> (what AND PS2LINK_CONNECT_COMMAND \<noteq> 0) = (name \<noteq> lit ''console'')
              \<and> (what AND PS2LINK_CONNECT_REQUEST \<noteq> 0) = (name \<in> set (lit ''ping'' # serving_commands))
              \<and> (what AND PS2LINK_CONNECT_CONSOLE \<noteq> 0) = (name \<in> set (lit ''console'' # serving_commands))
              \<and> j_timeout J = (if name \<in> set silent_commands then 0 else o_timeout o')
              \<and> j_ping J = (name = lit ''ping'')
              \<and> (j_command J = None) = (name \<in> set (map lit [''listen'', ''ping'', ''console''])))"
proof (cases "plan_main elapsed env args")
  case (Inl st)
  then show ?thesis using plan_main_usage by simp
next
  case (Inr plan)
  then obtain o' name argv c where o: "parse_options args (parse_environment env default_options) = Inr (o', name # argv)"
    "find_command name = Some c" "plan_command elapsed o' c argv = Inr plan"
    by (auto simp: plan_main_def split: if_splits sum.splits list.splits option.splits)
  have host: "length (o_hostname o') \<le> 255"
    using parse_options_host [OF parse_environment_host o(1)] by (simp add: default_options_def)
  have row: "let name = ce_name c; what = connect_what c in
     0 \<le> what \<and> what \<le> 7
     \<and> (what AND PS2LINK_CONNECT_COMMAND \<noteq> 0) = (name \<noteq> lit ''console'')
     \<and> (what AND PS2LINK_CONNECT_REQUEST \<noteq> 0) = (name \<in> set (lit ''ping'' # serving_commands))
     \<and> (what AND PS2LINK_CONNECT_CONSOLE \<noteq> 0) = (name \<in> set (lit ''console'' # serving_commands))
     \<and> (ce_id c = CMD_PING) = (name = lit ''ping'') \<and> (ce_id c = CMD_RESETCHECK) = (name = lit ''resetcheck'')
     \<and> ce_no_wait c = (name \<in> set (lit ''resetcheck'' # silent_commands))
     \<and> (ce_id c \<in> {CMD_LISTEN, CMD_PING, CMD_CONSOLE, CMD_RESETCHECK})
         = (name \<in> set (map lit [''listen'', ''ping'', ''console'', ''resetcheck'']))"
    using bspec [OF command_table [unfolded list_all_iff] find_command_in [OF o(2)]] .
  obtain cmd where b: "build_command (ce_id c) argv = Some cmd"
    using o(3) by (auto simp: plan_command_def split: if_splits option.splits)
  note none = build_command_none [OF b]
  show ?thesis
  proof (cases plan)
    case (Plan_Resetcheck h t)
    with o b row find_command_name [OF o(2)] host Inr show ?thesis
      by (auto simp: plan_command_def Let_def split: if_splits)
  next
    case (Plan_Connect h what limit J marker)
    with o(3) b have p: "ce_id c \<noteq> CMD_RESETCHECK" "h = o_hostname o'" "what = connect_what c"
      "j_timeout J = (if ce_no_wait c then 0 else o_timeout o')" "j_ping J = (ce_id c = CMD_PING)"
      "j_command J = (if ce_id c = CMD_PING then None else cmd)"
      by (auto simp: plan_command_def Let_def split: if_splits)
    have "(j_command J = None) = (name \<in> set (map lit [''listen'', ''ping'', ''console'']))"
      using p(1,6) none row unfolding Let_def find_command_name [OF o(2)] by auto
    moreover have "ce_no_wait c = (name \<in> set silent_commands)" "name \<noteq> lit ''resetcheck''"
      using p(1) row unfolding Let_def find_command_name [OF o(2)] by auto
    ultimately show ?thesis
      using Inr Plan_Connect o(1) host p row unfolding Let_def find_command_name [OF o(2)] by simp
  qed
qed

text \<open>Numbers on the command line: the decimal notation of every 32 bit number is read as that
  number.\<close>

theorem parse_number_decimal:
  assumes "n < 2 ^ 32"
  shows "parse_number (decimal n) = Some (of_nat n)"
proof -
  have "decimal n \<noteq> []" by (simp add: decimal.simps [of n])
  then show ?thesis using strtoul0_decimal [of n] assms by (simp add: parse_number_def)
qed

theorem parse_number_decimal_witness: "parse_number (decimal 1048576) = Some 0x100000"
  using parse_number_decimal [of 1048576] by simp

text \<open>The usage text is right about the commands: every command of the table has a line of its own in
  it, which names as many arguments in angle brackets as \<open>main\<close> requires for the command.\<close>

theorem usage_lists_commands:
  "list_all (\<lambda>c. list_ex (\<lambda>(l, newlines). lit (take 3 l) = lit ''   ''
       \<and> lit (takeWhile (\<lambda>x. x \<noteq> CHR '' '') (drop 3 l)) = ce_name c
       \<and> length (filter (\<lambda>x. x = CHR ''<'') l) = ce_args c) usage_lines) commands"
  by (simp add: usage_lines_def commands_def entry_def lit_def)

text \<open>A leading zero selects octal, and what does not fit 32 bits is cut off without an error.\<close>

theorem parse_number_oddities:
  "parse_number (lit ''010'') = Some 8 \<and> parse_number (lit ''4294967296'') = Some 0
   \<and> parse_number (lit ''0x10'') = Some 16 \<and> parse_number (lit ''12z'') = None \<and> parse_number [] = None"
  by (simp add: parse_number_def number_simps lit_def)

text \<open>(C27) A program is only ever started with its whole command line: when \<open>main\<close> goes on to connect
  for \<open>execiop\<close> or \<open>execee\<close>, the arguments fit the 256 bytes of the packet, so that packing them
  succeeds and unpacking gives them back.\<close>

theorem exec_arguments_fit:
  assumes "list_all (\<lambda>a. 0 \<notin> set a) args" and "plan_main elapsed env args = Inr (Plan_Connect host what limit J marker)"
    and "j_command J = Some (Execiop argv) \<or> j_command J = Some (Execee argv)"
  shows "\<exists>area. fix_argv 256 argv = Some area \<and> length area = 256 \<and> unpack_argv (length argv) area = argv"
proof -
  obtain o' name rest c where o: "parse_options args (parse_environment env default_options) = Inr (o', name # rest)"
    "find_command name = Some c" "plan_command elapsed o' c rest = Inr (Plan_Connect host what limit J marker)"
    using plan_main_connect [OF assms(2)] .
  have "rest = argv \<and> argv_length argv \<le> 256"
    using plan_command_job [OF o(3)] assms(3) build_command_exec by blast
  moreover have "\<forall>a \<in> set rest. 0 \<notin> set a"
    using parse_options_set [OF o(1)] assms(1) by (auto simp: list_all_iff)
  ultimately show ?thesis
    by (metis argv_length_fits fix_argv_fits)
qed

theorem exec_arguments_fit_witness:
  "\<exists>area. fix_argv 256 [lit ''host:a.elf'', lit ''x''] = Some area \<and> length area = 256
     \<and> unpack_argv 2 area = [lit ''host:a.elf'', lit ''x'']"
proof -
  let ?args = "[lit ''-t'', lit ''5'', lit ''execee'', lit ''host:a.elf'', lit ''x'']"
  have "list_all (\<lambda>a. 0 \<notin> set a) ?args" by (simp add: lit_def)
  moreover have "plan_main 0 [] ?args = Inr (Plan_Connect (lit ''192.168.0.10'') 7 3000
      \<lparr>j_command = Some (Execee [lit ''host:a.elf'', lit ''x'']), j_ping = False, j_handshake_ms = 3000, j_timeout = atoi (lit ''5'')\<rparr> None)"
    by (simp add: plan_main_def default_options_def lit_def find_command_def commands_def entry_def plan_command_def
        argv_length_def connect_what_def connect_flags Let_def)
  ultimately show ?thesis
    using exec_arguments_fit [where argv = "[lit ''host:a.elf'', lit ''x'']"] by (fastforce simp: numeral_2_eq_2)
qed

end
