(* ===== verification/Resetcheck.thy ===== *)
theory Resetcheck
  imports Link_Connect Posix
begin

text \<open>
  \<^verbatim>\<open>src/resetcheck.c\<close>: the command that resets the PS2 and watches it go away and come back. It runs
  ps2client itself as a child process for every ping and for the reset. The system is a parameter:
  what becomes of a child, the clock and the pause. The state keeps, beside the world, the command
  lines that were run with the status \<open>run_command\<close> made of them. Messages are not modelled.
\<close>

text \<open>
  A child: \<open>fork\<close> fails, or \<open>waitpid\<close> is interrupted some number of times and then gives a status, or fails.
  A child whose \<open>execvp\<close> fails exits with 127.
\<close>

datatype child = Fork_Failed | Waited nat "u32 option"

record 'w reset_os =
  os_spawn :: "byte list list \<Rightarrow> bool \<Rightarrow> 'w \<Rightarrow> child \<times> 'w"
  os_clock :: "'w \<Rightarrow> int \<times> 'w"
  os_sleep :: "int \<Rightarrow> 'w \<Rightarrow> 'w"

record 'w reset_state =
  rc_world :: 'w
  rc_runs :: "(byte list list \<times> int) list"

primrec wait_loop :: "nat \<Rightarrow> u32 option \<Rightarrow> int" where
  "wait_loop 0 answer = (case answer of None \<Rightarrow> -1
     | Some status \<Rightarrow> if WIFEXITED status then WEXITSTATUS status else -1)"
| "wait_loop (Suc interrupted) answer = wait_loop interrupted answer"

definition child_args :: "byte list \<Rightarrow> byte list \<Rightarrow> byte list \<Rightarrow> byte list list" where
  "child_args executable hostname name = [executable, lit ''-h'', hostname, lit ''-t'', lit ''1'', name]"

definition run_command ::
  "'w reset_os \<Rightarrow> byte list \<Rightarrow> byte list \<Rightarrow> byte list \<Rightarrow> bool \<Rightarrow> ('w reset_state, int) state" where
  "run_command S executable hostname name quiet = State (\<lambda>s.
     let args = child_args executable hostname name in
     case os_spawn S args quiet (rc_world s) of (child, w) \<Rightarrow>
       let status = (case child of Fork_Failed \<Rightarrow> -1 | Waited interrupted answer \<Rightarrow> wait_loop interrupted answer)
       in (status, s\<lparr>rc_world := w, rc_runs := rc_runs s @ [(args, status)]\<rparr>))"

definition rc_time_ms :: "'w reset_os \<Rightarrow> ('w reset_state, int) state" where
  "rc_time_ms S = State (\<lambda>s. case os_clock S (rc_world s) of (t, w) \<Rightarrow> (t, s\<lparr>rc_world := w\<rparr>))"

definition rc_sleep_ms :: "'w reset_os \<Rightarrow> int \<Rightarrow> ('w reset_state, unit) state" where
  "rc_sleep_ms S ms = modify (\<lambda>s. s\<lparr>rc_world := os_sleep S ms (rc_world s)\<rparr>)"

text \<open>
  One pass of \<open>while (time_ms() < deadline)\<close>: the status to return, or \<open>saw_outage\<close> for the next pass.
\<close>

definition check_round ::
  "'w reset_os \<Rightarrow> byte list \<Rightarrow> byte list \<Rightarrow> int \<Rightarrow> bool \<Rightarrow> ('w reset_state, int + bool) state" where
  "check_round S executable hostname deadline saw_outage = do {
     now \<leftarrow> rc_time_ms S;
     if deadline \<le> now then ret (Inl PS2CLIENT_EXIT_TIMEOUT)
     else do {
       status \<leftarrow> run_command S executable hostname (lit ''ping'') True;
       if status = PS2CLIENT_EXIT_OK \<and> saw_outage then ret (Inl PS2CLIENT_EXIT_OK)
       else do {
         now \<leftarrow> rc_time_ms S;
         _ \<leftarrow> (if now < deadline then rc_sleep_ms S 150 else ret ());
         ret (Inr (saw_outage \<or> status \<noteq> PS2CLIENT_EXIT_OK)) } } }"

text \<open>The loop ends by the clock only, so it is a partial function: \<open>None\<close> is a loop that never ends.\<close>

partial_function (option) check_loop ::
  "'w reset_os \<Rightarrow> byte list \<Rightarrow> byte list \<Rightarrow> int \<Rightarrow> bool \<Rightarrow> 'w reset_state \<Rightarrow> (int \<times> 'w reset_state) option" where
  "check_loop S executable hostname deadline saw_outage s =
     (case run_state (check_round S executable hostname deadline saw_outage) s of (next, s') \<Rightarrow>
       (case next of Inl status \<Rightarrow> Some (status, s')
        | Inr saw \<Rightarrow> check_loop S executable hostname deadline saw s'))"

declare check_loop.simps [code]

definition ps2client_resetcheck ::
  "'w reset_os \<Rightarrow> byte list \<Rightarrow> byte list \<Rightarrow> int \<Rightarrow> 'w reset_state \<Rightarrow> (int \<times> 'w reset_state) option" where
  "ps2client_resetcheck S executable hostname timeout_seconds s =
     (if timeout_seconds < 1 \<or> 120 < timeout_seconds then Some (PS2CLIENT_EXIT_USAGE, s)
      else case run_state (run_command S executable hostname (lit ''ping'') True) s of (status, s) \<Rightarrow>
        if status \<noteq> PS2CLIENT_EXIT_OK then Some (PS2CLIENT_EXIT_NOCONNECT, s)
        else case run_state (run_command S executable hostname (lit ''reset'') True) s of (status, s) \<Rightarrow>
          if status \<noteq> PS2CLIENT_EXIT_OK then Some (PS2CLIENT_EXIT_NOCONNECT, s)
          else case run_state (rc_time_ms S) s of (now, s) \<Rightarrow>
            check_loop S executable hostname (now + timeout_seconds * 1000) False s)"

section \<open>What is run\<close>

abbreviation ping_args :: "byte list \<Rightarrow> byte list \<Rightarrow> byte list list" where
  "ping_args executable hostname \<equiv> child_args executable hostname (lit ''ping'')"

abbreviation reset_args :: "byte list \<Rightarrow> byte list \<Rightarrow> byte list list" where
  "reset_args executable hostname \<equiv> child_args executable hostname (lit ''reset'')"

lemma run_command_runs:
  "run_state (run_command S e h name q) s = (st, s') \<Longrightarrow> rc_runs s' = rc_runs s @ [(child_args e h name, st)]"
  by (auto simp: run_command_def Let_def split: prod.splits)

lemma rc_clock_runs:
  "run_state (rc_time_ms S) s = (t, s') \<Longrightarrow> rc_runs s' = rc_runs s"
  by (auto simp: rc_time_ms_def split: prod.splits)

lemma check_round_run:
  assumes "run_state (rc_time_ms S) s = (t, s1)"
    and "run_state (run_command S e h (lit ''ping'') True) s1 = (st, s2)"
    and "run_state (rc_time_ms S) s2 = (t', s3)"
  shows "run_state (check_round S e h d saw) s =
    (if d \<le> t then (Inl PS2CLIENT_EXIT_TIMEOUT, s1)
     else if st = PS2CLIENT_EXIT_OK \<and> saw then (Inl PS2CLIENT_EXIT_OK, s2)
     else (Inr (saw \<or> st \<noteq> PS2CLIENT_EXIT_OK),
           if t' < d then s3\<lparr>rc_world := os_sleep S 150 (rc_world s3)\<rparr> else s3))"
  using assms by (simp add: check_round_def rc_sleep_ms_def)

lemma check_round_runs:
  assumes "run_state (check_round S e h d saw) s = (next, s')"
  shows "next = Inl PS2CLIENT_EXIT_TIMEOUT \<and> rc_runs s' = rc_runs s
    \<or> (\<exists>st. rc_runs s' = rc_runs s @ [(ping_args e h, st)]
        \<and> next = (if st = PS2CLIENT_EXIT_OK \<and> saw then Inl PS2CLIENT_EXIT_OK
                  else Inr (saw \<or> st \<noteq> PS2CLIENT_EXIT_OK)))"
proof -
  obtain t s1 where 1: "run_state (rc_time_ms S) s = (t, s1)" by force
  obtain st s2 where 2: "run_state (run_command S e h (lit ''ping'') True) s1 = (st, s2)" by force
  obtain t' s3 where 3: "run_state (rc_time_ms S) s2 = (t', s3)" by force
  note runs = rc_clock_runs [OF 1] run_command_runs [OF 2] rc_clock_runs [OF 3]
  show ?thesis
  proof (cases "d \<le> t")
    case True
    with assms runs show ?thesis by (simp add: check_round_run [OF 1 2 3])
  next
    case False
    with assms have "s' = s2 \<or> s' = s3 \<or> s' = s3\<lparr>rc_world := os_sleep S 150 (rc_world s3)\<rparr>"
      and n: "next = (if st = PS2CLIENT_EXIT_OK \<and> saw then Inl PS2CLIENT_EXIT_OK
        else Inr (saw \<or> st \<noteq> PS2CLIENT_EXIT_OK))"
      unfolding check_round_run [OF 1 2 3] by (auto split: if_splits)
    with runs have "rc_runs s' = rc_runs s @ [(ping_args e h, st)]" by (elim disjE) simp_all
    with n show ?thesis by blast
  qed
qed

text \<open>
  The pings of the loop: some that were answered while no outage was seen, then some that were not, and
  after these, if there were any, the one that ends the loop well.
\<close>

definition watched :: "byte list list \<Rightarrow> bool \<Rightarrow> int \<Rightarrow> (byte list list \<times> int) list \<Rightarrow> bool" where
  "watched ping saw status runs \<longleftrightarrow> (\<exists>up down. PS2CLIENT_EXIT_OK \<notin> set down \<and> (saw \<longrightarrow> up = 0)
     \<and> (status = PS2CLIENT_EXIT_OK \<and> (saw \<or> down \<noteq> [])
          \<and> runs = replicate up (ping, PS2CLIENT_EXIT_OK) @ map (Pair ping) down @ [(ping, PS2CLIENT_EXIT_OK)]
        \<or> status = PS2CLIENT_EXIT_TIMEOUT \<and> runs = replicate up (ping, PS2CLIENT_EXIT_OK) @ map (Pair ping) down))"

lemma watched_start:
  "watched ping saw PS2CLIENT_EXIT_TIMEOUT []"
  "watched ping True PS2CLIENT_EXIT_OK [(ping, PS2CLIENT_EXIT_OK)]"
  by (force simp: watched_def)+

lemma watched_up:
  assumes "watched ping False status runs"
  shows "watched ping False status ((ping, PS2CLIENT_EXIT_OK) # runs)"
proof -
  obtain up down where "PS2CLIENT_EXIT_OK \<notin> set down" "status = PS2CLIENT_EXIT_OK \<and> down \<noteq> []
          \<and> runs = replicate up (ping, PS2CLIENT_EXIT_OK) @ map (Pair ping) down @ [(ping, PS2CLIENT_EXIT_OK)]
        \<or> status = PS2CLIENT_EXIT_TIMEOUT \<and> runs = replicate up (ping, PS2CLIENT_EXIT_OK) @ map (Pair ping) down"
    using assms by (auto simp: watched_def)
  then show ?thesis unfolding watched_def by (intro exI [of _ "Suc up"] exI [of _ down]) auto
qed

lemma watched_down:
  assumes "watched ping True status runs" and "st \<noteq> PS2CLIENT_EXIT_OK"
  shows "watched ping saw status ((ping, st) # runs)"
proof -
  obtain down where "PS2CLIENT_EXIT_OK \<notin> set down" "status = PS2CLIENT_EXIT_OK
          \<and> runs = map (Pair ping) down @ [(ping, PS2CLIENT_EXIT_OK)]
        \<or> status = PS2CLIENT_EXIT_TIMEOUT \<and> runs = map (Pair ping) down"
    using assms(1) by (auto simp: watched_def)
  with assms(2) show ?thesis unfolding watched_def by (intro exI [of _ 0] exI [of _ "st # down"]) auto
qed

lemma check_loop_watched:
  assumes ret: "check_loop S e h d saw s = Some y"
  shows "\<exists>runs. rc_runs (snd y) = rc_runs s @ runs \<and> watched (ping_args e h) saw (fst y) runs"
proof (rule check_loop.raw_induct [where P = "\<lambda>S e h d saw s y.
    \<exists>runs. rc_runs (snd y) = rc_runs s @ runs \<and> watched (ping_args e h) saw (fst y) runs", OF _ ret])
  fix loop :: "'a reset_os \<Rightarrow> byte list \<Rightarrow> byte list \<Rightarrow> int \<Rightarrow> bool \<Rightarrow> 'a reset_state \<Rightarrow> (int \<times> 'a reset_state) option"
    and S e h d saw and s :: "'a reset_state" and y
  assume IH: "\<And>S e h d saw s y. loop S e h d saw s = Some y \<Longrightarrow>
      \<exists>runs. rc_runs (snd y) = rc_runs s @ runs \<and> watched (ping_args e h) saw (fst y) runs"
    and eq: "(case run_state (check_round S e h d saw) s of (next, s') \<Rightarrow>
       (case next of Inl status \<Rightarrow> Some (status, s') | Inr saw \<Rightarrow> loop S e h d saw s')) = Some y"
  obtain "next" s1 where r: "run_state (check_round S e h d saw) s = (next, s1)" by force
  show "\<exists>runs. rc_runs (snd y) = rc_runs s @ runs \<and> watched (ping_args e h) saw (fst y) runs"
  proof (cases "next")
    case (Inl st)
    with eq r check_round_runs [OF r] show ?thesis
      using watched_start by (auto split: if_splits)
  next
    case (Inr saw')
    with check_round_runs [OF r] obtain st where st: "rc_runs s1 = rc_runs s @ [(ping_args e h, st)]"
      "saw' \<longleftrightarrow> saw \<or> st \<noteq> PS2CLIENT_EXIT_OK" "\<not> (st = PS2CLIENT_EXIT_OK \<and> saw)"
      by (auto split: if_splits)
    from eq r Inr have "loop S e h d saw' s1 = Some y" by simp
    from IH [OF this] obtain runs where "rc_runs (snd y) = rc_runs s1 @ runs" "watched (ping_args e h) saw' (fst y) runs"
      by blast
    with st watched_up watched_down show ?thesis
      by (intro exI [of _ "(ping_args e h, st) # runs"]) (cases "st = PS2CLIENT_EXIT_OK"; auto)
  qed
qed

section \<open>The clock ends the loop\<close>

text \<open>
  What is relied on of the system, seen through the time \<open>now\<close> of a world: a reading of the clock lies
  between the times before and after it, time does not run backwards while a child runs, and a pause
  lasts at least as long as it was asked to.
\<close>

definition clock_ok :: "'w reset_os \<Rightarrow> ('w \<Rightarrow> int) \<Rightarrow> bool" where
  "clock_ok S now \<longleftrightarrow> (\<forall>w. case os_clock S w of (t, w') \<Rightarrow> now w \<le> t \<and> t \<le> now w')
     \<and> (\<forall>args q w. now w \<le> now (snd (os_spawn S args q w))) \<and> (\<forall>ms w. now w + ms \<le> now (os_sleep S ms w))"

lemma clock_steps:
  assumes "clock_ok S now"
  shows "run_state (rc_time_ms S) s = (t, s') \<Longrightarrow> now (rc_world s) \<le> t \<and> t \<le> now (rc_world s')"
    and "run_state (run_command S e h name q) s = (st, s') \<Longrightarrow> now (rc_world s) \<le> now (rc_world s')"
    and "now (rc_world s) + ms \<le> now (os_sleep S ms (rc_world s))"
proof -
  show "now (rc_world s) \<le> t \<and> t \<le> now (rc_world s')" if "run_state (rc_time_ms S) s = (t, s')"
    using that assms by (auto simp: clock_ok_def rc_time_ms_def split: prod.splits)
  show "now (rc_world s) \<le> now (rc_world s')" if "run_state (run_command S e h name q) s = (st, s')"
    using that assms by (auto simp: clock_ok_def run_command_def Let_def split: prod.splits) (metis snd_conv)
  show "now (rc_world s) + ms \<le> now (os_sleep S ms (rc_world s))"
    using assms by (simp add: clock_ok_def)
qed

lemma check_round_clock:
  assumes "clock_ok S now" and "run_state (check_round S e h d saw) s = (Inr saw', s')"
  shows "now (rc_world s) < d \<and> (d \<le> now (rc_world s') \<or> now (rc_world s) + 150 \<le> now (rc_world s'))"
proof -
  obtain t s1 where 1: "run_state (rc_time_ms S) s = (t, s1)" by force
  obtain st s2 where 2: "run_state (run_command S e h (lit ''ping'') True) s1 = (st, s2)" by force
  obtain t' s3 where 3: "run_state (rc_time_ms S) s2 = (t', s3)" by force
  note c = clock_steps(1) [OF assms(1) 1] clock_steps(2) [OF assms(1) 2] clock_steps(1) [OF assms(1) 3]
    clock_steps(3) [OF assms(1), of s3 150]
  show ?thesis
    using assms(2) c unfolding check_round_run [OF 1 2 3] by (auto split: if_splits)
qed

lemma check_round_late:
  assumes "clock_ok S now" and "run_state (check_round S e h d saw) s = (next, s')" and "d \<le> now (rc_world s)"
  shows "rc_runs s' = rc_runs s"
proof -
  obtain t s1 where 1: "run_state (rc_time_ms S) s = (t, s1)" by force
  with clock_steps(1) [OF assms(1) 1] assms(2,3) rc_clock_runs [OF 1] show ?thesis
    by (auto simp: check_round_def)
qed

lemma check_loop_returns:
  assumes "clock_ok S now"
  shows "\<exists>status s'. check_loop S e h d saw s = Some (status, s')
    \<and> length (rc_runs s') \<le> length (rc_runs s) + nat ((d - now (rc_world s) + 149) div 150)"
proof (induction "nat ((d - now (rc_world s) + 149) div 150)" arbitrary: saw s rule: less_induct)
  case less
  obtain "next" s1 where r: "run_state (check_round S e h d saw) s = (next, s1)" by force
  show ?case
  proof (cases "next")
    case (Inl st)
    have "length (rc_runs s1) \<le> length (rc_runs s) + nat ((d - now (rc_world s) + 149) div 150)"
    proof (cases "d \<le> now (rc_world s)")
      case True
      with check_round_late [OF assms r] show ?thesis by simp
    next
      case False
      then have "1 \<le> nat ((d - now (rc_world s) + 149) div 150)" by auto
      then show ?thesis using check_round_runs [OF r] by auto
    qed
    with r Inl show ?thesis by (subst check_loop.simps) simp
  next
    case (Inr saw')
    note c = check_round_clock [OF assms r [unfolded Inr]]
    then have lt: "nat ((d - now (rc_world s1) + 149) div 150) + 1 \<le> nat ((d - now (rc_world s) + 149) div 150)"
      by auto
    obtain status s' where "check_loop S e h d saw' s1 = Some (status, s')"
      "length (rc_runs s') \<le> length (rc_runs s1) + nat ((d - now (rc_world s1) + 149) div 150)"
      using less [of s1 saw'] lt by fastforce
    moreover have "length (rc_runs s1) = length (rc_runs s) + 1"
      using check_round_runs [OF r] Inr by auto
    ultimately show ?thesis using r Inr lt by (subst check_loop.simps) simp
  qed
qed

section \<open>Properties\<close>

lemma resetcheck_cases:
  assumes "run_state (run_command S e h (lit ''ping'') True) s = (st1, s1)"
    and "run_state (run_command S e h (lit ''reset'') True) s1 = (st2, s2)"
    and "run_state (rc_time_ms S) s2 = (t, s3)"
  shows "ps2client_resetcheck S e h timeout s =
    (if timeout < 1 \<or> 120 < timeout then Some (PS2CLIENT_EXIT_USAGE, s)
     else if st1 \<noteq> PS2CLIENT_EXIT_OK then Some (PS2CLIENT_EXIT_NOCONNECT, s1)
     else if st2 \<noteq> PS2CLIENT_EXIT_OK then Some (PS2CLIENT_EXIT_NOCONNECT, s2)
     else check_loop S e h (t + timeout * 1000) False s3)"
  using assms by (simp add: ps2client_resetcheck_def)

text \<open>(C32) What \<open>resetcheck\<close> runs, and what its status says. With a bad timeout it runs nothing. It never
  sends the reset before a ping was answered, and sends it once. Success means that after the reset
  some ping was not answered and a later one was; a timeout means that no answer followed an outage.\<close>

theorem resetcheck_sound:
  assumes "ps2client_resetcheck S e h timeout s = Some (status, s')" and "rc_runs s = []"
  shows "(timeout < 1 \<or> 120 < timeout) \<and> status = PS2CLIENT_EXIT_USAGE \<and> rc_runs s' = []
    \<or> (\<exists>st. st \<noteq> PS2CLIENT_EXIT_OK \<and> status = PS2CLIENT_EXIT_NOCONNECT \<and>
        (rc_runs s' = [(ping_args e h, st)] \<or> rc_runs s' = [(ping_args e h, PS2CLIENT_EXIT_OK), (reset_args e h, st)]))
    \<or> (\<exists>pings. rc_runs s' = [(ping_args e h, PS2CLIENT_EXIT_OK), (reset_args e h, PS2CLIENT_EXIT_OK)] @ pings
        \<and> watched (ping_args e h) False status pings)"
proof -
  obtain st1 s1 where 1: "run_state (run_command S e h (lit ''ping'') True) s = (st1, s1)" by force
  obtain st2 s2 where 2: "run_state (run_command S e h (lit ''reset'') True) s1 = (st2, s2)" by force
  obtain t s3 where 3: "run_state (rc_time_ms S) s2 = (t, s3)" by force
  note runs = run_command_runs [OF 1] run_command_runs [OF 2] rc_clock_runs [OF 3]
  show ?thesis
    using assms runs check_loop_watched [of S e h "t + timeout * 1000" False s3 "(status, s')"]
    unfolding resetcheck_cases [OF 1 2 3] by (auto split: if_splits)
qed

text \<open>(C33) \<open>resetcheck\<close> always returns, whatever the PS2 does, as long as time passes: after the ping and
  the reset it runs at most one ping for every 150 milliseconds of the timeout, so at most 800.\<close>

theorem resetcheck_returns:
  assumes "clock_ok S now"
  shows "\<exists>status s'. ps2client_resetcheck S e h timeout s = Some (status, s')
    \<and> length (rc_runs s') \<le> length (rc_runs s) + 2 + nat ((timeout * 1000 + 149) div 150)"
proof -
  obtain st1 s1 where 1: "run_state (run_command S e h (lit ''ping'') True) s = (st1, s1)" by force
  obtain st2 s2 where 2: "run_state (run_command S e h (lit ''reset'') True) s1 = (st2, s2)" by force
  obtain t s3 where 3: "run_state (rc_time_ms S) s2 = (t, s3)" by force
  note runs = run_command_runs [OF 1] run_command_runs [OF 2] rc_clock_runs [OF 3]
  obtain status s' where l: "check_loop S e h (t + timeout * 1000) False s3 = Some (status, s')"
    "length (rc_runs s') \<le> length (rc_runs s3) + nat ((t + timeout * 1000 - now (rc_world s3) + 149) div 150)"
    using check_loop_returns [OF assms] by blast
  have "nat ((t + timeout * 1000 - now (rc_world s3) + 149) div 150) \<le> nat ((timeout * 1000 + 149) div 150)"
    using clock_steps(1) [OF assms 3] by (intro nat_mono zdiv_mono1) auto
  with l runs show ?thesis unfolding resetcheck_cases [OF 1 2 3] by auto
qed

text \<open>
  A system of which every call takes a millisecond and whose PS2 answers pings except between the
  times 100 and 500.
\<close>

definition sample_os :: "int reset_os" where
  "sample_os = \<lparr>os_spawn = (\<lambda>args q w. (Waited 1 (Some (if 100 \<le> w \<and> w < 500 then 0x300 else 0)), w + 1)),
     os_clock = (\<lambda>w. (w, w + 1)), os_sleep = (\<lambda>ms w. w + max 0 ms)\<rparr>"

theorem resetcheck_returns_witness:
  "\<exists>status s'. ps2client_resetcheck sample_os (lit ''ps2client'') (lit ''ps2'') 10 \<lparr>rc_world = 0, rc_runs = []\<rparr>
      = Some (status, s') \<and> length (rc_runs s') \<le> 69"
  using resetcheck_returns [of sample_os id "lit ''ps2client''" "lit ''ps2''" 10 "\<lparr>rc_world = 0, rc_runs = []\<rparr>"]
  by (auto simp: clock_ok_def sample_os_def)

theorem resetcheck_sound_witness:
  "\<exists>s' pings. ps2client_resetcheck sample_os (lit ''ps2client'') (lit ''ps2'') 10 \<lparr>rc_world = 0, rc_runs = []\<rparr>
      = Some (PS2CLIENT_EXIT_OK, s')
    \<and> rc_runs s' = [(ping_args (lit ''ps2client'') (lit ''ps2''), PS2CLIENT_EXIT_OK),
        (reset_args (lit ''ps2client'') (lit ''ps2''), PS2CLIENT_EXIT_OK)] @ pings
    \<and> watched (ping_args (lit ''ps2client'') (lit ''ps2'')) False PS2CLIENT_EXIT_OK pings"
proof -
  have "map_option fst (ps2client_resetcheck sample_os (lit ''ps2client'') (lit ''ps2'') 10 \<lparr>rc_world = 0, rc_runs = []\<rparr>)
      = Some PS2CLIENT_EXIT_OK"
    by code_simp
  then obtain s' where r: "ps2client_resetcheck sample_os (lit ''ps2client'') (lit ''ps2'') 10 \<lparr>rc_world = 0, rc_runs = []\<rparr>
      = Some (PS2CLIENT_EXIT_OK, s')" by auto
  with resetcheck_sound [OF r] show ?thesis by (simp add: exit_codes)
qed

end
