(* ===== verification/Link_Exit.thy ===== *)
theory Link_Exit
  imports Link_Main
begin

text \<open>
  What the exit status of the client says, in every interleaving of its threads, and that the main loop
  comes to an end.
\<close>

section \<open>Facts that hold in every run\<close>

lemma others_keep_main [simp]:
  "cl_main (ps2link_thread_console s) = cl_main s" "cl_main (request_step P E s) = cl_main s"
  "cl_pings (ps2link_thread_console s) = cl_pings s" "cl_pings (request_step P E s) = cl_pings s"
  "cl_clock (ps2link_thread_console s) = cl_clock s" "cl_clock (request_step P E s) = cl_clock s"
  "cl_socks (ps2link_thread_console s) = cl_socks s" "cl_socks (request_step P E s) = cl_socks s"
  "sv_ping_answered (cl_server (ps2link_thread_console s)) = sv_ping_answered (cl_server s)"
  by (simp_all add: ps2link_thread_console_def request_step_def Let_def
      split: console_pc.splits request_pc.splits prod.splits bool.splits)

text \<open>When the handshake began, and whether the command is still to come.\<close>

definition hs_start :: "main_pc \<Rightarrow> int option" where
  "hs_start pc = (case pc of Hs_Test t _ \<Rightarrow> Some t | Hs_Time t _ \<Rightarrow> Some t | Hs_Lost t _ _ \<Rightarrow> Some t
     | Hs_Send t _ \<Rightarrow> Some t | Hs_Sleep t _ _ \<Rightarrow> Some t | Hs_Answered t \<Rightarrow> Some t | _ \<Rightarrow> None)"

definition before_command :: "main_pc \<Rightarrow> bool" where
  "before_command pc \<longleftrightarrow> hs_start pc \<noteq> None \<or> pc = Hs_Enter \<or> (\<exists>r. pc = Hs_Done r) \<or> pc = Command"

definition base_inv :: "'f client \<Rightarrow> 'f client \<Rightarrow> bool" where
  "base_inv s0 s \<longleftrightarrow> cl_clock s0 \<le> cl_clock s
     \<and> (case hs_start (cl_main s) of None \<Rightarrow> True | Some t \<Rightarrow> cl_clock s0 \<le> t \<and> t \<le> cl_clock s)
     \<and> (before_command (cl_main s) \<longrightarrow> command_socket (cl_socks s) = command_socket (cl_socks s0))
     \<and> (net_writable (sv_net (cl_server s0)) (command_socket (cl_socks s0)) \<longrightarrow>
          net_writable (sv_net (cl_server s)) (command_socket (cl_socks s0)))"

lemma console_net:
  "net_writable (sv_net (cl_server (ps2link_thread_console s))) = net_writable (sv_net (cl_server s))"
proof -
  obtain sz buffer n where "run_state (network_receive (console_socket (cl_socks s)) 65536) (sv_net (cl_server s))
      = ((sz, buffer), n)" by (metis surj_pair)
  with network_receive_stays_writable [OF this] show ?thesis
    by (simp add: ps2link_thread_console_def Let_def split: console_pc.split)
qed

lemma request_net:
  "net_writable (sv_net (cl_server s)) sock \<Longrightarrow> net_writable (sv_net (cl_server (request_step P E s))) sock"
proof -
  assume w: "net_writable (sv_net (cl_server s)) sock"
  obtain b sv where r: "run_state (thread_round P E (request_socket (cl_socks s))) (cl_server s) = (b, sv)" by force
  have "net_writable (sv_net sv) sock"
    using writable.net_round [OF TrueI, of sock P E "request_socket (cl_socks s)"] r w
    by (auto simp: state_io_rel_def over_net_def dest!: spec [of _ "cl_server s"])
  with r w show ?thesis by (cases b) (simp_all add: request_step_def split: request_pc.split)
qed

text \<open>A command does not spoil the connection it is sent on.\<close>

lemma perform_command_sends:
  "(\<exists>pkt. perform_command sock junk cmd = send_packet sock pkt) \<or> perform_command sock junk cmd = ret (-1)"
  by (cases cmd) (auto simp: command_defs split: option.splits)

lemma run_command_stays_writable:
  assumes "run_state (run_command sock junk cmd) n = (r, n')" and "net_writable n c"
  shows "net_writable n' c"
proof (cases cmd)
  case None
  with assms show ?thesis by (simp add: run_command_def)
next
  case (Some x)
  with assms perform_command_sends [of sock junk x] show ?thesis
    by (auto simp: run_command_def send_packet_def dest: network_send_stays_writable)
qed

lemma run_command_sends:
  assumes "run_state (run_command sock junk cmd) n = (r, n')" and "length junk = 256"
    and "net_writable n sock" and "case cmd of None \<Rightarrow> True | Some c \<Rightarrow> fits c"
  shows "0 \<le> r"
proof (cases cmd)
  case None
  with assms(1) show ?thesis by (simp add: run_command_def)
next
  case (Some c)
  with assms(4) have f: "fits c" by simp
  obtain pkt where "perform_command sock junk c = send_packet sock pkt"
    by (rule perform_command_packet [OF f assms(2), of sock])
  with Some assms(1,3) show ?thesis by (auto simp: run_command_def)
qed

lemma base_main:
  assumes "base_inv s0 s"
  shows "base_inv s0 (main_step J junk s)"
proof (cases "cl_main s")
  case (Hs_Send start now)
  obtain r n where run: "run_state (ps2link_command_dumpreg (command_socket (cl_socks s)) junk PS2LINK_PING_REGS
      (Some PS2LINK_PING_PATHNAME)) (sv_net (cl_server s)) = (r, n)" by force
  then have "net_writable (sv_net (cl_server s)) c \<Longrightarrow> net_writable n c" for c
    by (auto simp: command_defs send_packet_def dest: network_send_stays_writable)
  with assms run Hs_Send show ?thesis
    by (auto simp: base_inv_def main_defs hs_start_def before_command_def)
next
  case Command
  obtain r n where run: "run_state (run_command (command_socket (cl_socks s)) junk (j_command J))
      (sv_net (cl_server s)) = (r, n)" by force
  with run_command_stays_writable [OF run] assms Command show ?thesis
    by (auto simp: base_inv_def main_defs hs_start_def before_command_def)
qed (use assms in \<open>auto simp: base_inv_def main_defs hs_start_def before_command_def\<close>)

lemma base_others:
  assumes "base_inv s0 s"
  shows "base_inv s0 (ps2link_thread_console s)" "base_inv s0 (request_step P E s)"
    "0 \<le> d \<Longrightarrow> base_inv s0 (s\<lparr>cl_clock := cl_clock s + d\<rparr>)"
  using assms request_net [of s "command_socket (cl_socks s0)" P E]
  by (auto simp: base_inv_def console_net split: option.splits)

lemma base_reachable: "client_run P J s0 s \<Longrightarrow> base_inv s0 s"
proof (erule client_run_invariant)
  show "client_start s0 \<Longrightarrow> base_inv s0 s0"
    by (auto simp: client_start_def base_inv_def hs_start_def)
qed (simp_all add: base_main base_others)

section \<open>What the exit status says\<close>

text \<open>
  A path is a sequence of steps. The output a state has scanned for the marker is all it has printed but
  the packet the console thread holds and has not scanned yet.
\<close>

abbreviation client_path :: "'f posix \<Rightarrow> job \<Rightarrow> 'f client \<Rightarrow> 'f client \<Rightarrow> bool" where
  "client_path P J \<equiv> (client_step P J)\<^sup>*\<^sup>*"

definition pending :: "console_pc \<Rightarrow> byte list" where
  "pending pc = (case pc of Con_Scan b \<Rightarrow> b | _ \<Rightarrow> [])"

definition scanned :: "'f client \<Rightarrow> byte list" where
  "scanned s = take (length (cl_stdout s) - length (pending (cl_con s))) (cl_stdout s)"

definition decided :: "main_pc \<Rightarrow> int option" where
  "decided pc = (case pc of Ml_Done st \<Rightarrow> Some st | Exited st \<Rightarrow> Some st | _ \<Rightarrow> None)"

text \<open>
  \<open>p\<close> is an earlier state of the run to \<open>s\<close> in which the main loop looked at the shared state and had not
  seen the marker.
\<close>

definition from_poll :: "'f posix \<Rightarrow> job \<Rightarrow> 'f client \<Rightarrow> 'f client \<Rightarrow> 'f client \<Rightarrow> bool" where
  "from_poll P J s0 p s \<longleftrightarrow> client_run P J s0 p \<and> client_path P J p s \<and> cl_main p = Ml_Poll \<and> \<not> c_seen (cl_console p)"

text \<open>
  Why the handshake may fail: the connection was lost, or it had its time (a time that does not fit an
  \<open>int\<close> is one too). Why the command may: its connection does not take what is sent, or its arguments
  do not fit.
\<close>

definition no_answer :: "job \<Rightarrow> 'f client \<Rightarrow> 'f client \<Rightarrow> bool" where
  "no_answer J s0 s \<longleftrightarrow> cl_lost s \<or> min (j_handshake_ms J) (2 ^ 31) \<le> cl_clock s - cl_clock s0"

definition cannot_send :: "job \<Rightarrow> 'f client \<Rightarrow> bool" where
  "cannot_send J s0 \<longleftrightarrow> \<not> net_writable (sv_net (cl_server s0)) (command_socket (cl_socks s0))
     \<or> (case j_command J of None \<Rightarrow> False | Some cmd \<Rightarrow> \<not> fits cmd)"

text \<open>
  The status that is decided in the state \<open>d\<close> of a run from \<open>s0\<close>, and what it takes to decide it there.
\<close>

definition exit_reason :: "'f posix \<Rightarrow> job \<Rightarrow> 'f client \<Rightarrow> 'f client \<Rightarrow> int \<Rightarrow> bool" where
  "exit_reason P J s0 d status =
     (let c = ps2link_scan_console (scanned d) (cl_console s0); c' = check_rest c in
      case cl_main d of
        Hs_Done r \<Rightarrow>
          if r < 0 then no_answer J s0 d \<and> status = PS2CLIENT_EXIT_NOCONNECT
          else j_ping J \<and> sv_ping_answered (cl_server d) \<and> status = PS2CLIENT_EXIT_OK
      | Command \<Rightarrow> cannot_send J s0 \<and> status = PS2CLIENT_EXIT_NOCONNECT
      | Ml_Enter \<Rightarrow> j_timeout J = 0 \<and> status = PS2CLIENT_EXIT_OK
      | Ml_Poll \<Rightarrow> c_seen c \<and> status = c_status c AND 255
      | Ml_Lost _ \<Rightarrow> (\<exists>p. from_poll P J s0 p d \<and> cl_lost p \<and> cl_clock p + 500 \<le> cl_clock d)
          \<and> status = (if c_seen c' then c_status c' AND 255 else PS2CLIENT_EXIT_CONNLOST)
      | Ml_Expired \<Rightarrow> (\<exists>p. from_poll P J s0 p d \<and> \<not> cl_lost p \<and> 0 < j_timeout J
            \<and> cl_activity p + j_timeout J * 1000 \<le> cl_clock d)
          \<and> status = (if c_seen c' then c_status c' AND 255
              else if c_marker c' \<noteq> None then PS2CLIENT_EXIT_TIMEOUT else PS2CLIENT_EXIT_OK)
      | _ \<Rightarrow> False)"

section \<open>The decision\<close>

lemma decided_stays: "decided (cl_main s) = Some st \<Longrightarrow> decided (cl_main (main_step J junk s)) = Some st"
  by (cases "cl_main s") (simp_all add: decided_def main_step_def leave_def)

text \<open>A status is decided by one step of the main thread.\<close>

lemma decision:
  assumes "client_run P J s0 s" and "decided (cl_main s) = Some st"
  shows "\<exists>d junk. client_run P J s0 d \<and> decided (cl_main d) = None \<and> length junk = 256
    \<and> decided (cl_main (main_step J junk d)) = Some st \<and> client_path P J (main_step J junk d) s"
  using assms
proof (induction arbitrary: st)
  case start
  then show ?case by (auto simp: client_start_def decided_def split: if_splits)
next
  case (step s s')
  show ?case
  proof (cases "decided (cl_main s)")
    case None
    from step.hyps(2) step.prems None obtain junk where "length junk = 256" "s' = main_step J junk s"
      by cases auto
    with step.hyps(1) step.prems None show ?thesis by blast
  next
    case (Some st')
    have "st' = st"
      using step.hyps(2) step.prems Some by cases (auto simp: decided_stays)
    with step.IH [OF Some] step.hyps(2) show ?thesis by (meson rtranclp.rtrancl_into_rtrancl)
  qed
qed

text \<open>What the main loop remembers of the last time it looked at the shared state.\<close>

definition history_inv :: "'f posix \<Rightarrow> job \<Rightarrow> 'f client \<Rightarrow> 'f client \<Rightarrow> bool" where
  "history_inv P J s0 s = (case cl_main s of
     Ml_Lost until \<Rightarrow> \<exists>p. from_poll P J s0 p s \<and> cl_lost p \<and> until = cl_clock p + 500
   | Ml_Idle activity \<Rightarrow> \<exists>p. from_poll P J s0 p s \<and> \<not> cl_lost p \<and> activity = cl_activity p
   | Ml_Expired \<Rightarrow> \<exists>p. from_poll P J s0 p s \<and> \<not> cl_lost p \<and> 0 < j_timeout J
       \<and> cl_activity p + j_timeout J * 1000 \<le> cl_clock s
   | _ \<Rightarrow> True)"

lemma from_poll_step: "from_poll P J s0 p s \<Longrightarrow> client_step P J s s' \<Longrightarrow> from_poll P J s0 p s'"
  by (auto simp: from_poll_def)

lemma history_others:
  assumes "history_inv P J s0 s" and "client_step P J s s'" and "cl_main s' = cl_main s" and "cl_clock s \<le> cl_clock s'"
  shows "history_inv P J s0 s'"
  using assms(1,3,4) from_poll_step [OF _ assms(2)]
  by (fastforce simp: history_inv_def split: main_pc.splits)

lemma history_main:
  assumes "history_inv P J s0 s" and "client_run P J s0 s" and "length junk = 256"
  shows "history_inv P J s0 (main_step J junk s)"
proof -
  note st = client_step.main [OF assms(3), of P J s]
  note fp = from_poll_step [OF _ st]
  show ?thesis
  proof (cases "cl_main s")
    case Ml_Poll
    have "from_poll P J s0 s (main_step J junk s)" if "\<not> c_seen (cl_console s)"
      using that assms(2) Ml_Poll st by (auto simp: from_poll_def)
    with Ml_Poll show ?thesis by (auto simp: history_inv_def main_defs)
  next
    case (Ml_Idle a)
    with assms(1) obtain p where "from_poll P J s0 p s" "\<not> cl_lost p" "a = cl_activity p"
      by (auto simp: history_inv_def)
    with Ml_Idle fp [of s0 p] show ?thesis by (auto simp: history_inv_def main_defs)
  next
    case (Ml_Lost t)
    with assms(1) obtain p where p: "from_poll P J s0 p s" "cl_lost p" "t = cl_clock p + 500"
      by (auto simp: history_inv_def)
    show ?thesis
    proof (cases "t \<le> cl_clock s")
      case False
      with Ml_Lost p fp [of s0 p] show ?thesis by (auto simp: history_inv_def main_defs)
    qed (use Ml_Lost in \<open>simp add: history_inv_def main_defs\<close>)
  next
    case (Hs_Send start now)
    then show ?thesis by (simp add: history_inv_def main_defs split: prod.split)
  next
    case Command
    then show ?thesis by (simp add: history_inv_def main_defs split: prod.split)
  qed (auto simp: history_inv_def main_defs)
qed

lemma history_reachable: "client_run P J s0 s \<Longrightarrow> history_inv P J s0 s"
proof (induction rule: client_run.induct)
  case start
  then show ?case by (auto simp: history_inv_def client_start_def)
next
  case (step s s')
  note step.hyps(2)
  then show ?case
    by cases (use step history_main [OF step.IH step.hyps(1)] in \<open>auto intro: history_others [OF step.IH]\<close>)
qed

section \<open>The console and the handshake up to the decision\<close>

text \<open>Until a status is decided the console state is that of the output scanned so far.\<close>

definition scan_inv :: "'f client \<Rightarrow> 'f client \<Rightarrow> bool" where
  "scan_inv s0 s \<longleftrightarrow> (decided (cl_main s) = None \<longrightarrow> (\<exists>x. cl_stdout s = x @ pending (cl_con s)
     \<and> cl_console s = ps2link_scan_console x (cl_console s0)))"

lemma scan_append: "ps2link_scan_console (x @ y) c = ps2link_scan_console y (ps2link_scan_console x c)"
  using scan_packets [of "[x, y]" c] by simp

lemma scan_inv_scanned:
  "scan_inv s0 s \<Longrightarrow> decided (cl_main s) = None \<Longrightarrow> cl_console s = ps2link_scan_console (scanned s) (cl_console s0)"
  by (auto simp: scan_inv_def scanned_def)

lemma scan_console: "scan_inv s0 s \<Longrightarrow> scan_inv s0 (ps2link_thread_console s)"
proof -
  assume i: "scan_inv s0 s"
  obtain sz buffer n where "run_state (network_receive (console_socket (cl_socks s)) 65536) (sv_net (cl_server s))
      = ((sz, buffer), n)" by (metis surj_pair)
  with i show ?thesis
    by (cases "cl_con s") (auto simp: scan_inv_def ps2link_thread_console_def pending_def scan_append Let_def)
qed

lemma scan_request: "scan_inv s0 s \<Longrightarrow> scan_inv s0 (request_step P E s)"
  by (auto simp: scan_inv_def request_step_def split: request_pc.split prod.split bool.split)

lemma scan_main: "scan_inv s0 s \<Longrightarrow> scan_inv s0 (main_step J junk s)"
  by (cases "cl_main s") (auto simp: scan_inv_def main_defs decided_def split: prod.splits)

text \<open>The result of the handshake, when it has one.\<close>

definition point_inv :: "job \<Rightarrow> 'f client \<Rightarrow> 'f client \<Rightarrow> bool" where
  "point_inv J s0 s = (case cl_main s of
     Hs_Done r \<Rightarrow> if 0 \<le> r then sv_ping_answered (cl_server s) else no_answer J s0 s
   | Hs_Answered _ \<Rightarrow> sv_ping_answered (cl_server s)
   | _ \<Rightarrow> True)"

lemma round_keeps_answered:
  "sv_ping_answered sv \<Longrightarrow> run_state (thread_round P E sock) sv = (b, sv') \<Longrightarrow> sv_ping_answered sv'"
  using rises_round [of P E sock] unfolding state_io_rel_def flag_rises_def by (metis snd_conv)

lemma request_keeps_answered:
  "sv_ping_answered (cl_server s) \<Longrightarrow> sv_ping_answered (cl_server (request_step P E s))"
  by (auto simp: request_step_def dest: round_keeps_answered
      split: request_pc.splits prod.splits bool.splits)

lemma others_keep_lost [simp]:
  "cl_lost (ps2link_thread_console s) = cl_lost s" "cl_lost s \<Longrightarrow> cl_lost (request_step P E s)"
  by (auto simp: ps2link_thread_console_def request_step_def Let_def
      split: console_pc.splits request_pc.splits prod.splits bool.splits)

lemma point_others:
  assumes "point_inv J s0 s" and "cl_main s' = cl_main s" and "cl_clock s \<le> cl_clock s'"
    and "sv_ping_answered (cl_server s) \<Longrightarrow> sv_ping_answered (cl_server s')" and "cl_lost s \<Longrightarrow> cl_lost s'"
  shows "point_inv J s0 s'"
proof -
  have "no_answer J s0 s \<Longrightarrow> no_answer J s0 s'" using assms(3,5) by (auto simp: no_answer_def)
  with assms(1,2,4) show ?thesis by (auto simp: point_inv_def split: main_pc.splits if_splits)
qed

lemma point_main:
  assumes "point_inv J s0 s" and "base_inv s0 s"
  shows "point_inv J s0 (main_step J junk s)"
proof (cases "cl_main s")
  case (Hs_Time start nxt)
  with assms(2) have "no_answer J s0 s" if "j_handshake_ms J \<le> cl_clock s - start"
    using that by (auto simp: base_inv_def hs_start_def no_answer_def)
  with Hs_Time show ?thesis by (auto simp: point_inv_def main_defs no_answer_def)
next
  case (Hs_Answered start)
  with assms(2) have t: "cl_clock s0 \<le> start" "start \<le> cl_clock s" by (simp_all add: base_inv_def hs_start_def)
  have "no_answer J s0 s" if neg: "c_int (cl_clock s - start) < 0"
  proof -
    have "\<not> int_range (cl_clock s - start)" using neg t(2) c_int_id by fastforce
    with t have "2 ^ 31 \<le> cl_clock s - cl_clock s0" by (simp add: int_range_def)
    then show ?thesis by (simp add: no_answer_def min.coboundedI2)
  qed
  with Hs_Answered assms(1) show ?thesis by (auto simp: point_inv_def main_defs no_answer_def)
next
  case (Hs_Send start now)
  then show ?thesis by (simp add: point_inv_def main_defs split: prod.split)
next
  case Command
  then show ?thesis by (simp add: point_inv_def main_defs split: prod.split)
qed (use assms(1) in \<open>auto simp: point_inv_def main_defs no_answer_def\<close>)

lemma status_reachable:
  assumes "client_run P J s0 s"
  shows "base_inv s0 s \<and> scan_inv s0 s \<and> point_inv J s0 s"
  using assms
proof (rule client_run_invariant)
  assume start: "client_start s0"
  have "cl_console s0 = ps2link_scan_console [] (cl_console s0)" by (simp add: ps2link_scan_console_def)
  with start show "base_inv s0 s0 \<and> scan_inv s0 s0 \<and> point_inv J s0 s0"
    by (auto simp: scan_inv_def point_inv_def client_start_def decided_def pending_def base_inv_def hs_start_def)
next
  fix s :: "'a client" and d :: int assume "base_inv s0 s \<and> scan_inv s0 s \<and> point_inv J s0 s" "0 \<le> d"
  then show "base_inv s0 (s\<lparr>cl_clock := cl_clock s + d\<rparr>) \<and> scan_inv s0 (s\<lparr>cl_clock := cl_clock s + d\<rparr>)
      \<and> point_inv J s0 (s\<lparr>cl_clock := cl_clock s + d\<rparr>)"
    using point_others [of J s0 s "s\<lparr>cl_clock := cl_clock s + d\<rparr>"] by (simp add: base_others scan_inv_def)
next
  fix s :: "'a client" and E assume i: "base_inv s0 s \<and> scan_inv s0 s \<and> point_inv J s0 s"
  then show "base_inv s0 (request_step P E s) \<and> scan_inv s0 (request_step P E s) \<and> point_inv J s0 (request_step P E s)"
    using point_others [of J s0 s "request_step P E s"] by (simp add: base_others scan_request request_keeps_answered)
qed (simp_all add: base_main base_others scan_console scan_main point_main,
  auto intro: point_others)

text \<open>What was decided, and why.\<close>

lemma decision_reason:
  assumes "client_run P J s0 d" and "decided (cl_main d) = None" and "length junk = 256"
    and "decided (cl_main (main_step J junk d)) = Some st"
  shows "exit_reason P J s0 d st"
proof -
  note inv = status_reachable [OF assms(1)] history_reachable [OF assms(1)]
  have c: "cl_console d = ps2link_scan_console (scanned d) (cl_console s0)"
    using inv(1) assms(2) by (auto intro: scan_inv_scanned)
  note simps = exit_reason_def c [symmetric] decided_def main_defs
  show ?thesis
  proof (cases "cl_main d")
    case (Hs_Done r)
    with assms(4) inv(1) show ?thesis by (auto simp: simps point_inv_def split: if_splits)
  next
    case (Hs_Send start now)
    with assms(4) show ?thesis by (simp add: simps split: prod.splits)
  next
    case Command
    obtain r n where run: "run_state (run_command (command_socket (cl_socks d)) junk (j_command J))
        (sv_net (cl_server d)) = (r, n)" by force
    have "cannot_send J s0" if "r < 0"
      using run_command_sends [OF run assms(3)] that inv(1) Command
      by (auto simp: base_inv_def before_command_def cannot_send_def split: option.splits)
    with Command run assms(4) show ?thesis by (auto simp: simps split: if_splits)
  next
    case (Ml_Lost t)
    with inv(2) obtain p where "from_poll P J s0 p d" "cl_lost p" "t = cl_clock p + 500"
      by (auto simp: history_inv_def)
    with Ml_Lost assms(4) show ?thesis by (auto simp: simps split: if_splits)
  next
    case Ml_Expired
    with inv(2) assms(4) show ?thesis by (auto simp: simps history_inv_def)
  qed (use assms(2,4) in \<open>auto simp: simps split: if_splits\<close>)
qed

lemma exit_explained:
  assumes "client_run P J s0 s" and "cl_main s = Exited status"
  shows "\<exists>d junk. client_run P J s0 d \<and> length junk = 256 \<and> exit_reason P J s0 d status
    \<and> decided (cl_main (main_step J junk d)) = Some status \<and> client_path P J (main_step J junk d) s"
  using decision [OF assms(1), of status] assms(2) by (auto simp: decided_def [of "Exited _"] dest: decision_reason)

section \<open>Properties\<close>

text \<open>(C2) The exit status is accounted for in every interleaving of the threads: one step of the main thread
  decides it, in a state \<open>d\<close> of the run, and there it is the following. 69 if the handshake failed, and then
  the connection was lost or its time was over, or if the command could not be sent; 0 after a ping that
  was answered, or if no waiting was asked for. Otherwise it is decided by all the console output that is
  scanned in \<open>d\<close>: the status of the marker's line as soon as the marker is in it; 74 if 500 ms before or more
  the loop found the request connection lost, and the marker is not even in the unfinished last line;
  124, or 0 if there is no marker, if the idle timeout is over since the last activity that the loop
  found before, and the marker is not in the unfinished line either. A marker in the unfinished line gives
  its status in both cases.\<close>

theorem exit_status_reason:
  assumes "client_run P J s0 s" and "cl_main s = Exited status"
  shows "\<exists>d junk. client_run P J s0 d \<and> length junk = 256 \<and> exit_reason P J s0 d status
    \<and> decided (cl_main (main_step J junk d)) = Some status \<and> client_path P J (main_step J junk d) s"
  by (rule exit_explained [OF assms])

lemma sample_exit:
  "client_run sample_host sample_job (sample_client no_sockets []) ((main_step sample_job sample_junk ^^ 3) (sample_client no_sockets []))"
  "cl_main ((main_step sample_job sample_junk ^^ 3) (sample_client no_sockets [])) = Exited 0"
  by (rule run_main, rule client_run.start, rule sample_client_start)
     (simp add: sample_client_def sample_job_def no_sockets_def main_defs run_command_def eval_nat_numeral exit_codes)

theorem exit_status_reason_witness:
  "\<exists>d junk. client_run sample_host sample_job (sample_client no_sockets []) d \<and> length junk = 256
    \<and> exit_reason sample_host sample_job (sample_client no_sockets []) d 0
    \<and> decided (cl_main (main_step sample_job junk d)) = Some 0
    \<and> client_path sample_host sample_job (main_step sample_job junk d)
        ((main_step sample_job sample_junk ^^ 3) (sample_client no_sockets []))"
  using exit_status_reason [OF sample_exit] .

text \<open>(C12) The main loop comes to an end on every reason to end: when it looks at the shared state and the
  marker has been seen, or the connection is lost, or nothing has come in for the idle timeout, then
  with at most 500 ms of time passing, three more steps of the main thread decide the exit status.\<close>

theorem mainloop_ends:
  assumes "cl_main s = Ml_Poll"
    and "c_seen (cl_console s) \<or> cl_lost s
      \<or> (0 < j_timeout J \<and> j_timeout J * 1000 \<le> cl_clock s - cl_activity s)"
  shows "\<exists>n st. n \<le> 2 \<and> cl_main ((main_step J junk ^^ n)
    ((main_step J junk s)\<lparr>cl_clock := cl_clock s + 500\<rparr>)) = Ml_Done st"
proof -
  consider "c_seen (cl_console s)" | "\<not> c_seen (cl_console s)" "cl_lost s"
    | "\<not> c_seen (cl_console s)" "\<not> cl_lost s" "0 < j_timeout J" "j_timeout J * 1000 \<le> cl_clock s - cl_activity s"
    using assms(2) by blast
  then show ?thesis
  proof cases
    case 1
    with assms(1) show ?thesis by (intro exI [of _ "0::nat"]) (simp add: main_defs)
  next
    case 2
    with assms(1) show ?thesis by (intro exI [of _ "1::nat"]) (simp add: main_defs)
  next
    case 3
    with assms(1) show ?thesis by (intro exI [of _ "2::nat"]) (simp add: main_defs numeral_2_eq_2)
  qed
qed

definition sample_sockets :: sockets where
  "sample_sockets = \<lparr>console_socket = -1, request_socket = 4, command_socket = 5\<rparr>"

theorem mainloop_ends_witness:
  "\<exists>n st. n \<le> 2 \<and> cl_main ((main_step sample_job sample_junk ^^ n)
    ((main_step sample_job sample_junk ((sample_client sample_sockets [])\<lparr>cl_main := Ml_Poll, cl_lost := True\<rparr>))\<lparr>cl_clock := 600\<rparr>)) = Ml_Done st"
  using mainloop_ends [of "(sample_client sample_sockets [])\<lparr>cl_main := Ml_Poll, cl_lost := True\<rparr>" sample_job sample_junk]
  by (simp add: sample_client_def)

end
