(* ===== verification/Link_Handshake.thy ===== *)
theory Link_Handshake
  imports Link_Exit
begin

text \<open>
  The handshake of \<open>ps2link_handshake\<close>: its commands are paced, no command is sent before its answer, and
  it returns in bounded time whatever the other threads do.
\<close>

section \<open>The handshake\<close>

text \<open>The clock readings the commands are decided by lie between the start and the end, 1000 ms apart.\<close>

abbreviation spaced :: "int list \<Rightarrow> bool" where
  "spaced \<equiv> sorted_wrt (\<lambda>a b. a + 1000 \<le> b)"

definition pings_in :: "int list \<Rightarrow> int \<Rightarrow> int \<Rightarrow> int \<Rightarrow> bool" where
  "pings_in ps start ms next \<longleftrightarrow> (\<forall>p \<in> set ps. start \<le> p \<and> p < start + ms \<and> p + 1000 \<le> next)"

definition pings_over :: "int list \<Rightarrow> int \<Rightarrow> bool" where
  "pings_over ps ms \<longleftrightarrow> (\<exists>start. \<forall>p \<in> set ps. start \<le> p \<and> p < start + ms)"

definition ping_inv :: "job \<Rightarrow> 'f client \<Rightarrow> bool" where
  "ping_inv J s \<longleftrightarrow> (let ps = map fst (cl_pings s); ok = pings_in ps; ms = j_handshake_ms J in
     spaced ps \<and> (case cl_main s of
       Hs_Enter \<Rightarrow> ps = []
     | Hs_Test start next \<Rightarrow> start \<le> cl_clock s \<and> ok start ms next
     | Hs_Time start next \<Rightarrow> start \<le> cl_clock s \<and> ok start ms next
     | Hs_Lost start next now \<Rightarrow> start \<le> now \<and> now < start + ms \<and> now \<le> cl_clock s \<and> ok start ms next
     | Hs_Send start now \<Rightarrow> start \<le> now \<and> now < start + ms \<and> now \<le> cl_clock s \<and> ok start ms now
     | Hs_Sleep start next _ \<Rightarrow> start \<le> cl_clock s \<and> ok start ms next
     | _ \<Rightarrow> pings_over ps ms))"

text \<open>Each command goes out after its clock reading, which is none from before the run.\<close>

definition send_inv :: "'f client \<Rightarrow> 'f client \<Rightarrow> bool" where
  "send_inv s0 s \<longleftrightarrow> list_all (\<lambda>(now, sent). cl_clock s0 \<le> now \<and> now \<le> sent) (cl_pings s) \<and> (case cl_main s of
       Hs_Lost _ _ now \<Rightarrow> cl_clock s0 \<le> now \<and> now \<le> cl_clock s
     | Hs_Send _ now \<Rightarrow> cl_clock s0 \<le> now \<and> now \<le> cl_clock s
     | _ \<Rightarrow> True)"

lemma pings_in_facts:
  "pings_in ps start ms next \<Longrightarrow> pings_over ps ms"
  "pings_in ps start ms next \<Longrightarrow> next \<le> now \<Longrightarrow> pings_in ps start ms now"
  "pings_in [] start ms next" "pings_over [] ms"
  by (fastforce simp: pings_in_def pings_over_def)+

lemma ping_main: "ping_inv J s \<Longrightarrow> ping_inv J (main_step J junk s)"
proof (cases "cl_main s")
  case (Hs_Send start now)
  assume i: "ping_inv J s"
  obtain r n where "run_state (ps2link_command_dumpreg (command_socket (cl_socks s)) junk PS2LINK_PING_REGS
      (Some PS2LINK_PING_PATHNAME)) (sv_net (cl_server s)) = (r, n)" by force
  with i Hs_Send show ?thesis
    by (fastforce simp: ping_inv_def main_defs pings_in_def sorted_wrt_append)
next
  case Command
  then show "ping_inv J s \<Longrightarrow> ?thesis"
    by (simp add: ping_inv_def main_defs split: prod.splits)
qed (auto simp: ping_inv_def main_defs intro: pings_in_facts)

lemma ping_others:
  "ping_inv J (ps2link_thread_console s) = ping_inv J s" "ping_inv J (request_step P E s) = ping_inv J s"
  unfolding ping_inv_def others_keep_main by (rule refl)+

lemma ping_reachable: "client_run P J s0 s \<Longrightarrow> ping_inv J s"
proof (erule client_run_invariant)
  show "client_start s0 \<Longrightarrow> ping_inv J s0"
    by (auto simp: client_start_def ping_inv_def pings_in_facts)
  show "ping_inv J s \<Longrightarrow> 0 \<le> d \<Longrightarrow> ping_inv J (s\<lparr>cl_clock := cl_clock s + d\<rparr>)" for s :: "'a client" and d
    by (auto simp: ping_inv_def Let_def split: main_pc.splits)
qed (simp_all add: ping_main ping_others)

lemma send_main:
  assumes "send_inv s0 s" and "base_inv s0 s"
  shows "send_inv s0 (main_step J junk s)"
proof (cases "cl_main s")
  case (Hs_Send start now)
  then show ?thesis using assms(1) by (simp add: send_inv_def main_defs split: prod.split)
next
  case Command
  then show ?thesis using assms(1) by (simp add: send_inv_def main_defs split: prod.split)
qed (use assms in \<open>auto simp: send_inv_def base_inv_def main_defs\<close>)

lemma send_others:
  "send_inv s0 (ps2link_thread_console s) = send_inv s0 s" "send_inv s0 (request_step P E s) = send_inv s0 s"
  unfolding send_inv_def others_keep_main by (rule refl)+

lemma send_reachable:
  assumes "client_run P J s0 s"
  shows "send_inv s0 s"
proof -
  have "base_inv s0 s \<and> send_inv s0 s"
    using assms
  proof (rule client_run_invariant)
    show "base_inv s0 s0 \<and> send_inv s0 s0" if "client_start s0"
      using that by (auto simp: client_start_def send_inv_def base_inv_def hs_start_def)
    show "base_inv s0 (s\<lparr>cl_clock := cl_clock s + d\<rparr>) \<and> send_inv s0 (s\<lparr>cl_clock := cl_clock s + d\<rparr>)"
      if "base_inv s0 s \<and> send_inv s0 s" "0 \<le> d" for s :: "'a client" and d
      using that by (auto simp: base_others send_inv_def split: main_pc.splits)
  qed (simp_all add: base_main base_others send_main send_others)
  then show ?thesis by simp
qed

lemma spaced_nth: "spaced ps \<Longrightarrow> \<forall>p \<in> set ps. a \<le> p \<Longrightarrow> i < length ps \<Longrightarrow> a + 1000 * int i \<le> ps ! i"
proof (induction ps arbitrary: a i)
  case (Cons p ps)
  show ?case
  proof (cases i)
    case (Suc k)
    from Cons.prems(1,2) have "\<forall>q \<in> set ps. a + 1000 \<le> q" by fastforce
    with Cons.IH [of "a + 1000" k] Cons.prems Suc show ?thesis by simp
  qed (use Cons.prems in simp)
qed simp

lemma spaced_count:
  "spaced ps \<Longrightarrow> \<forall>p \<in> set ps. a \<le> p \<and> p < b \<Longrightarrow> ps \<noteq> [] \<Longrightarrow> 1000 * (int (length ps) - 1) < b - a"
proof (induction ps arbitrary: a)
  case (Cons p ps)
  show ?case
  proof (cases "ps = []")
    case False
    from Cons.prems(1,2) have "\<forall>q \<in> set ps. p + 1000 \<le> q \<and> q < b" by auto
    with Cons.IH [of "p + 1000"] Cons.prems(1,2) False show ?thesis by simp
  qed (use Cons.prems in simp)
qed simp

text \<open>After the handshake, the flag that says it was answered is up.\<close>

definition past_handshake :: "main_pc \<Rightarrow> bool" where
  "past_handshake pc = (case pc of Command \<Rightarrow> True | Ml_Enter \<Rightarrow> True | Ml_Poll \<Rightarrow> True | Ml_Lost _ \<Rightarrow> True
     | Ml_Idle _ \<Rightarrow> True | Ml_Expired \<Rightarrow> True | Ml_Sleep _ \<Rightarrow> True | Ml_Done _ \<Rightarrow> True
     | Hs_Answered _ \<Rightarrow> True | Hs_Done r \<Rightarrow> 0 \<le> r | _ \<Rightarrow> False)"

definition answer_inv :: "'f client \<Rightarrow> bool" where
  "answer_inv s \<longleftrightarrow> (past_handshake (cl_main s) \<longrightarrow> sv_ping_answered (cl_server s))"

lemma answer_main: "answer_inv s \<Longrightarrow> answer_inv (main_step J junk s)"
  by (cases "cl_main s") (auto simp: answer_inv_def past_handshake_def main_defs split: prod.splits)

lemma answer_reachable:
  assumes "client_run P J s0 s" and "0 \<le> request_socket (cl_socks s0)"
  shows "answer_inv s"
  using assms(1)
proof (rule client_run_invariant)
  show "answer_inv s0" if "client_start s0"
    using that assms(2) by (simp add: client_start_def answer_inv_def past_handshake_def)
qed (simp_all add: answer_main, auto simp: answer_inv_def request_keeps_answered)

section \<open>The handshake returns\<close>

text \<open>
  A turn of the main thread: the other threads take any steps they like, at least the 5 ms pass that the
  handshake sleeps, and the main thread takes a step.
\<close>

definition other_step :: "'f posix \<Rightarrow> 'f client \<Rightarrow> 'f client \<Rightarrow> bool" where
  "other_step P s s' \<longleftrightarrow> s' = ps2link_thread_console s \<or> (\<exists>E. s' = request_step P E s)"

definition main_turn :: "'f posix \<Rightarrow> job \<Rightarrow> 'f client \<Rightarrow> 'f client \<Rightarrow> bool" where
  "main_turn P J s s' \<longleftrightarrow> (\<exists>s1 d junk. (other_step P)\<^sup>*\<^sup>* s s1 \<and> 5 \<le> d \<and> length junk = 256
     \<and> s' = main_step J junk (s1\<lparr>cl_clock := cl_clock s1 + d\<rparr>))"

lemma other_steps_keep: "(other_step P)\<^sup>*\<^sup>* s s' \<Longrightarrow> cl_main s' = cl_main s \<and> cl_clock s' = cl_clock s"
  by (induction rule: rtranclp_induct) (auto simp: other_step_def)

text \<open>The turns that are left: the milliseconds of the timeout and the way from here to the test of the time.\<close>

definition hs_rank :: "job \<Rightarrow> 'f client \<Rightarrow> nat" where
  "hs_rank J s = (let left = (\<lambda>t. nat (t + j_handshake_ms J - cl_clock s)) in
     case cl_main s of Hs_Enter \<Rightarrow> nat (j_handshake_ms J) + 3
     | Hs_Time t _ \<Rightarrow> left t + 1 | Hs_Test t _ \<Rightarrow> left t + 2 | Hs_Sleep t _ _ \<Rightarrow> left t + 3
     | Hs_Send t _ \<Rightarrow> left t + 4 | Hs_Lost t _ _ \<Rightarrow> left t + 5 | Hs_Answered _ \<Rightarrow> 1 | _ \<Rightarrow> 0)"

definition hs_running :: "'f client \<Rightarrow> bool" where
  "hs_running s \<longleftrightarrow> (case cl_main s of Hs_Sleep _ _ until \<Rightarrow> until \<le> cl_clock s + 5
     | pc \<Rightarrow> pc = Hs_Enter \<or> hs_start pc \<noteq> None)"

lemma turn_rank:
  assumes "hs_running s" and "main_turn P J s s'"
  shows "(\<exists>r. cl_main s' = Hs_Done r) \<or> hs_running s' \<and> hs_rank J s' < hs_rank J s"
proof -
  obtain s1 d junk where o: "(other_step P)\<^sup>*\<^sup>* s s1" "5 \<le> d" "s' = main_step J junk (s1\<lparr>cl_clock := cl_clock s1 + d\<rparr>)"
    using assms(2) by (auto simp: main_turn_def)
  have k: "cl_main s1 = cl_main s" "cl_clock s1 = cl_clock s" using other_steps_keep [OF o(1)] by auto
  obtain r n where run: "run_state (ps2link_command_dumpreg (command_socket (cl_socks s1)) junk PS2LINK_PING_REGS
      (Some PS2LINK_PING_PATHNAME)) (sv_net (cl_server s1)) = (r, n)" by force
  show ?thesis
    using assms(1) k o(2) run unfolding o(3)
    by (cases "cl_main s") (auto simp: hs_running_def hs_rank_def hs_start_def main_defs)
qed

section \<open>Properties\<close>

text \<open>(C11) No flood of commands. In every run the clock readings by which the handshake decides to send are at
  least 1000 ms apart, never more than one for each second begun of its timeout, and each command goes
  out at or after its reading. So the \<open>i\<close>-th command, counted from 0, does not go out before \<open>i\<close>
  seconds have passed. (Two commands can follow each other more closely than a second, by as much as
  the first was held up between its reading and its sending.)\<close>

theorem handshake_paced:
  assumes "client_run P J s0 s"
  shows "spaced (map fst (cl_pings s)) \<and> list_all (\<lambda>(now, sent). now \<le> sent) (cl_pings s)
    \<and> (cl_pings s = [] \<or> 1000 * (int (length (cl_pings s)) - 1) < j_handshake_ms J)
    \<and> (\<forall>i < length (cl_pings s). cl_clock s0 + 1000 * int i \<le> snd (cl_pings s ! i))"
proof -
  let ?ps = "map fst (cl_pings s)"
  obtain start where sp: "spaced ?ps" "\<forall>p \<in> set ?ps. start \<le> p \<and> p < start + j_handshake_ms J"
    using ping_reachable [OF assms] pings_in_facts(1)
    by (fastforce simp: ping_inv_def Let_def pings_over_def pings_in_def split: main_pc.splits)
  have send: "list_all (\<lambda>(now, sent). cl_clock s0 \<le> now \<and> now \<le> sent) (cl_pings s)"
    using send_reachable [OF assms] by (simp add: send_inv_def)
  have "cl_clock s0 + 1000 * int i \<le> snd (cl_pings s ! i)" if "i < length (cl_pings s)" for i
  proof -
    have "cl_clock s0 + 1000 * int i \<le> ?ps ! i"
      using spaced_nth [OF sp(1), of "cl_clock s0" i] send that by (auto simp: list_all_iff case_prod_beta)
    moreover have "fst (cl_pings s ! i) \<le> snd (cl_pings s ! i)"
      using send that by (auto simp: list_all_length case_prod_beta)
    ultimately show ?thesis using that by simp
  qed
  moreover have "list_all (\<lambda>(now, sent). now \<le> sent) (cl_pings s)" using send by (auto simp: list_all_iff)
  moreover have "cl_pings s = [] \<or> 1000 * (int (length (cl_pings s)) - 1) < j_handshake_ms J"
    using spaced_count [OF sp] by auto
  ultimately show ?thesis using sp(1) by blast
qed

text \<open>(C10) When a request connection was made, no command is sent before the PS2 has answered the
  handshake on that connection: at the point where the command is sent, and everywhere in the main
  loop, the answer has come in, in every interleaving.\<close>

theorem command_after_answer:
  assumes "client_run P J s0 s" and "0 \<le> request_socket (cl_socks s0)"
    and "cl_main s \<in> {Command, Ml_Enter, Ml_Poll}"
  shows "sv_ping_answered (cl_server s)"
  using answer_reachable [OF assms(1,2)] assms(3) by (auto simp: answer_inv_def past_handshake_def)

lemma sample_ping:
  "client_run sample_host sample_job (sample_client sample_sockets []) ((main_step sample_job sample_junk ^^ 5) (sample_client sample_sockets []))"
  by (rule run_main, rule client_run.start, rule sample_client_start)

theorem handshake_paced_witness:
  "cl_pings ((main_step sample_job sample_junk ^^ 5) (sample_client sample_sockets [])) = [(100, 100)]
   \<and> spaced (map fst (cl_pings ((main_step sample_job sample_junk ^^ 5) (sample_client sample_sockets []))))"
  using handshake_paced [OF sample_ping]
  by (simp add: sample_client_def sample_job_def sample_junk_def sample_sockets_def sample_server_def main_defs eval_nat_numeral
      split: prod.splits)

text \<open>The PS2 closes the file of the handshake, and \<open>main\<close> comes to the command.\<close>

definition sample_answered :: "unit client" where
  "sample_answered = request_step sample_host sample_env (sample_client sample_sockets (packet PS2LINK_REQUEST_CLOSE (be32 3)))"

lemma sample_answered_flag:
  "sv_ping_answered (cl_server sample_answered)" "cl_main sample_answered = Hs_Enter" "cl_clock sample_answered = 100"
proof -
  let ?req = "packet PS2LINK_REQUEST_CLOSE (be32 3)"
  let ?s = "(sample_server ?req)\<lparr>sv_ping_fd := 3\<rparr>"
  have fr: "request_frame ?req" and inb: "net_inbox (sv_net ?s) 4 = ?req @ []" and l: "length (sv_packet ?s) = 518"
    by (simp_all add: request_frame_def sample_server_def net_inbox_def)
  have "sv_ping_answered (snd (run_state (dispatch sample_host sample_env 4 PS2LINK_REQUEST_CLOSE) (loaded 4 ?req ?s)))"
    by (simp add: dispatch_def request_numbers ps2link_request_close_def handler_runs loaded_def sample_server_def
        pkt_word_def packet_def)
  with thread_round_frame [OF fr inb l, of sample_host sample_env]
  show "sv_ping_answered (cl_server sample_answered)" "cl_main sample_answered = Hs_Enter" "cl_clock sample_answered = 100"
    by (simp_all add: sample_answered_def request_step_def sample_client_def sample_sockets_def)
qed

lemma sample_command:
  "client_run sample_host sample_job (sample_client sample_sockets (packet PS2LINK_REQUEST_CLOSE (be32 3)))
     ((main_step sample_job sample_junk ^^ 4) sample_answered)"
  "cl_main ((main_step sample_job sample_junk ^^ 4) sample_answered) = Command"
  unfolding sample_answered_def
  by (rule run_main, rule client_run.step, rule client_run.start, rule sample_client_start, rule client_step.request)
     (use sample_answered_flag in \<open>simp add: sample_answered_def sample_job_def main_defs eval_nat_numeral\<close>)

theorem command_after_answer_witness:
  "sv_ping_answered (cl_server ((main_step sample_job sample_junk ^^ 4) sample_answered))"
proof -
  have "0 \<le> request_socket (cl_socks (sample_client sample_sockets (packet PS2LINK_REQUEST_CLOSE (be32 3))))"
    by (simp add: sample_client_def sample_sockets_def)
  from command_after_answer [OF sample_command(1) this] sample_command(2) show ?thesis by simp
qed

text \<open>(C13) The handshake returns: when the main thread gets its turns, with the time of its sleep passing in
  each, it has its result after at most as many turns as its timeout has milliseconds and three more,
  whatever the other threads and the PS2 do in between.\<close>

theorem handshake_returns:
  assumes "cl_main (f 0) = Hs_Enter" and "\<And>i. main_turn P J (f i) (f (Suc i))"
  shows "\<exists>n r. n \<le> nat (j_handshake_ms J) + 3 \<and> cl_main (f n) = Hs_Done r"
proof -
  have "\<exists>n r. n \<le> hs_rank J (f i) \<and> cl_main (f (i + n)) = Hs_Done r" if "hs_running (f i)" for i
    using that
  proof (induction "hs_rank J (f i)" arbitrary: i rule: less_induct)
    case less
    show ?case
    proof (cases "\<exists>r. cl_main (f (Suc i)) = Hs_Done r")
      case True
      moreover have "hs_rank J (f i) \<noteq> 0"
        using less.prems by (auto simp: hs_running_def hs_rank_def hs_start_def Let_def split: main_pc.splits)
      ultimately show ?thesis by (intro exI [of _ "1 :: nat"]) (auto simp: Suc_le_eq)
    next
      case False
      with turn_rank [OF less.prems assms(2)] have "hs_running (f (Suc i))" "hs_rank J (f (Suc i)) < hs_rank J (f i)" by auto
      with less.hyps [of "Suc i"] obtain n r where "n \<le> hs_rank J (f (Suc i))" "cl_main (f (Suc i + n)) = Hs_Done r" by auto
      with \<open>hs_rank J (f (Suc i)) < _\<close> show ?thesis by (intro exI [of _ "Suc n"]) auto
    qed
  qed
  from this [of 0] assms(1) show ?thesis by (simp add: hs_running_def hs_rank_def)
qed

theorem handshake_returns_witness:
  "\<exists>n r. n \<le> 3003 \<and> cl_main (((\<lambda>s. main_step sample_job sample_junk (s\<lparr>cl_clock := cl_clock s + 5\<rparr>)) ^^ n)
     (sample_client sample_sockets [])) = Hs_Done r"
proof -
  let ?f = "\<lambda>i. ((\<lambda>s. main_step sample_job sample_junk (s\<lparr>cl_clock := cl_clock s + 5\<rparr>)) ^^ i) (sample_client sample_sockets [])"
  have "main_turn sample_host sample_job (?f i) (?f (Suc i))" for i
    unfolding main_turn_def by (intro exI [of _ "?f i"] exI [of _ 5] exI [of _ sample_junk]) (simp add: sample_junk_def)
  with handshake_returns [of ?f sample_host sample_job] show ?thesis
    by (simp add: sample_client_def sample_sockets_def sample_job_def)
qed

end
