(* ===== verification/Link_Sent.thy ===== *)
theory Link_Sent
  imports Link_Handshake
begin

text \<open>
  What the client puts on its command connection: the commands of the handshake, then the command it
  was asked to send, once.
\<close>

definition ping_command :: link_command where
  "ping_command = Dumpreg PS2LINK_PING_REGS PS2LINK_PING_PATHNAME"

lemma ping_fits: "fits ping_command"
  by (simp add: ping_command_def PS2LINK_PING_PATHNAME_def lit_def)

text \<open>The datagrams after those of the handshake, by the point of the main thread.\<close>

definition sent_tail :: "job \<Rightarrow> byte list list \<Rightarrow> bool" where
  "sent_tail J tail = (case j_command J of None \<Rightarrow> tail = []
     | Some cmd \<Rightarrow> list_all2 carries tail [cmd])"

definition tail_ok :: "job \<Rightarrow> main_pc \<Rightarrow> byte list list \<Rightarrow> bool" where
  "tail_ok J pc tail = (if before_command pc then tail = []
     else case pc of Exited status \<Rightarrow> tail = [] \<and> (j_ping J \<or> status = PS2CLIENT_EXIT_NOCONNECT) \<or> sent_tail J tail
     | _ \<Rightarrow> sent_tail J tail)"

definition sent_inv :: "job \<Rightarrow> 'f client \<Rightarrow> 'f client \<Rightarrow> bool" where
  "sent_inv J s0 s \<longleftrightarrow> (let c = command_socket (cl_socks s0) in
     request_socket (cl_socks s) \<noteq> c \<and> console_socket (cl_socks s) \<noteq> c
     \<and> (\<exists>pings tail. net_outbox (sv_net (cl_server s)) c
            = net_outbox (sv_net (cl_server s0)) c @ concat pings @ concat tail
          \<and> length pings = length (cl_pings s) \<and> list_all (\<lambda>p. decode_command p = Some ping_command) pings
          \<and> tail_ok J (cl_main s) tail))"

lemma sent_invI:
  assumes "request_socket (cl_socks s) \<noteq> command_socket (cl_socks s0)"
    and "console_socket (cl_socks s) \<noteq> command_socket (cl_socks s0)"
    and "net_outbox (sv_net (cl_server s)) (command_socket (cl_socks s0))
      = net_outbox (sv_net (cl_server s0)) (command_socket (cl_socks s0)) @ concat pings @ concat tail"
    and "length pings = length (cl_pings s)" and "list_all (\<lambda>p. decode_command p = Some ping_command) pings"
    and "tail_ok J (cl_main s) tail"
  shows "sent_inv J s0 s"
  using assms unfolding sent_inv_def Let_def by blast

text \<open>The other threads leave the command connection alone.\<close>

lemma others_apart:
  "console_socket (cl_socks s) \<noteq> c \<Longrightarrow> sv_net (cl_server (ps2link_thread_console s)) c = sv_net (cl_server s) c"
  "request_socket (cl_socks s) \<noteq> c \<Longrightarrow> sv_net (cl_server (request_step P E s)) c = sv_net (cl_server s) c"
proof -
  obtain sz buffer n where "run_state (network_receive (console_socket (cl_socks s)) 65536) (sv_net (cl_server s))
      = ((sz, buffer), n)" by (metis surj_pair)
  then show "sv_net (cl_server (ps2link_thread_console s)) c = sv_net (cl_server s) c"
    if "console_socket (cl_socks s) \<noteq> c"
    using network_receive_other [OF _ that] by (simp add: ps2link_thread_console_def Let_def split: console_pc.split)
  obtain b sv where r: "run_state (thread_round P E (request_socket (cl_socks s))) (cl_server s) = (b, sv)" by force
  show "sv_net (cl_server (request_step P E s)) c = sv_net (cl_server s) c" if "request_socket (cl_socks s) \<noteq> c"
  proof -
    have "sv_net sv c = sv_net (cl_server s) c"
      using apart.net_round [OF that, of P E] r
      by (auto simp: state_io_rel_def over_net_def dest!: spec [of _ "cl_server s"])
    with r show ?thesis by (cases b) (simp_all add: request_step_def split: request_pc.split)
  qed
qed

lemma sent_others:
  assumes "sent_inv J s0 s"
  shows "sent_inv J s0 (ps2link_thread_console s)" "sent_inv J s0 (request_step P E s)"
    "sent_inv J s0 (s\<lparr>cl_clock := t\<rparr>)"
  using assms others_apart(1) [of s "command_socket (cl_socks s0)"] others_apart(2) [of s "command_socket (cl_socks s0)" P E]
  by (simp_all add: sent_inv_def net_outbox_def Let_def)

lemma disconnect_avoids:
  "0 \<le> c \<Longrightarrow> request_socket k \<noteq> c \<Longrightarrow> request_socket (fst (ps2link_disconnect k)) \<noteq> c"
  "0 \<le> c \<Longrightarrow> console_socket k \<noteq> c \<Longrightarrow> console_socket (fst (ps2link_disconnect k)) \<noteq> c"
  by (auto simp: ps2link_disconnect_def)

lemma sent_main:
  assumes "sent_inv J s0 s" and "base_inv s0 s" and "length junk = 256"
    and "0 \<le> command_socket (cl_socks s0)" and "net_writable (sv_net (cl_server s0)) (command_socket (cl_socks s0))"
    and "case j_command J of None \<Rightarrow> True | Some cmd \<Rightarrow> fits cmd"
  shows "sent_inv J s0 (main_step J junk s)"
proof -
  let ?c = "command_socket (cl_socks s0)"
  have w: "net_writable (sv_net (cl_server s)) ?c" using assms(2,5) by (simp add: base_inv_def)
  obtain pings tail where socks: "request_socket (cl_socks s) \<noteq> ?c" "console_socket (cl_socks s) \<noteq> ?c"
    and out: "net_outbox (sv_net (cl_server s)) ?c = net_outbox (sv_net (cl_server s0)) ?c @ concat pings @ concat tail"
      "length pings = length (cl_pings s)" "list_all (\<lambda>p. decode_command p = Some ping_command) pings"
      "tail_ok J (cl_main s) tail"
    using assms(1) by (auto simp: sent_inv_def Let_def)
  have keep: "sent_inv J s0 t" if "request_socket (cl_socks t) \<noteq> ?c" "console_socket (cl_socks t) \<noteq> ?c"
      "net_outbox (sv_net (cl_server t)) ?c = net_outbox (sv_net (cl_server s)) ?c" "cl_pings t = cl_pings s"
      "tail_ok J (cl_main t) tail" for t
    using that out(1-3) by (intro sent_invI [of _ _ pings tail]) simp_all
  note simps = main_defs tail_ok_def before_command_def hs_start_def disconnect_avoids [OF assms(4)]
  show ?thesis
  proof (cases "cl_main s")
    case (Hs_Send start now)
    with assms(2) have k: "command_socket (cl_socks s) = ?c" by (simp add: base_inv_def before_command_def hs_start_def)
    obtain pkt where pkt: "perform_command ?c junk ping_command = send_packet ?c pkt" "carries pkt ping_command"
      by (rule perform_command_packet [OF ping_fits assms(3), of ?c])
    have "run_state (ps2link_command_dumpreg ?c junk PS2LINK_PING_REGS (Some PS2LINK_PING_PATHNAME))
        (sv_net (cl_server s)) = (int (length pkt), after_send (sv_net (cl_server s)) ?c pkt)"
      using pkt(1) w by (simp add: ping_command_def)
    moreover have "decode_command pkt = Some ping_command" using pkt(2) by (simp add: carries_def ping_command_def)
    ultimately show ?thesis using Hs_Send k w socks out
      by (intro sent_invI [of _ _ "pings @ [pkt]" tail]) (simp_all add: simps)
  next
    case Command
    with assms(2) have k: "command_socket (cl_socks s) = ?c" by (simp add: base_inv_def before_command_def hs_start_def)
    have tail: "tail = []" using Command out(4) by (simp add: tail_ok_def before_command_def hs_start_def)
    show ?thesis
    proof (cases "j_command J")
      case None
      with Command socks out(4) tail show ?thesis
        by (intro keep) (simp_all add: simps run_command_def sent_tail_def)
    next
      case (Some cmd)
      with assms(6) have f: "fits cmd" by simp
      obtain pkt where pkt: "perform_command ?c junk cmd = send_packet ?c pkt" "carries pkt cmd"
        by (rule perform_command_packet [OF f assms(3), of ?c])
      have "run_state (run_command ?c junk (j_command J)) (sv_net (cl_server s))
          = (int (length pkt), after_send (sv_net (cl_server s)) ?c pkt)"
        using pkt(1) w Some by (simp add: run_command_def)
      with Command k w socks out pkt(2) tail Some show ?thesis
        by (intro sent_invI [of _ _ pings "[pkt]"]) (simp_all add: simps sent_tail_def)
    qed
  qed (use socks out(4) in \<open>intro keep; auto simp: simps split: if_splits\<close>)+
qed

lemma sent_reachable:
  assumes "client_run P J s0 s" and "0 \<le> command_socket (cl_socks s0)"
    and "request_socket (cl_socks s0) \<noteq> command_socket (cl_socks s0)"
    and "console_socket (cl_socks s0) \<noteq> command_socket (cl_socks s0)"
    and "net_writable (sv_net (cl_server s0)) (command_socket (cl_socks s0))"
    and "case j_command J of None \<Rightarrow> True | Some cmd \<Rightarrow> fits cmd"
  shows "sent_inv J s0 s"
proof -
  have "base_inv s0 s \<and> sent_inv J s0 s"
    using assms(1)
  proof (rule client_run_invariant)
    assume start: "client_start s0"
    then have "tail_ok J (cl_main s0) []" "cl_pings s0 = []"
      by (auto simp: client_start_def tail_ok_def before_command_def)
    with start assms(3,4) show "base_inv s0 s0 \<and> sent_inv J s0 s0"
      by (auto simp: client_start_def base_inv_def hs_start_def intro!: sent_invI [of _ _ "[]" "[]"])
  qed (simp_all add: base_main base_others sent_others sent_main assms(2,5,6))
  then show ?thesis by simp
qed

section \<open>The command is sent once\<close>

text \<open>When the command connection takes what is sent and the command
  fits its packet, then in every interleaving in which the client that was asked to send it ends with a
  status other than 69, what went out on that connection is one datagram of the handshake for each time
  it tried, and then exactly one datagram, which reads back as the command.\<close>

lemma command_sent:
  assumes "client_run P J s0 s" and "cl_main s = Exited status" and "status \<noteq> PS2CLIENT_EXIT_NOCONNECT"
    and "\<not> j_ping J" and "j_command J = Some cmd" and "fits cmd"
    and "0 \<le> command_socket (cl_socks s0)"
    and "command_socket (cl_socks s0) \<notin> {request_socket (cl_socks s0), console_socket (cl_socks s0)}"
    and "net_writable (sv_net (cl_server s0)) (command_socket (cl_socks s0))"
  shows "\<exists>pings pkt. net_outbox (sv_net (cl_server s)) (command_socket (cl_socks s0))
      = net_outbox (sv_net (cl_server s0)) (command_socket (cl_socks s0)) @ concat pings @ pkt
    \<and> length pings = length (cl_pings s) \<and> list_all (\<lambda>p. decode_command p = Some ping_command) pings
    \<and> carries pkt cmd"
proof -
  have "sent_inv J s0 s" using sent_reachable [OF assms(1,7) _ _ assms(9)] assms(5,6,8) by auto
  with assms(2-5) show ?thesis
    by (auto simp: sent_inv_def Let_def tail_ok_def before_command_def hs_start_def sent_tail_def list_all2_Cons2)
      blast
qed

end
