(* ===== verification/Ps2client.thy ===== *)
theory Ps2client
  imports Client_Main Resetcheck Link_Sent
begin

text \<open>
  \<open>main\<close> of \<^verbatim>\<open>src/ps2client.c\<close> as a whole: the plan of \<open>Client_Main\<close>, \<open>network_startup\<close>, \<open>ps2link_connect\<close>, and a
  run of the threads of \<open>Link_Main\<close>, or \<open>ps2client_resetcheck\<close>. The relation \<open>ps2client_exits\<close> holds of the
  exit statuses the program can end with, over all answers of the system, interleavings and networks.
\<close>

text \<open>The variables of \<^verbatim>\<open>src/ps2link.c\<close> after a successful \<open>ps2link_connect\<close>; the packet buffer is uninitialised.\<close>

definition start_server :: "net \<Rightarrow> 'f \<Rightarrow> byte list \<Rightarrow> 'f server" where
  "start_server n f stack = \<lparr>sv_net = n, sv_fs = f, sv_packet = stack,
     sv_dd = replicate 10 \<lparr>dd_pathname = None, dd_dir = None\<rparr>, sv_ping_fd = -1, sv_ping_answered = False,
     sv_fault = False\<rparr>"

definition start_client :: "'f server \<Rightarrow> sockets \<Rightarrow> byte list option \<Rightarrow> int \<Rightarrow> 'f client" where
  "start_client sv k marker now = ps2link_set_activity
     \<lparr>cl_server = sv, cl_console = ps2link_set_marker marker \<lparr>c_marker = None, c_line = [], c_seen = False, c_status = 0\<rparr>,
      cl_stdout = [], cl_activity = 0, cl_lost = False, cl_socks = k, cl_clock = now, cl_pings = [],
      cl_main = (if 0 \<le> request_socket k then Hs_Enter else Command),
      cl_con = (if 0 \<le> console_socket k then Con_Receive else Con_Off),
      cl_req = (if 0 \<le> request_socket k then Req_Serve else Req_Off)\<rparr>"

lemma start_client_start: "client_start (start_client (start_server n f stack) k marker now)"
  by (simp add: start_client_def start_server_def client_start_def ps2link_set_marker_def)

text \<open>
  \<open>elapsed\<close> is the time a ping spent connecting, \<open>a\<close>, \<open>b\<close>, \<open>c\<close> the answers of the system for the three sockets.
\<close>

inductive ps2client_exits ::
  "'f posix \<Rightarrow> 'w reset_os \<Rightarrow> byte list \<Rightarrow> byte list list \<Rightarrow> byte list list \<Rightarrow> int \<Rightarrow> bool"
  for P S executable env args where
  usage: "plan_main elapsed env args = Inl status \<Longrightarrow> ps2client_exits P S executable env args status"
| resetcheck: "plan_main elapsed env args = Inr (Plan_Resetcheck host t) \<Longrightarrow>
    ps2client_resetcheck S executable host t \<lparr>rc_world = w, rc_runs = []\<rparr> = Some (status, s') \<Longrightarrow>
    ps2client_exits P S executable env args status"
| startup: "plan_main elapsed env args = Inr (Plan_Connect host what limit J marker) \<Longrightarrow> fst network_startup < 0 \<Longrightarrow>
    ps2client_exits P S executable env args PS2CLIENT_EXIT_NOCONNECT"
| connect: "plan_main elapsed env args = Inr (Plan_Connect host what limit J marker) \<Longrightarrow> 0 \<le> fst network_startup \<Longrightarrow>
    ps2link_connect a b c what limit no_sockets = (status, k, ops) \<Longrightarrow> status \<noteq> 0 \<Longrightarrow>
    ps2client_exits P S executable env args status"
| run: "plan_main elapsed env args = Inr (Plan_Connect host what limit J marker) \<Longrightarrow> 0 \<le> fst network_startup \<Longrightarrow>
    ps2link_connect a b c what limit no_sockets = (0, k, ops) \<Longrightarrow> length stack = 518 \<Longrightarrow>
    client_run P J (start_client (start_server n f stack) k marker now) s \<Longrightarrow> cl_main s = Exited status \<Longrightarrow>
    ps2client_exits P S executable env args status"

section \<open>The statuses of the parts\<close>

definition exit_statuses :: "int set" where
  "exit_statuses = {PS2CLIENT_EXIT_OK, PS2CLIENT_EXIT_USAGE, PS2CLIENT_EXIT_NOCONNECT, PS2CLIENT_EXIT_CONNLOST,
     PS2CLIENT_EXIT_PORTBUSY, PS2CLIENT_EXIT_TIMEOUT}"

lemma resetcheck_statuses:
  assumes "ps2client_resetcheck S e h t s = Some (status, s')"
  shows "status \<in> exit_statuses"
proof -
  obtain st1 s1 where 1: "run_state (Resetcheck.run_command S e h (lit ''ping'') True) s = (st1, s1)" by force
  obtain st2 s2 where 2: "run_state (Resetcheck.run_command S e h (lit ''reset'') True) s1 = (st2, s2)" by force
  obtain now s3 where 3: "run_state (rc_time_ms S) s2 = (now, s3)" by force
  show ?thesis
    using assms check_loop_watched [of S e h "now + t * 1000" False s3 "(status, s')"]
    unfolding resetcheck_cases [OF 1 2 3] by (auto simp: exit_statuses_def watched_def split: if_splits)
qed

lemma connect_statuses: "ps2link_connect a b c what limit k = (status, k', ops) \<Longrightarrow> status \<in> exit_statuses"
  by (auto simp: ps2link_connect_def exit_statuses_def exit_codes Let_def split: if_splits prod.splits)

text \<open>Without a marker the console search never finds one.\<close>

lemma scan_no_marker:
  "c_marker c = None \<Longrightarrow> ps2link_scan_console x c = c" "c_marker c = None \<Longrightarrow> check_rest c = c"
  by (simp_all add: ps2link_scan_console_def check_rest_def)

lemma exit_reason_statuses:
  assumes "exit_reason P J s0 d status" and "\<not> c_seen (cl_console s0)"
  shows "status \<in> exit_statuses \<or> c_marker (cl_console s0) \<noteq> None \<and> 0 \<le> status \<and> status \<le> 255"
proof -
  have b: "0 \<le> (i :: int) AND 255 \<and> i AND 255 \<le> 255" for i
    by (simp add: AND_upper2)
  show ?thesis
  proof (cases "c_marker (cl_console s0)")
    case None
    with assms show ?thesis
      by (auto simp: exit_reason_def scan_no_marker exit_statuses_def Let_def split: main_pc.splits if_splits)
  next
    case (Some m)
    with assms(1) b show ?thesis
      by (auto simp: exit_reason_def exit_statuses_def Let_def split: main_pc.splits if_splits)
  qed
qed

lemma plan_marker:
  assumes "plan_main elapsed env args = Inr (Plan_Connect host what limit J (Some m))"
  shows "\<exists>o' rest. parse_options args (parse_environment env default_options) = Inr (o', rest) \<and> o_marker o' = Some m"
  using assms
  by (auto simp: plan_main_def plan_command_def Let_def split: if_splits sum.splits list.splits option.splits prod.splits)

lemma connect_sockets:
  assumes "ps2link_connect a b c what limit no_sockets = (0, k, ops)" and "distinct [a_socket a, a_socket b, a_socket c]"
    and "what AND PS2LINK_CONNECT_COMMAND \<noteq> 0"
  shows "0 \<le> command_socket k" and "command_socket k \<notin> {request_socket k, console_socket k}"
proof -
  have l: "x = a_socket a" if "network_listen a 0x4712 SOCK_DGRAM = (x, o1)" "0 \<le> x" for x o1
    using network_listen_open [OF that(1), of "{}"] that(2) by simp
  note r = network_connect_timeout_result
  obtain c' o1 where c: "network_listen a 0x4712 SOCK_DGRAM = (c', o1)" by force
  obtain r' o2 where d: "network_connect_timeout b 0x4711 SOCK_STREAM limit = (r', o2)" by force
  obtain d' o3 where e: "network_connect c 0x4712 SOCK_DGRAM = (d', o3)" by force
  have "0 \<le> d' \<Longrightarrow> d' = a_socket c" using r e unfolding network_connect_def by blast
  with l [OF c] r [OF d] assms
  show "0 \<le> command_socket k" and "command_socket k \<notin> {request_socket k, console_socket k}"
    by (auto simp: ps2link_connect_def c d e no_sockets_def exit_codes Let_def split: if_splits)
qed

section \<open>Properties\<close>

text \<open>(C5) The exit statuses of ps2client are the ones its usage text lists: whatever the arguments, the answers
  of the system, the network and the order of the threads, the program ends with 0, 64, 69, 74, 75 or 124,
  or it was given a marker with \<open>-e\<close> and ends with a status of one byte.\<close>

theorem exits_documented:
  assumes "ps2client_exits P S executable env args status"
  shows "status \<in> {0, 64, 69, 74, 75, 124}
    \<or> (\<exists>o' rest m. parse_options args (parse_environment env default_options) = Inr (o', rest)
        \<and> o_marker o' = Some m \<and> 0 \<le> status \<and> status \<le> 255)"
proof -
  have set: "exit_statuses = {0, 64, 69, 74, 75, 124}" by (auto simp: exit_statuses_def exit_codes)
  from assms show ?thesis
  proof cases
    case (usage elapsed)
    then show ?thesis using plan_main_usage by (simp add: exit_codes)
  next
    case (resetcheck elapsed host t w s')
    then show ?thesis using resetcheck_statuses set by blast
  next
    case (startup elapsed host what limit J marker)
    then show ?thesis by (simp add: exit_codes)
  next
    case (connect elapsed host what limit J marker a b c k ops)
    then show ?thesis using connect_statuses set by blast
  next
    case (run elapsed host what limit J marker a b c k ops stack n f now s)
    let ?c = "start_client (start_server n f stack) k marker now"
    have c: "c_marker (cl_console ?c) = marker" "\<not> c_seen (cl_console ?c)"
      by (simp_all add: start_client_def ps2link_set_marker_def)
    obtain d where "exit_reason P J ?c d status"
      using exit_explained [OF run(5,6)] by blast
    from exit_reason_statuses [OF this c(2)] have "status \<in> {0, 64, 69, 74, 75, 124} \<or> marker \<noteq> None \<and> 0 \<le> status \<and> status \<le> 255"
      unfolding c(1) set .
    then show ?thesis
    proof
      assume "marker \<noteq> None \<and> 0 \<le> status \<and> status \<le> 255"
      with run(1) plan_marker show ?thesis by blast
    qed blast
  qed
qed

text \<open>(C4) From the command line to the wire: for arguments that are strings of at most 255 bytes, when the
  connections are made and the command connection takes what is sent, then in every interleaving in
  which the program ends with a status other than 69, what went out on that connection is one datagram
  of the handshake for each time it tried and then exactly one more. The words after the options ask for
  a command, by name and argument (\<open>asks\<close>, numbers modulo \<open>2 ^ 32\<close>), and that datagram, read by the protocol
  document, is the same command with the same arguments. The exception is \<open>gsexec\<close>, whose datagram is not
  one of the document and has the low 16 bits of the size and the name.\<close>

theorem command_delivered:
  assumes "list_all (\<lambda>a. 0 \<notin> set a \<and> length a \<le> 255) args"
    and "plan_main elapsed env args = Inr (Plan_Connect host what limit J marker)" and "j_command J \<noteq> None"
    and "ps2link_connect a b c what limit no_sockets = (0, k, ops)" and "distinct [a_socket a, a_socket b, a_socket c]"
    and "net_writable n (command_socket k)"
    and "client_run P J (start_client (start_server n f stack) k marker now) s"
    and "cl_main s = Exited status" and "status \<noteq> PS2CLIENT_EXIT_NOCONNECT"
  shows "\<exists>pings pkt o' name argv cmd. net_outbox (sv_net (cl_server s)) (command_socket k)
      = net_outbox n (command_socket k) @ concat pings @ pkt
    \<and> length pings = length (cl_pings s) \<and> list_all (\<lambda>p. decode_command p = Some ping_command) pings
    \<and> parse_options args (parse_environment env default_options) = Inr (o', name # argv) \<and> asks name argv cmd
    \<and> (case cmd of Gsexec sz path \<Rightarrow> decode_command pkt = None \<and> length pkt = 264 \<and> pkt_number pkt = 0xBABE020B
           \<and> pkt_half pkt 6 = ucast sz \<and> pkt_string pkt 8 = path
         | _ \<Rightarrow> decode_command pkt = Some cmd)"
proof -
  obtain cmd where cmd: "j_command J = Some cmd" using assms(3) by blast
  note p = planned_command [OF assms(2) cmd]
  note k = connect_sockets [OF assms(4,5) p(1)]
  let ?s = "start_client (start_server n f stack) k marker now"
  have "cl_socks ?s = k" "sv_net (cl_server ?s) = n"
    by (simp_all add: start_client_def start_server_def ps2link_set_activity_def)
  with command_sent [OF assms(7,8,9) p(2) cmd p(3) [OF assms(1)]] k assms(6) obtain pings pkt where
    "net_outbox (sv_net (cl_server s)) (command_socket k) = net_outbox n (command_socket k) @ concat pings @ pkt"
    "length pings = length (cl_pings s)" "list_all (\<lambda>p. decode_command p = Some ping_command) pings" "carries pkt cmd"
    by auto
  with planned_asks [OF assms(2) cmd] show ?thesis unfolding carries_def by blast
qed

section \<open>A sample: the reset command\<close>

definition sample_reset :: "unit client" where
  "sample_reset = start_client (start_server (\<lambda>_. \<lparr>rx = [], tx = [], tx_plan = []\<rparr>) () (replicate 518 0))
     (no_sockets\<lparr>command_socket := 5\<rparr>) None 100"

definition sample_reset_job :: job where
  "sample_reset_job = \<lparr>j_command = Some Reset, j_ping = False, j_handshake_ms = 3000, j_timeout = 0\<rparr>"

lemma sample_reset_plan:
  "plan_main 0 [] [lit ''reset''] = Inr (Plan_Connect (lit ''192.168.0.10'') 4 3000 sample_reset_job None)"
  by (simp add: plan_main_def default_options_def lit_def find_command_def commands_def entry_def plan_command_def
      connect_what_def connect_flags Let_def sample_reset_job_def)

definition sample_answers_udp :: sock_answers where
  "sample_answers_udp = (sample_answers 5)\<lparr>a_connect := 0\<rparr>"

lemma sample_reset_connect:
  "ps2link_connect (sample_answers 3) (sample_answers 4) sample_answers_udp 4 3000 no_sockets
     = (0, no_sockets\<lparr>command_socket := 5\<rparr>,
        snd (snd (ps2link_connect (sample_answers 3) (sample_answers 4) sample_answers_udp 4 3000 no_sockets)))"
  by code_simp

lemma sample_reset_run:
  "client_run sample_host sample_reset_job sample_reset ((main_step sample_reset_job sample_junk ^^ 3) sample_reset)"
  unfolding sample_reset_def by (intro run_main client_run.start start_client_start)

lemma sample_reset_exit:
  "cl_main ((main_step sample_reset_job sample_junk ^^ 3) sample_reset) = Exited 0"
  "cl_pings ((main_step sample_reset_job sample_junk ^^ 3) sample_reset) = []"
proof -
  have "net_writable (\<lambda>_. \<lparr>rx = [], tx = [], tx_plan = []\<rparr>) 5" by (simp add: net_views)
  then show "cl_main ((main_step sample_reset_job sample_junk ^^ 3) sample_reset) = Exited 0"
    and "cl_pings ((main_step sample_reset_job sample_junk ^^ 3) sample_reset) = []"
    by (simp_all add: sample_reset_def start_client_def start_server_def ps2link_set_activity_def ps2link_set_marker_def
        sample_reset_job_def no_sockets_def main_defs Link_Main.run_command_def numeral_3_eq_3 exit_codes command_defs)
qed

theorem exits_documented_witness:
  "ps2client_exits sample_host sample_os [] [] [lit ''reset''] 0
   \<and> ((0 :: int) \<in> {0, 64, 69, 74, 75, 124} \<or> (\<exists>o' rest m. parse_options [lit ''reset''] (parse_environment [] default_options)
     = Inr (o', rest) \<and> o_marker o' = Some m \<and> 0 \<le> (0 :: int) \<and> (0 :: int) \<le> 255))"
proof -
  have "ps2client_exits sample_host sample_os [] [] [lit ''reset''] 0"
    using run [OF sample_reset_plan _ sample_reset_connect _ sample_reset_run [unfolded sample_reset_def] sample_reset_exit(1) [unfolded sample_reset_def]]
    by (simp add: network_startup_def)
  with exits_documented [OF this] show ?thesis by blast
qed

text \<open>The words of the sample ask for a reset.\<close>

lemma sample_reset_asked:
  assumes "parse_options [lit ''reset''] default_options = Inr (o', name # argv)" and "asks name argv cmd"
  shows "cmd = Reset"
proof -
  have "name = lit ''reset''" using assms(1) by (simp add: lit_def)
  with assms(2) show ?thesis by (cases cmd) (simp_all add: asks_def lit_def)
qed

lemma sample_reset_delivered:
  assumes "\<exists>pings pkt o' name argv cmd. out = [] @ concat pings @ pkt
    \<and> length pings = length ps \<and> list_all Q pings
    \<and> parse_options [lit ''reset''] (parse_environment [] default_options) = Inr (o', name # argv) \<and> asks name argv cmd
    \<and> (case cmd of Gsexec sz path \<Rightarrow> decode_command pkt = None \<and> length pkt = 264 \<and> pkt_number pkt = 0xBABE020B
           \<and> pkt_half pkt 6 = ucast sz \<and> pkt_string pkt 8 = path
         | _ \<Rightarrow> decode_command pkt = Some cmd)" and "ps = []"
  shows "decode_command out = Some Reset"
  using assms by (auto dest: sample_reset_asked simp del: parse_options.simps)

theorem command_delivered_witness:
  "decode_command (net_outbox (sv_net (cl_server ((main_step sample_reset_job sample_junk ^^ 3) sample_reset))) 5) = Some Reset"
proof -
  let ?n = "\<lambda>_ :: int. \<lparr>rx = [], tx = [], tx_plan = []\<rparr> :: conn" and ?k = "no_sockets\<lparr>command_socket := 5\<rparr>"
  have args: "list_all (\<lambda>a. 0 \<notin> set a \<and> length a \<le> 255) [lit ''reset'']" by (simp add: lit_def)
  have job: "j_command sample_reset_job \<noteq> None" by (simp add: sample_reset_job_def)
  have socks: "distinct [a_socket (sample_answers 3), a_socket (sample_answers 4), a_socket sample_answers_udp]"
    by (simp add: sample_answers_def sample_answers_udp_def)
  have wr: "net_writable ?n (command_socket ?k)" by (simp add: net_views)
  have st: "(0 :: int) \<noteq> PS2CLIENT_EXIT_NOCONNECT" by (simp add: exit_codes)
  have k: "command_socket ?k = 5" "net_outbox ?n 5 = []" by (simp_all add: net_views)
  note run = sample_reset_run [unfolded sample_reset_def] sample_reset_exit(1) [unfolded sample_reset_def]
  show ?thesis
    by (rule sample_reset_delivered [OF command_delivered [OF args sample_reset_plan job sample_reset_connect socks wr
      run st, folded sample_reset_def, unfolded k] sample_reset_exit(2)])
qed

end
