(* ===== verification/Netfs.thy ===== *)
theory Netfs
  imports Link_Command
begin

text \<open>
  \<^verbatim>\<open>src/ps2netfs.c\<close>: the client side of the ps2netfs protocol, one connection over which commands are
  sent and answered one after the other. The global \<open>ps2netfs_socket\<close> is the parameter \<open>sock\<close>. A
  \<open>char *\<close> argument that may be null is an option.
\<close>

definition PS2NETFS_COMMAND_OPEN :: u32 where "PS2NETFS_COMMAND_OPEN = 0xBEEF8011"
definition PS2NETFS_COMMAND_CLOSE :: u32 where "PS2NETFS_COMMAND_CLOSE = 0xBEEF8021"
definition PS2NETFS_COMMAND_READ :: u32 where "PS2NETFS_COMMAND_READ = 0xBEEF8031"
definition PS2NETFS_COMMAND_WRITE :: u32 where "PS2NETFS_COMMAND_WRITE = 0xBEEF8041"
definition PS2NETFS_COMMAND_LSEEK :: u32 where "PS2NETFS_COMMAND_LSEEK = 0xBEEF8051"
definition PS2NETFS_COMMAND_DELETE :: u32 where "PS2NETFS_COMMAND_DELETE = 0xBEEF8071"
definition PS2NETFS_COMMAND_MKDIR :: u32 where "PS2NETFS_COMMAND_MKDIR = 0xBEEF8081"
definition PS2NETFS_COMMAND_RMDIR :: u32 where "PS2NETFS_COMMAND_RMDIR = 0xBEEF8091"
definition PS2NETFS_COMMAND_DOPEN :: u32 where "PS2NETFS_COMMAND_DOPEN = 0xBEEF80A1"
definition PS2NETFS_COMMAND_DCLOSE :: u32 where "PS2NETFS_COMMAND_DCLOSE = 0xBEEF80B1"
definition PS2NETFS_COMMAND_DREAD :: u32 where "PS2NETFS_COMMAND_DREAD = 0xBEEF80C1"
definition PS2NETFS_COMMAND_SYNC :: u32 where "PS2NETFS_COMMAND_SYNC = 0xBEEF8031"
definition PS2NETFS_COMMAND_MOUNT :: u32 where "PS2NETFS_COMMAND_MOUNT = 0xBEEF8041"
definition PS2NETFS_COMMAND_UMOUNT :: u32 where "PS2NETFS_COMMAND_UMOUNT = 0xBEEF8051"
definition PS2NETFS_COMMAND_DEVLIST :: u32 where "PS2NETFS_COMMAND_DEVLIST = 0xBEEF8F21"

lemmas netfs_numbers = PS2NETFS_COMMAND_OPEN_def PS2NETFS_COMMAND_CLOSE_def
  PS2NETFS_COMMAND_READ_def PS2NETFS_COMMAND_WRITE_def PS2NETFS_COMMAND_LSEEK_def
  PS2NETFS_COMMAND_DELETE_def PS2NETFS_COMMAND_MKDIR_def PS2NETFS_COMMAND_RMDIR_def
  PS2NETFS_COMMAND_DOPEN_def PS2NETFS_COMMAND_DCLOSE_def PS2NETFS_COMMAND_DREAD_def
  PS2NETFS_COMMAND_SYNC_def PS2NETFS_COMMAND_MOUNT_def PS2NETFS_COMMAND_UMOUNT_def
  PS2NETFS_COMMAND_DEVLIST_def

section \<open>The connection\<close>

text \<open>The return value and the new value of the global \<open>ps2netfs_socket\<close>.\<close>

definition ps2netfs_connect :: "sock_answers \<Rightarrow> int \<times> int" where
  "ps2netfs_connect ans =
     (let sock = fst (network_connect ans 0x4713 SOCK_STREAM)
      in (if sock < 0 then -1 else 0, sock))"

text \<open>The return value for the answer of \<open>close\<close>, and the calls made. The variable keeps its value.\<close>

definition ps2netfs_disconnect :: "int \<Rightarrow> int \<Rightarrow> int \<times> sock_op list" where
  "ps2netfs_disconnect close_answer sock =
     (case network_disconnect close_answer sock of (r, ops) \<Rightarrow> (if r < 0 then -1 else 0, ops))"

section \<open>Commands\<close>

text \<open>
  Every command sends its packet and receives a response of a fixed size; a failure of either is the
  early return of \<open>-1\<close>, here \<open>None\<close>. The number and the length of the response are not looked at.
\<close>

definition netfs_exchange :: "int \<Rightarrow> byte list \<Rightarrow> nat \<Rightarrow> (net, byte list option) state" where
  "netfs_exchange sock command sz = do {
     r \<leftarrow> network_send sock command (int (length command));
     if r < 0 then ret None else do {
     (r, response) \<leftarrow> network_receive_all sock (int sz);
     ret (if r < 0 then None else Some response) } }"

text \<open>The commands whose response is \<open>struct { number; length; int result; }\<close>.\<close>

definition netfs_call :: "int \<Rightarrow> byte list \<Rightarrow> (net, int) state" where
  "netfs_call sock command = do {
     response \<leftarrow> netfs_exchange sock command 10;
     ret (case response of None \<Rightarrow> -1 | Some p \<Rightarrow> sint (pkt_word p 6)) }"

definition ps2netfs_command_open :: "int \<Rightarrow> byte list option \<Rightarrow> u32 \<Rightarrow> (net, int) state" where
  "ps2netfs_command_open sock pathname flags =
     (case pathname of None \<Rightarrow> ret (-1)
      | Some s \<Rightarrow>
        if 256 \<le> length s then ret (-1)
        else netfs_call sock (packet PS2NETFS_COMMAND_OPEN
               (be32 flags @ string_field (replicate 256 0) pathname)))"

definition ps2netfs_command_close :: "int \<Rightarrow> int \<Rightarrow> (net, int) state" where
  "ps2netfs_command_close sock fd =
     netfs_call sock (packet PS2NETFS_COMMAND_CLOSE (be32 (word_of_int fd)))"

text \<open>\<open>ps2netfs_command_read\<close> returns the result and what it wrote to the buffer of the caller.\<close>

definition ps2netfs_command_read :: "int \<Rightarrow> int \<Rightarrow> int \<Rightarrow> (net, int \<times> byte list) state" where
  "ps2netfs_command_read sock fd sz =
     (if sz < 0 then ret (-1, []) else do {
      response \<leftarrow> netfs_exchange sock (packet PS2NETFS_COMMAND_READ
        (be32 (word_of_int fd) @ be32 (word_of_int sz))) 14;
      case response of None \<Rightarrow> ret (-1, [])
      | Some p \<Rightarrow>
          let received = sint (pkt_word p 6) in
          if received < 0 then ret (received, [])
          else if sz < received then ret (-1, [])
          else do {
            (r, buffer) \<leftarrow> network_receive_all sock received;
            ret (if r < 0 then -1 else received, buffer) } })"

definition ps2netfs_command_write :: "int \<Rightarrow> int \<Rightarrow> byte list \<Rightarrow> int \<Rightarrow> (net, int) state" where
  "ps2netfs_command_write sock fd buffer sz = do {
     let command = packet PS2NETFS_COMMAND_WRITE (be32 (word_of_int fd) @ be32 (word_of_int sz));
     r \<leftarrow> network_send sock command (int (length command));
     if r < 0 then ret (-1) else do {
     r \<leftarrow> network_send sock buffer sz;
     if r < 0 then ret (-1) else do {
     (r, response) \<leftarrow> network_receive_all sock 10;
     ret (if r < 0 then -1 else sint (pkt_word response 6)) } } }"

definition ps2netfs_command_lseek :: "int \<Rightarrow> int \<Rightarrow> int \<Rightarrow> int \<Rightarrow> (net, int) state" where
  "ps2netfs_command_lseek sock fd offset whence =
     netfs_call sock (packet PS2NETFS_COMMAND_LSEEK
       (be32 (word_of_int fd) @ be32 (word_of_int offset) @ be32 (word_of_int whence)))"

definition ps2netfs_command_delete :: "int \<Rightarrow> byte list \<Rightarrow> byte list option \<Rightarrow> u32 \<Rightarrow> (net, int) state" where
  "ps2netfs_command_delete sock junk pathname flags =
     netfs_call sock (packet PS2NETFS_COMMAND_DELETE (be32 flags @ string_field junk pathname))"

definition ps2netfs_command_mkdir :: "int \<Rightarrow> byte list \<Rightarrow> byte list option \<Rightarrow> u32 \<Rightarrow> (net, int) state" where
  "ps2netfs_command_mkdir sock junk pathname flags =
     netfs_call sock (packet PS2NETFS_COMMAND_MKDIR (be32 flags @ string_field junk pathname))"

definition ps2netfs_command_rmdir :: "int \<Rightarrow> byte list \<Rightarrow> byte list option \<Rightarrow> u32 \<Rightarrow> (net, int) state" where
  "ps2netfs_command_rmdir sock junk pathname flags =
     netfs_call sock (packet PS2NETFS_COMMAND_RMDIR (be32 flags @ string_field junk pathname))"

definition ps2netfs_command_dopen :: "int \<Rightarrow> byte list \<Rightarrow> byte list option \<Rightarrow> u32 \<Rightarrow> (net, int) state" where
  "ps2netfs_command_dopen sock junk pathname flags =
     netfs_call sock (packet PS2NETFS_COMMAND_DOPEN (be32 flags @ string_field junk pathname))"

definition ps2netfs_command_dclose :: "int \<Rightarrow> int \<Rightarrow> (net, int) state" where
  "ps2netfs_command_dclose sock dd =
     netfs_call sock (packet PS2NETFS_COMMAND_DCLOSE (be32 (word_of_int dd)))"

text \<open>\<open>sizeof (DIRENT)\<close>: three ints, three times eight bytes, an int and 256 bytes.\<close>

definition sizeof_DIRENT :: nat where "sizeof_DIRENT = 296"

text \<open>The result and, unless the exchange failed, what was copied to \<open>*dirent\<close>.\<close>

definition ps2netfs_command_dread :: "int \<Rightarrow> int \<Rightarrow> (net, int \<times> byte list option) state" where
  "ps2netfs_command_dread sock dd = do {
     response \<leftarrow> netfs_exchange sock (packet PS2NETFS_COMMAND_DREAD (be32 (word_of_int dd)))
       (10 + sizeof_DIRENT);
     ret (case response of None \<Rightarrow> (-1, None)
          | Some p \<Rightarrow> (sint (pkt_word p 6), Some (drop 10 p))) }"

definition ps2netfs_command_sync :: "int \<Rightarrow> byte list \<Rightarrow> byte list option \<Rightarrow> u32 \<Rightarrow> (net, int) state" where
  "ps2netfs_command_sync sock junk device flags =
     netfs_call sock (packet PS2NETFS_COMMAND_SYNC (be32 flags @ string_field junk device))"

definition ps2netfs_command_mount ::
  "int \<Rightarrow> byte list \<times> byte list \<times> byte list \<Rightarrow> byte list option \<Rightarrow> byte list option \<Rightarrow> u32
    \<Rightarrow> byte list option \<Rightarrow> u32 \<Rightarrow> (net, int) state" where
  "ps2netfs_command_mount sock junk device fsname flags argv argc =
     (case junk of (junk_device, junk_fsname, junk_argv) \<Rightarrow>
        netfs_call sock (packet PS2NETFS_COMMAND_MOUNT
          (string_field junk_device device @ string_field junk_fsname fsname @ be32 flags
            @ string_field junk_argv argv @ be32 argc)))"

text \<open>\<open>flags\<close> is ignored, and the field of the packet is never assigned.\<close>

definition ps2netfs_command_umount ::
  "int \<Rightarrow> byte list \<times> byte list \<Rightarrow> byte list option \<Rightarrow> u32 \<Rightarrow> (net, int) state" where
  "ps2netfs_command_umount sock junk device flags =
     (case junk of (junk_flags, junk_device) \<Rightarrow>
        netfs_call sock (packet PS2NETFS_COMMAND_UMOUNT (junk_flags @ string_field junk_device device)))"

definition ps2netfs_command_devlist ::
  "int \<Rightarrow> byte list \<Rightarrow> byte list option \<Rightarrow> u32 \<Rightarrow> (net, int \<times> byte list option) state" where
  "ps2netfs_command_devlist sock junk pathname flags = do {
     response \<leftarrow> netfs_exchange sock (packet PS2NETFS_COMMAND_DEVLIST
       (be32 flags @ string_field junk pathname)) 270;
     ret (case response of None \<Rightarrow> (-1, None)
          | Some p \<Rightarrow> (sint (pkt_word p 6), Some (take 256 (drop 14 p)))) }"

section \<open>The exchange as a contract\<close>

text \<open>
  A client of a byte stream that sends a packet and waits for a reply of known size. The laws of the
  stream give the laws of the exchange, once for all commands.
\<close>

locale rpc_client = byte_stream +
  fixes exchange :: "'c \<Rightarrow> byte list \<Rightarrow> nat \<Rightarrow> ('n, byte list option) state"
  assumes exchange_is: "exchange c pkt k = do {
     r \<leftarrow> send c pkt (int (length pkt));
     if r < 0 then ret None else do {
     (r, reply) \<leftarrow> recv c (int k);
     ret (if r < 0 then None else Some reply) } }"
begin

lemma exchange_answered:
  assumes "writable n c" and "k \<le> length (inbox n c)"
  obtains n' where "run_state (exchange c pkt k) n = (Some (take k (inbox n c)), n')"
    and "inbox n' c = drop k (inbox n c)" and "outbox n' = (outbox n)(c := outbox n c @ pkt)"
    and "writable n' = writable n" and "\<forall>d. d \<noteq> c \<longrightarrow> inbox n' d = inbox n d"
  using exchange_reply [OF assms, of pkt] that unfolding exchange_is by blast

lemma exchange_cases:
  obtains r p n' where "run_state (exchange c pkt k) n = (r, n')"
    and "prefix p pkt" and "outbox n' = (outbox n)(c := outbox n c @ p)"
    and "case r of None \<Rightarrow> strict_prefix p pkt \<or> length (inbox n c) < k
      | Some reply \<Rightarrow> p = pkt \<and> k \<le> length (inbox n c) \<and> reply = take k (inbox n c)
          \<and> inbox n' c = drop k (inbox n c)"
  using exchange_any [of c pkt k n] that unfolding exchange_is by blast

end

interpretation netfs: rpc_client network_send network_receive_all net_inbox net_outbox net_writable
    netfs_exchange
  by unfold_locales (simp add: netfs_exchange_def)

lemma netfs_call_answered:
  assumes "net_writable n sock" and "10 \<le> length (net_inbox n sock)"
  obtains n' where "run_state (netfs_call sock pkt) n = (sint (pkt_word (net_inbox n sock) 6), n')"
    and "net_inbox n' sock = drop 10 (net_inbox n sock)"
    and "net_outbox n' = (net_outbox n)(sock := net_outbox n sock @ pkt)"
    and "net_writable n' = net_writable n"
proof -
  have "pkt_word (take 10 (net_inbox n sock)) 6 = pkt_word (net_inbox n sock) 6"
    by (simp add: pkt_word_def drop_take)
  then show thesis
    using netfs.exchange_answered [OF assms, of pkt] that by (fastforce simp: netfs_call_def)
qed

lemma netfs_call_cases:
  obtains r p n' where "run_state (netfs_call sock pkt) n = (r, n')"
    and "net_outbox n' = (net_outbox n)(sock := net_outbox n sock @ p)"
    and "p = pkt \<and> 10 \<le> length (net_inbox n sock) \<and> r = sint (pkt_word (net_inbox n sock) 6)
           \<and> net_inbox n' sock = drop 10 (net_inbox n sock)
         \<or> r = -1 \<and> prefix p pkt \<and> (strict_prefix p pkt \<or> length (net_inbox n sock) < 10)"
proof -
  obtain r p n' where e: "run_state (netfs_exchange sock pkt 10) n = (r, n')" "prefix p pkt"
    "net_outbox n' = (net_outbox n)(sock := net_outbox n sock @ p)"
    "case r of None \<Rightarrow> strict_prefix p pkt \<or> length (net_inbox n sock) < 10
      | Some reply \<Rightarrow> p = pkt \<and> 10 \<le> length (net_inbox n sock) \<and> reply = take 10 (net_inbox n sock)
          \<and> net_inbox n' sock = drop 10 (net_inbox n sock)"
    using netfs.exchange_cases .
  have w: "pkt_word (take 10 (net_inbox n sock)) 6 = pkt_word (net_inbox n sock) 6"
    by (simp add: pkt_word_def drop_take)
  show thesis
  proof (cases r)
    case None
    with e that [of "-1" n' p] show thesis by (auto simp: netfs_call_def)
  next
    case (Some reply)
    with e w that [of "sint (pkt_word (net_inbox n sock) 6)" n' p] show thesis
      by (auto simp: netfs_call_def)
  qed
qed

lemma netfs_read_stores:
  "case run_state (ps2netfs_command_read sock fd sz) n of ((r, buffer), n') \<Rightarrow>
     length buffer \<le> nat sz \<and> r \<le> max (-1) sz \<and> (r < 0 \<or> length buffer = nat r)"
proof -
  have recv: "case run_state (network_receive_all sock (int k)) m of ((r, got), m') \<Rightarrow>
      length got \<le> k \<and> (r < 0 \<or> r = int k \<and> length got = k)" for k m
    using tcp.recv_enough [of k m sock] tcp.recv_short [of m sock k]
    by (cases "k \<le> length (net_inbox m sock)") auto
  have recv': "case run_state (network_receive_all sock v) m of ((r, got), m') \<Rightarrow>
      length got \<le> nat v \<and> (r < 0 \<or> r = v \<and> length got = nat v)" if "0 \<le> v" for v m
    using recv [of "nat v" m] that by simp
  show ?thesis
  proof (cases "sz < 0")
    case True
    then show ?thesis by (simp add: ps2netfs_command_read_def)
  next
    case False
    obtain resp n1 where x: "run_state (netfs_exchange sock (packet PS2NETFS_COMMAND_READ
        (be32 (word_of_int fd) @ be32 (word_of_int sz))) 14) n = (resp, n1)" by force
    show ?thesis
    proof (cases resp)
      case None
      with x False show ?thesis by (simp add: ps2netfs_command_read_def)
    next
      case (Some p)
      let ?v = "sint (pkt_word p 6)"
      show ?thesis
      proof (cases "?v < 0 \<or> sz < ?v")
        case True
        with x False Some show ?thesis by (auto simp: ps2netfs_command_read_def Let_def)
      next
        case b: False
        with recv' [of ?v n1] x False Some show ?thesis
          by (fastforce simp: ps2netfs_command_read_def Let_def split: prod.splits)
      qed
    qed
  qed
qed

text \<open>A write that was acknowledged went out as a whole: the header with the count, then the data.\<close>

definition write_request :: "int \<Rightarrow> byte list \<Rightarrow> byte list" where
  "write_request fd data = packet PS2NETFS_COMMAND_WRITE
     (be32 (word_of_int fd) @ be32 (word_of_int (int (length data)))) @ data"

lemma netfs_write_acknowledged:
  assumes "run_state (ps2netfs_command_write sock fd data (int (length data))) n = (r, n')" and "r \<noteq> -1"
  shows "net_outbox n' = (net_outbox n)(sock := net_outbox n sock @ write_request fd data)"
    and "\<exists>h. net_inbox n sock = h @ net_inbox n' sock \<and> length h = 10 \<and> sint (pkt_word h 6) = r"
proof -
  define hdr where "hdr = packet PS2NETFS_COMMAND_WRITE
    (be32 (word_of_int fd) @ be32 (word_of_int (int (length data))))"
  obtain r1 p1 n1 where 1: "run_state (network_send sock hdr (int (length hdr))) n = (r1, n1)"
    "net_outbox n1 = (net_outbox n)(sock := net_outbox n sock @ p1)" "net_inbox n1 = net_inbox n"
    "r1 = int (length hdr) \<and> p1 = hdr \<or> r1 = -1 \<and> strict_prefix p1 hdr"
    using tcp.send_prefix [of sock hdr n] by auto
  obtain r2 p2 n2 where 2: "run_state (network_send sock data (int (length data))) n1 = (r2, n2)"
    "net_outbox n2 = (net_outbox n1)(sock := net_outbox n1 sock @ p2)" "net_inbox n2 = net_inbox n1"
    "r2 = int (length data) \<and> p2 = data \<or> r2 = -1 \<and> strict_prefix p2 data"
    using tcp.send_prefix [of sock data n1] by auto
  have sent: "\<not> r1 < 0" "\<not> r2 < 0"
    using assms 1(1) [unfolded hdr_def] 2(1) by (auto simp: ps2netfs_command_write_def Let_def split: if_splits)
  have enough: "10 \<le> length (net_inbox n2 sock)"
  proof (rule ccontr)
    assume "\<not> 10 \<le> length (net_inbox n2 sock)"
    then show False
      using tcp.recv_short [of n2 sock 10] assms 1(1) [unfolded hdr_def] 2(1) sent
      by (auto simp: ps2netfs_command_write_def Let_def)
  qed
  then obtain n3 where 3: "run_state (network_receive_all sock 10) n2 = ((10, take 10 (net_inbox n2 sock)), n3)"
    "net_outbox n3 = net_outbox n2" "net_inbox n3 sock = drop 10 (net_inbox n2 sock)"
    using tcp.recv_enough [of 10 n2 sock] by auto
  have r: "n' = n3" "r = sint (pkt_word (take 10 (net_inbox n2 sock)) 6)"
    using assms(1) 1(1) [unfolded hdr_def] 2(1) 3(1) sent by (auto simp: ps2netfs_command_write_def Let_def)
  show "net_outbox n' = (net_outbox n)(sock := net_outbox n sock @ write_request fd data)"
    using 1(2,4) 2(2,4) 3(2) sent r(1) by (auto simp: write_request_def hdr_def)
  show "\<exists>h. net_inbox n sock = h @ net_inbox n' sock \<and> length h = 10 \<and> sint (pkt_word h 6) = r"
    using 1(3) 2(3) 3(3) enough r by (intro exI [of _ "take 10 (net_inbox n2 sock)"]) simp
qed

section \<open>Properties\<close>

text \<open>(C29) The commands with a plain result (open, close, lseek, delete, mkdir, rmdir, dopen, dclose,
  sync, mount, umount): either the whole packet goes out and the next ten bytes of the connection come in,
  and then the result is what is, as a signed 32 bit number, in the last four of them, and exactly those
  ten bytes are consumed, whatever number and length the other six announce; or the command returns \<open>-1\<close>,
  and then the packet went out only in part or fewer than ten bytes are left.\<close>

theorem netfs_call_spec:
  "\<exists>r p n'. run_state (netfs_call sock pkt) n = (r, n')
    \<and> net_outbox n' = (net_outbox n)(sock := net_outbox n sock @ p)
    \<and> (p = pkt \<and> 10 \<le> length (net_inbox n sock) \<and> r = sint (pkt_word (net_inbox n sock) 6)
          \<and> net_inbox n' sock = drop 10 (net_inbox n sock)
        \<or> r = -1 \<and> prefix p pkt \<and> (strict_prefix p pkt \<or> length (net_inbox n sock) < 10))"
  by (rule netfs_call_cases) blast

text \<open>(C31) No reply of the server makes \<open>ps2netfs_command_read\<close> write past the buffer of its caller:
  it stores at most the requested number of bytes, its result never exceeds that number, and a
  result that is not negative is the number of bytes stored.\<close>

theorem netfs_read_in_bounds:
  "case run_state (ps2netfs_command_read sock fd sz) n of ((r, buffer), n') \<Rightarrow>
     length buffer \<le> nat sz \<and> r \<le> max (-1) sz \<and> (r < 0 \<or> length buffer = nat r)"
  by (rule netfs_read_stores)

text \<open>(C30) With a connection that takes the data and a server that answers, \<open>ps2netfs_command_write\<close>
  puts the header and then the data on the wire, nothing else, and returns the result field of the
  reply. The header announces exactly the number of data bytes that follow.\<close>

theorem netfs_write_spec:
  assumes "net_writable n sock" and "10 \<le> length (net_inbox n sock)"
  shows "\<exists>n' hdr. run_state (ps2netfs_command_write sock fd data (int (length data))) n
      = (sint (pkt_word (net_inbox n sock) 6), n')
    \<and> net_outbox n' = (net_outbox n)(sock := net_outbox n sock @ hdr @ data)
    \<and> net_inbox n' sock = drop 10 (net_inbox n sock) \<and> net_writable n' = net_writable n
    \<and> length hdr = 14 \<and> pkt_number hdr = PS2NETFS_COMMAND_WRITE
    \<and> pkt_word hdr 6 = word_of_int fd \<and> pkt_word hdr 10 = word_of_nat (length data)"
proof -
  define hdr where "hdr = packet PS2NETFS_COMMAND_WRITE
    (be32 (word_of_int fd) @ be32 (word_of_int (int (length data))))"
  obtain n1 where 1: "run_state (network_send sock hdr (int (length hdr))) n = (int (length hdr), n1)"
    "net_outbox n1 = (net_outbox n)(sock := net_outbox n sock @ hdr)" "net_inbox n1 = net_inbox n"
    "net_writable n1 = net_writable n"
    using tcp.send_all [OF assms(1)] by blast
  then obtain n2 where 2: "run_state (network_send sock data (int (length data))) n1 = (int (length data), n2)"
    "net_outbox n2 = (net_outbox n1)(sock := net_outbox n1 sock @ data)" "net_inbox n2 = net_inbox n1"
    "net_writable n2 = net_writable n1"
    using tcp.send_all [of n1 sock data] assms(1) by auto
  obtain n3 where 3: "run_state (network_receive_all sock (int 10)) n2
      = ((int 10, take 10 (net_inbox n2 sock)), n3)"
    "net_inbox n3 sock = drop 10 (net_inbox n2 sock)" "net_outbox n3 = net_outbox n2"
    "net_writable n3 = net_writable n2"
    using tcp.recv_enough [of 10 n2 sock] assms(2) 1 2 by auto
  have "run_state (ps2netfs_command_write sock fd data (int (length data))) n
      = (sint (pkt_word (net_inbox n sock) 6), n3)"
    using 1 2 3 by (simp add: ps2netfs_command_write_def Let_def hdr_def pkt_word_def drop_take)
  with 1 2 3 show ?thesis
    by (intro exI [of _ n3] exI [of _ hdr]) (simp add: hdr_def pkt_word_def)
qed

theorem netfs_write_spec_witness:
  "\<exists>n'. run_state (ps2netfs_command_write 4 2 [9, 8, 7] (int (length [9, 8, 7 :: byte])))
       (\<lambda>_. \<lparr>rx = [Rx_Data [0, 0], Rx_Eintr, Rx_Data [0, 0, 0, 0, 0, 0, 0, 3]], tx = [], tx_plan = [Tx_Accept 1]\<rparr>)
     = (3, n')"
proof -
  let ?n = "\<lambda>_::int. \<lparr>rx = [Rx_Data [0, 0], Rx_Eintr, Rx_Data [0, 0, 0, 0, 0, 0, 0, 3]], tx = [],
    tx_plan = [Tx_Accept 1]\<rparr>"
  have "net_writable ?n 4" "10 \<le> length (net_inbox ?n 4)" by (simp_all add: net_views)
  from netfs_write_spec [OF this, of 2 "[9, 8, 7]"] obtain n' where
    "run_state (ps2netfs_command_write 4 2 [9, 8, 7] (int (length [9, 8, 7 :: byte]))) ?n
      = (sint (pkt_word (net_inbox ?n 4) 6), n')" by blast
  moreover have "sint (pkt_word (net_inbox ?n 4) 6) = 3"
    by (simp add: net_inbox_def pkt_word_def htonl_def load32_def store32_def)
  ultimately show ?thesis by metis
qed

end
