(* ===== verification/Fsclient.thy ===== *)
theory Fsclient
  imports Netfs Posix
begin

text \<open>
  \<^verbatim>\<open>src/fsclient.c\<close>: the program that copies files to and from the PS2 and lists and changes its
  directories over the ps2netfs protocol. The state holds the connection, the host, what the
  listings print, and whether the program read outside of an object. Progress and error messages are
  not modelled.
\<close>

record 'f fsc =
  fc_net :: net
  fc_fs :: 'f
  fc_out :: "byte list"
  fc_fault :: bool

definition OPEN_READ :: u32 where "OPEN_READ = 1"
definition OPEN_WRITE :: u32 where "OPEN_WRITE = 2"
definition OPEN_CREATE :: u32 where "OPEN_CREATE = 0x200"
definition OPEN_TRUNCATE :: u32 where "OPEN_TRUNCATE = 0x400"
definition LSEEK_SET :: int where "LSEEK_SET = 0"
definition LSEEK_END :: int where "LSEEK_END = 2"
definition MOUNT_READWRITE :: u32 where "MOUNT_READWRITE = 0"
definition SEEK_SET :: int where "SEEK_SET = 0"
definition SEEK_END :: int where "SEEK_END = 2"

definition fc_net_do :: "(net, 'a) state \<Rightarrow> ('f fsc, 'a) state" where
  "fc_net_do m = State (\<lambda>s. case run_state m (fc_net s) of (a, n) \<Rightarrow> (a, s\<lparr>fc_net := n\<rparr>))"

definition fc_fs_do :: "('f \<Rightarrow> 'a \<times> 'f) \<Rightarrow> ('f fsc, 'a) state" where
  "fc_fs_do g = State (\<lambda>s. case g (fc_fs s) of (a, f) \<Rightarrow> (a, s\<lparr>fc_fs := f\<rparr>))"

definition fc_print :: "byte list \<Rightarrow> ('f fsc, unit) state" where
  "fc_print bs = modify (\<lambda>s. s\<lparr>fc_out := fc_out s @ bs\<rparr>)"

definition fc_fail :: "('f fsc, int) state" where
  "fc_fail = State (\<lambda>s. (-1, s\<lparr>fc_fault := True\<rparr>))"

section \<open>Copying from the PS2\<close>

text \<open>\<open>while (sent < bytes)\<close> of \<open>fsclient_copyfrom\<close>: \<open>buf\<close> is what is left from \<open>buffer + sent\<close> on.\<close>

function write_loop :: "'f posix \<Rightarrow> int \<Rightarrow> byte list \<Rightarrow> 'f \<Rightarrow> bool \<times> 'f" where
  "write_loop P fd buf f =
     (if buf = [] then (True, f)
      else case sys_write P fd buf f of (written, f') \<Rightarrow>
        if written \<le> 0 then (False, f') else write_loop P fd (drop (nat written) buf) f')"
  by pat_completeness auto
termination
  by (relation "measure (\<lambda>(P, fd, buf, f). length buf)") auto

declare write_loop.simps [simp del]

text \<open>\<open>while (total < size)\<close>: \<open>True\<close> when the loop ends, \<open>False\<close> for the jump to \<open>done\<close>.\<close>

function copyfrom_loop :: "'f posix \<Rightarrow> int \<Rightarrow> int \<Rightarrow> int \<Rightarrow> int \<Rightarrow> int \<Rightarrow> net \<Rightarrow> 'f \<Rightarrow> bool \<times> net \<times> 'f" where
  "copyfrom_loop P sock fd0 fd1 sz tot n f =
     (if sz \<le> tot then (True, n, f)
      else let count = (if sz - tot < 28000 then sz - tot else 28000) in
        case run_state (ps2netfs_command_read sock fd0 count) n of ((bytes, buffer), n') \<Rightarrow>
          if bytes \<le> 0 \<or> count < bytes then (False, n', f)
          else case write_loop P fd1 (take (nat bytes) buffer) f of (ok, f') \<Rightarrow>
            if ok then copyfrom_loop P sock fd0 fd1 sz (tot + bytes) n' f' else (False, n', f'))"
  by pat_completeness auto
termination
  by (relation "measure (\<lambda>(P, sock, fd0, fd1, sz, tot, n, f). nat (sz - tot))") auto

declare copyfrom_loop.simps [simp del]

text \<open>The part of \<open>fsclient_copyfrom\<close> up to the label: the status and the two descriptors.\<close>

definition copyfrom_body :: "'f posix \<Rightarrow> int \<Rightarrow> byte list \<Rightarrow> byte list \<Rightarrow> ('f fsc, int \<times> int \<times> int) state" where
  "copyfrom_body P sock source destination = do {
     fd0 \<leftarrow> fc_net_do (ps2netfs_command_open sock (Some source) OPEN_READ);
     if fd0 < 0 then ret (-1, fd0, -1)
     else do {
       sz \<leftarrow> fc_net_do (ps2netfs_command_lseek sock fd0 0 LSEEK_END);
       if sz < 0 then ret (-1, fd0, -1)
       else do {
         r \<leftarrow> fc_net_do (ps2netfs_command_lseek sock fd0 0 LSEEK_SET);
         if r < 0 then ret (-1, fd0, -1)
         else do {
           fd1 \<leftarrow> fc_fs_do (p_open P destination (O_WRONLY OR O_CREAT OR O_TRUNC) 420);
           if fd1 < 0 then ret (-1, fd0, fd1)
           else do {
             ok \<leftarrow> State (\<lambda>s. case copyfrom_loop P sock fd0 fd1 sz 0 (fc_net s) (fc_fs s) of
                       (ok, n, f) \<Rightarrow> (ok, s\<lparr>fc_net := n, fc_fs := f\<rparr>));
             ret (if ok then 0 else -1, fd0, fd1) } } } } }"

definition fsclient_copyfrom :: "'f posix \<Rightarrow> int \<Rightarrow> byte list \<Rightarrow> byte list \<Rightarrow> ('f fsc, int) state" where
  "fsclient_copyfrom P sock source destination = do {
     (status, fd0, fd1) \<leftarrow> copyfrom_body P sock source destination;
     status \<leftarrow> (if 0 \<le> fd0 then do {
                   r \<leftarrow> fc_net_do (ps2netfs_command_close sock fd0);
                   ret (if r < 0 then -1 else status) } else ret status);
     (if 0 \<le> fd1 then do {
        r \<leftarrow> fc_fs_do (p_close P fd1);
        ret (if r < 0 then -1 else status) } else ret status) }"

section \<open>Copying to the PS2\<close>

text \<open>\<open>while (sent < bytes)\<close> of \<open>fsclient_copyto\<close>.\<close>

function remote_write_loop :: "int \<Rightarrow> int \<Rightarrow> byte list \<Rightarrow> net \<Rightarrow> bool \<times> net" where
  "remote_write_loop sock fd buf n =
     (if buf = [] then (True, n)
      else case run_state (ps2netfs_command_write sock fd buf (int (length buf))) n of (written, n') \<Rightarrow>
        if written \<le> 0 \<or> int (length buf) < written then (False, n')
        else remote_write_loop sock fd (drop (nat written) buf) n')"
  by pat_completeness auto
termination
  by (relation "measure (\<lambda>(sock, fd, buf, n). length buf)") auto

declare remote_write_loop.simps [simp del]

function copyto_loop :: "'f posix \<Rightarrow> int \<Rightarrow> int \<Rightarrow> int \<Rightarrow> int \<Rightarrow> int \<Rightarrow> net \<Rightarrow> 'f \<Rightarrow> bool \<times> net \<times> 'f" where
  "copyto_loop P sock fd0 fd1 sz tot n f =
     (if sz \<le> tot then (True, n, f)
      else let count = (if sz - tot < 28000 then sz - tot else 28000) in
        case sys_read P fd0 (nat count) f of ((bytes, buffer), f') \<Rightarrow>
          if bytes \<le> 0 then (False, n, f')
          else case remote_write_loop sock fd1 buffer n of (ok, n') \<Rightarrow>
            if ok then copyto_loop P sock fd0 fd1 sz (tot + bytes) n' f' else (False, n', f'))"
  by pat_completeness auto
termination
  by (relation "measure (\<lambda>(P, sock, fd0, fd1, sz, tot, n, f). nat (sz - tot))") auto

declare copyto_loop.simps [simp del]

text \<open>\<open>size\<close> is an \<open>int\<close> that takes the 64 bit result of \<open>lseek\<close>.\<close>

definition copyto_body :: "'f posix \<Rightarrow> int \<Rightarrow> byte list \<Rightarrow> byte list \<Rightarrow> ('f fsc, int \<times> int \<times> int) state" where
  "copyto_body P sock source destination = do {
     fd0 \<leftarrow> fc_fs_do (p_open P source O_RDONLY 0);
     if fd0 < 0 then ret (-1, fd0, -1)
     else do {
       sz \<leftarrow> fc_fs_do (p_lseek P fd0 0 SEEK_END);
       if c_int sz < 0 then ret (-1, fd0, -1)
       else do {
         r \<leftarrow> fc_fs_do (p_lseek P fd0 0 SEEK_SET);
         if r < 0 then ret (-1, fd0, -1)
         else do {
           fd1 \<leftarrow> fc_net_do (ps2netfs_command_open sock (Some destination) (OPEN_WRITE OR OPEN_CREATE OR OPEN_TRUNCATE));
           if fd1 < 0 then ret (-1, fd0, fd1)
           else do {
             ok \<leftarrow> State (\<lambda>s. case copyto_loop P sock fd0 fd1 (c_int sz) 0 (fc_net s) (fc_fs s) of
                       (ok, n, f) \<Rightarrow> (ok, s\<lparr>fc_net := n, fc_fs := f\<rparr>));
             ret (if ok then 0 else -1, fd0, fd1) } } } } }"

definition fsclient_copyto :: "'f posix \<Rightarrow> int \<Rightarrow> byte list \<Rightarrow> byte list \<Rightarrow> ('f fsc, int) state" where
  "fsclient_copyto P sock source destination = do {
     (status, fd0, fd1) \<leftarrow> copyto_body P sock source destination;
     status \<leftarrow> (if 0 \<le> fd0 then do {
                   r \<leftarrow> fc_fs_do (p_close P fd0);
                   ret (if r < 0 then -1 else status) } else ret status);
     (if 0 \<le> fd1 then do {
        r \<leftarrow> fc_net_do (ps2netfs_command_close sock fd1);
        ret (if r < 0 then -1 else status) } else ret status) }"

section \<open>Commands on names\<close>

text \<open>A negative result of the server is the exit status \<open>-1\<close>, any other \<open>0\<close>.\<close>

definition status_of :: "(net, int) state \<Rightarrow> ('f fsc, int) state" where
  "status_of m = do { result \<leftarrow> fc_net_do m; ret (if result < 0 then -1 else 0) }"

definition fsclient_delete :: "int \<Rightarrow> byte list \<Rightarrow> byte list option \<Rightarrow> ('f fsc, int) state" where
  "fsclient_delete sock junk pathname = status_of (ps2netfs_command_delete sock junk pathname 0)"

definition fsclient_mkdir :: "int \<Rightarrow> byte list \<Rightarrow> byte list option \<Rightarrow> ('f fsc, int) state" where
  "fsclient_mkdir sock junk pathname = status_of (ps2netfs_command_mkdir sock junk pathname 0)"

definition fsclient_rmdir :: "int \<Rightarrow> byte list \<Rightarrow> byte list option \<Rightarrow> ('f fsc, int) state" where
  "fsclient_rmdir sock junk pathname = status_of (ps2netfs_command_rmdir sock junk pathname 0)"

definition fsclient_sync :: "int \<Rightarrow> byte list \<Rightarrow> byte list option \<Rightarrow> ('f fsc, int) state" where
  "fsclient_sync sock junk device = status_of (ps2netfs_command_sync sock junk device 0)"

definition fsclient_umount :: "int \<Rightarrow> byte list \<times> byte list \<Rightarrow> byte list option \<Rightarrow> ('f fsc, int) state" where
  "fsclient_umount sock junk device = status_of (ps2netfs_command_umount sock junk device 0)"

definition fsclient_mount ::
  "int \<Rightarrow> byte list \<times> byte list \<times> byte list \<Rightarrow> byte list option \<Rightarrow> byte list option \<Rightarrow> ('f fsc, int) state" where
  "fsclient_mount sock junk device fsname =
     status_of (ps2netfs_command_mount sock junk device fsname MOUNT_READWRITE (Some []) 0)"

section \<open>Listings\<close>

text \<open>\<open>%d\<close>, \<open>%10d\<close>, \<open>%02d\<close> and \<open>%04d\<close>.\<close>

definition fmt_d :: "int \<Rightarrow> byte list" where
  "fmt_d x = (if x < 0 then lit ''-'' @ decimal (nat (- x)) else decimal (nat x))"

definition fmt_width :: "nat \<Rightarrow> int \<Rightarrow> byte list" where
  "fmt_width w x = replicate (w - length (fmt_d x)) 32 @ fmt_d x"

definition fmt_zero :: "nat \<Rightarrow> int \<Rightarrow> byte list" where
  "fmt_zero w x = (let ds = decimal (nat (abs x)); sgn = (if x < 0 then lit ''-'' else [])
     in sgn @ replicate (w - length sgn - length ds) 48 @ ds)"

text \<open>The names in the device list: \<open>None\<close> when the walk leaves the 256 bytes of the buffer.\<close>

fun devlist_walk :: "nat \<Rightarrow> byte list \<Rightarrow> byte list list option" where
  "devlist_walk 0 temp = Some []"
| "devlist_walk (Suc k) temp =
     (if 0 \<notin> set temp then None
      else map_option ((#) (cstr temp)) (devlist_walk k (drop (length (cstr temp) + 1) temp)))"

definition device_line :: "byte list \<Rightarrow> byte list" where
  "device_line name =
     (if name = lit ''rom'' then lit ''  rom    - Onboard rom device.''
      else if name = lit ''cdrom'' then lit ''  cdrom  - Standard cd/dvd device. (cdrom:)''
      else if name = lit ''host'' then lit ''  host   - Host file system. (host:)''
      else if name = lit ''mc'' then lit ''  mc     - Memory card driver. (mc0: mc1:)''
      else if name = lit ''hdd'' then lit ''  hdd    - Internal HDD unit.''
      else if name = lit ''pfs'' then lit ''  pfs    - Playstation File System.''
      else if name = lit ''dev9x'' then lit ''  dev9x  - Blah blah blah.''
      else lit ''  '' @ name) @ [10]"

definition fsclient_devlist :: "int \<Rightarrow> byte list \<Rightarrow> ('f fsc, int) state" where
  "fsclient_devlist sock junk = do {
     (devcount, devlist) \<leftarrow> fc_net_do (ps2netfs_command_devlist sock junk (Some []) 0);
     if devcount < 0 then ret (-1)
     else case devlist of None \<Rightarrow> fc_fail
     | Some area \<Rightarrow>
         (case devlist_walk (nat devcount) area of None \<Rightarrow> fc_fail
          | Some names \<Rightarrow> do {
              _ \<leftarrow> fc_print ([10] @ lit '' [Active Devices]'' @ [10, 10] @ concat (map device_line names)
                @ [10] @ lit '' ['' @ fmt_d devcount @ lit '' Devices Found]'' @ [10, 10]);
              ret 0 }) }"

text \<open>
  The fields of a \<open>DIRENT\<close>: mode, attr, size, three times of eight bytes, hisize, name. A \<open>char\<close> is signed.
\<close>

definition dirent_mode :: "byte list \<Rightarrow> u32" where "dirent_mode d = ntohl (load32 d)"
definition dirent_size :: "byte list \<Rightarrow> u32" where "dirent_size d = ntohl (load32 (drop 8 d))"
definition dirent_mtime :: "byte list \<Rightarrow> nat \<Rightarrow> int" where "dirent_mtime d i = sint (d ! (28 + i))"
definition dirent_name :: "byte list \<Rightarrow> byte list" where "dirent_name d = drop 40 d"

definition mode_letters :: "u32 \<Rightarrow> byte list" where
  "mode_letters m =
     (let bit_letter = (\<lambda>b c. if m AND b \<noteq> 0 then lit c else lit ''-'') in
      (if m AND 0x4000 \<noteq> 0 then lit ''l'' else if m AND 0x2000 \<noteq> 0 then lit ''-''
       else if m AND 0x1000 \<noteq> 0 then lit ''d'' else lit ''-'')
      @ bit_letter 0x100 ''r'' @ bit_letter 0x80 ''w'' @ bit_letter 0x40 ''x''
      @ bit_letter 0x20 ''r'' @ bit_letter 0x10 ''w'' @ bit_letter 0x08 ''x''
      @ bit_letter 0x04 ''r'' @ bit_letter 0x02 ''w'' @ bit_letter 0x01 ''x'')"

definition dir_line :: "byte list \<Rightarrow> byte list" where
  "dir_line d = lit ''  '' @ mode_letters (dirent_mode d) @ lit '' '' @ fmt_width 10 (sint (dirent_size d))
     @ lit '' '' @ fmt_zero 2 (dirent_mtime d 5) @ lit ''-'' @ fmt_zero 2 (dirent_mtime d 4)
     @ lit ''-'' @ fmt_zero 4 (2048 + dirent_mtime d 6)
     @ lit '' '' @ fmt_zero 2 (dirent_mtime d 3) @ lit '':'' @ fmt_zero 2 (dirent_mtime d 2)
     @ lit '':'' @ fmt_zero 2 (dirent_mtime d 1) @ lit '' '' @ cstr (dirent_name d) @ [10]"

text \<open>A \<open>dread\<close> that returns an entry has received something, so less is left to come in.\<close>

lemma dread_weight:
  assumes "run_state (ps2netfs_command_dread sock dd) n = ((r, Some d), n')"
  shows "net_weight n' sock < net_weight n sock"
proof -
  obtain r1 n1 where s: "run_state (network_send sock (packet PS2NETFS_COMMAND_DREAD (be32 (word_of_int dd)))
      (int (length (packet PS2NETFS_COMMAND_DREAD (be32 (word_of_int dd)))))) n = (r1, n1)" by force
  obtain r2 got n2 where v: "run_state (network_receive_all sock (int (10 + sizeof_DIRENT))) n1 = ((r2, got), n2)"
    by (metis surj_pair)
  from assms s v have "0 \<le> r2" "n' = n2"
    by (auto simp: ps2netfs_command_dread_def netfs_exchange_def split: if_splits option.splits)
  with network_send_weight [OF s] network_receive_all_weight(2) [OF v] show ?thesis by simp
qed

text \<open>
  \<open>while (ps2netfs_command_dread (dd, &dirent) > 0)\<close>: the counters, the output, and whether a name ran out
  of its field.
\<close>

function dir_loop :: "int \<Rightarrow> int \<Rightarrow> int \<Rightarrow> int \<Rightarrow> byte list \<Rightarrow> bool \<Rightarrow> net \<Rightarrow> (int \<times> int \<times> byte list \<times> bool) \<times> net" where
  "dir_loop sock dd files sz out bad n =
     (case run_state (ps2netfs_command_dread sock dd) n of
        ((r, Some d), n') \<Rightarrow>
          if 0 < r then dir_loop sock dd (files + 1) (c_int (sz + uint (dirent_size d))) (out @ dir_line d)
                          (bad \<or> 0 \<notin> set (dirent_name d)) n'
          else ((files, sz, out, bad), n')
      | ((r, None), n') \<Rightarrow> ((files, sz, out, bad), n'))"
  by pat_completeness auto
termination
  by (relation "measure (\<lambda>(sock, dd, files, sz, out, bad, n). net_weight n sock)")
     (auto dest: dread_weight [OF sym])

declare dir_loop.simps [simp del]

definition fsclient_dir :: "int \<Rightarrow> byte list \<Rightarrow> byte list option \<Rightarrow> ('f fsc, int) state" where
  "fsclient_dir sock junk pathname = do {
     dd \<leftarrow> fc_net_do (ps2netfs_command_dopen sock junk pathname 0);
     if dd < 0 then ret (-1)
     else do {
       _ \<leftarrow> fc_print ([10] @ lit '' [Contents of ''
         @ (case pathname of None \<Rightarrow> lit ''(null)'' | Some p \<Rightarrow> p) @ lit '']'' @ [10, 10]);
       (files, sz, out, bad) \<leftarrow> fc_net_do (State (dir_loop sock dd 0 0 [] False));
       _ \<leftarrow> modify (\<lambda>s. s\<lparr>fc_fault := fc_fault s \<or> bad\<rparr>);
       _ \<leftarrow> fc_print (out @ [10] @ lit '' ['' @ fmt_d files @ lit '' Files - '' @ fmt_d sz @ lit '' Bytes]'' @ [10, 10]);
       result \<leftarrow> fc_net_do (ps2netfs_command_dclose sock dd);
       ret (if result < 0 then -1 else 0) } }"

section \<open>The command line\<close>

text \<open>The options: only the first two characters of \<open>-h\<close> are compared. \<open>Inl\<close> is the exit status.\<close>

fun fs_options :: "byte list list \<Rightarrow> byte list \<Rightarrow> int + byte list \<times> byte list list" where
  "fs_options [] host = Inr (host, [])"
| "fs_options (a # as) host =
     (if take 2 a = lit ''-h'' then
        (case as of [] \<Rightarrow> Inl (-1) | v # as' \<Rightarrow> fs_options as' (take 255 v))
      else Inr (host, a # as))"

fun fs_environment :: "byte list list \<Rightarrow> byte list \<Rightarrow> byte list" where
  "fs_environment [] host = host"
| "fs_environment (e # es) host =
     fs_environment es (if take 12 e = lit ''PS2HOSTNAME='' then take 255 (drop 12 e) else host)"

text \<open>Uninitialised stack bytes of the packets of one command.\<close>

record fs_junk =
  fj_name :: "byte list"
  fj_umount :: "byte list \<times> byte list"
  fj_mount :: "byte list \<times> byte list \<times> byte list"

text \<open>\<open>argv[i]\<close>: the null that ends the array is an argument too, what is beyond it is not.\<close>

definition argument :: "byte list list \<Rightarrow> nat \<Rightarrow> byte list option" where
  "argument argv i = (if i < length argv then Some (argv ! i) else None)"

definition fs_command :: "'f posix \<Rightarrow> fs_junk \<Rightarrow> int \<Rightarrow> byte list \<Rightarrow> byte list list \<Rightarrow> ('f fsc, int) state" where
  "fs_command P J sock name argv =
     (if name = lit ''copyfrom'' then fsclient_copyfrom P sock (argv ! 0) (argv ! 1)
      else if name = lit ''copyto'' then fsclient_copyto P sock (argv ! 0) (argv ! 1)
      else if name = lit ''delete'' then fsclient_delete sock (fj_name J) (argument argv 0)
      else if name = lit ''devlist'' then fsclient_devlist sock (fj_name J)
      else if name = lit ''dir'' then fsclient_dir sock (fj_name J) (argument argv 0)
      else if name = lit ''mkdir'' then fsclient_mkdir sock (fj_name J) (argument argv 0)
      else if name = lit ''mount'' then
        (if argv = [] then fc_fail else fsclient_mount sock (fj_mount J) (argument argv 0) (argument argv 1))
      else if name = lit ''rmdir'' then fsclient_rmdir sock (fj_name J) (argument argv 0)
      else if name = lit ''sync'' then fsclient_sync sock (fj_name J) (argument argv 0)
      else if name = lit ''umount'' then fsclient_umount sock (fj_umount J) (argument argv 0)
      else ret (-1))"

text \<open>
  \<open>main\<close>: \<open>network_startup\<close> makes the process ignore \<open>SIGPIPE\<close>, so that sending to a server that has gone
  fails and does not end the process; the connection is made with the answers \<open>ans host\<close> of the system for
  the chosen host. It is never closed, since every branch of the commands returns.
\<close>

definition fsclient_main ::
  "'f posix \<Rightarrow> fs_junk \<Rightarrow> (byte list \<Rightarrow> sock_answers) \<Rightarrow> byte list list \<Rightarrow> byte list list \<Rightarrow> ('f fsc, int) state" where
  "fsclient_main P J ans env args =
     (if args = [] then ret (-1)
      else case fs_options args (fs_environment env (lit ''192.168.0.10'')) of
        Inl status \<Rightarrow> ret status
      | Inr (host, []) \<Rightarrow> ret (-1)
      | Inr (host, name # argv) \<Rightarrow>
          if (name = lit ''copyfrom'' \<or> name = lit ''copyto'') \<and> length argv < 2 then ret (-1)
          else if fst network_startup < 0 then ret 1
          else (case ps2netfs_connect (ans host) of (r, sock) \<Rightarrow>
            if r < 0 then ret (-1) else fs_command P J sock name argv))"

end
