(* ===== verification/Fsclient_Copy.thy ===== *)
theory Fsclient_Copy
  imports Fsclient
begin

text \<open>
  The two copy commands of \<^verbatim>\<open>src/fsclient.c\<close>. Complete: with a server that serves the file and a host with
  room, the copy succeeds. Sound: a copy that reports success has moved exactly the file.
\<close>

section \<open>Copying is complete\<close>

text \<open>A reply of ten bytes with a given result.\<close>

definition replies :: "byte list \<Rightarrow> int \<Rightarrow> bool" where
  "replies h r \<longleftrightarrow> length h = 10 \<and> sint (pkt_word h 6) = r"

lemma run_fc [simp]:
  "run_state m (fc_net s) = (a, n) \<Longrightarrow> run_state (fc_net_do m) s = (a, s\<lparr>fc_net := n\<rparr>)"
  "g (fc_fs s) = (b, f) \<Longrightarrow> run_state (fc_fs_do g) s = (b, s\<lparr>fc_fs := f\<rparr>)"
  by (simp_all add: fc_net_do_def fc_fs_do_def)

text \<open>
  What is relied on of the host for a file open for writing, seen through \<open>content\<close>: \<open>write\<close> appends the
  bytes it reports and nothing else. A host with room for them writes at least one.
\<close>

definition appends :: "'f posix \<Rightarrow> int \<Rightarrow> ('f \<Rightarrow> byte list) \<Rightarrow> bool" where
  "appends P fd content \<longleftrightarrow> (\<forall>bs f. case sys_write P fd bs f of (w, f') \<Rightarrow> content f' = content f @ take (nat w) bs)"

definition has_room :: "'f posix \<Rightarrow> int \<Rightarrow> bool" where
  "has_room P fd \<longleftrightarrow> (\<forall>bs f. bs \<noteq> [] \<longrightarrow> 0 < fst (sys_write P fd bs f))"

lemma write_loop_spec:
  assumes "appends P fd content" and "write_loop P fd buf f = (ok, f')"
  shows "\<exists>p. prefix p buf \<and> content f' = content f @ p \<and> (ok \<longrightarrow> p = buf) \<and> (has_room P fd \<longrightarrow> ok)"
  using assms
proof (induction P fd buf f rule: write_loop.induct)
  case (1 P fd buf f)
  obtain w f1 where w: "sys_write P fd buf f = (w, f1)" by force
  with "1.prems"(1) have c: "content f1 = content f @ take (nat w) buf" 
    by (auto simp: appends_def dest!: spec [of _ buf] spec [of _ f])
  have r: "has_room P fd \<Longrightarrow> buf \<noteq> [] \<Longrightarrow> 0 < w" using w by (metis fst_conv has_room_def)
  consider "buf = []" | "buf \<noteq> []" "w \<le> 0" | "buf \<noteq> []" "0 < w" by linarith
  then show ?case
  proof cases
    case 3
    with "1.prems"(2) w have l: "write_loop P fd (drop (nat w) buf) f1 = (ok, f')"
      by (subst (asm) write_loop.simps) simp
    from "1.IH" [OF 3(1) w [symmetric] _ "1.prems"(1) this] 3(2) obtain p where
      "prefix p (drop (nat w) buf)" "content f' = content f1 @ p" "ok \<longrightarrow> p = drop (nat w) buf" "has_room P fd \<longrightarrow> ok"
      by auto
    then show ?thesis using c
      by (intro exI [of _ "take (nat w) buf @ p"]) (metis append.assoc append_take_drop_id same_prefix_prefix)
  next
    case 1
    with "1.prems"(2) show ?thesis by (simp add: write_loop.simps)
  next
    case 2
    with "1.prems"(2) w have "ok = False" "f' = f1" by (simp_all add: write_loop.simps)
    with c r 2 show ?thesis by (intro exI [of _ "[]"]) auto
  qed
qed

text \<open>One exchange of \<open>ps2netfs_command_read\<close>: the server announces as many bytes as it sends.\<close>

lemma netfs_read_answered:
  assumes "net_writable n sock" and "net_inbox n sock = h @ bs @ rest" and "length h = 14"
    and "sint (pkt_word h 6) = int (length bs)" and "int (length bs) \<le> sz"
  obtains n' where "run_state (ps2netfs_command_read sock fd sz) n = ((int (length bs), bs), n')"
    and "net_inbox n' sock = rest" and "net_writable n' = net_writable n"
proof -
  let ?pkt = "packet PS2NETFS_COMMAND_READ (be32 (word_of_int fd) @ be32 (word_of_int sz))"
  obtain n1 where 1: "run_state (netfs_exchange sock ?pkt 14) n = (Some h, n1)"
    "net_inbox n1 sock = bs @ rest" "net_writable n1 = net_writable n"
    using netfs.exchange_answered [OF assms(1), of 14 ?pkt] assms(2,3) by auto
  have "run_state (network_receive_all sock (int (length bs))) n1
      = ((int (length bs), bs), after_recv n1 sock (length bs))"
    using 1(2) by simp
  with 1 assms(4,5) that [of "after_recv n1 sock (length bs)"] show thesis
    by (simp add: ps2netfs_command_read_def Let_def)
qed

text \<open>
  A server that serves the rest of a file, \<open>k\<close> bytes, in pieces: each reply is a header that announces the
  piece and the piece, not empty and not more than was asked for.
\<close>

fun pieces_ok :: "nat \<Rightarrow> (byte list \<times> byte list) list \<Rightarrow> bool" where
  "pieces_ok k [] = (k = 0)"
| "pieces_ok k ((h, bs) # ps) = (length h = 14 \<and> sint (pkt_word h 6) = int (length bs) \<and> bs \<noteq> []
     \<and> length bs \<le> min k 28000 \<and> pieces_ok (k - length bs) ps)"

lemma copyfrom_loop_complete:
  assumes "appends P fd1 content" and "has_room P fd1"
  shows "pieces_ok (nat (sz - tot)) ps \<Longrightarrow> net_writable n sock \<Longrightarrow>
    net_inbox n sock = concat (map (\<lambda>(h, bs). h @ bs) ps) @ rest \<Longrightarrow> tot \<le> sz \<Longrightarrow>
    \<exists>n' f'. copyfrom_loop P sock fd0 fd1 sz tot n f = (True, n', f')
      \<and> content f' = content f @ concat (map snd ps) \<and> net_inbox n' sock = rest \<and> net_writable n' sock"
proof (induction ps arbitrary: tot n f)
  case Nil
  then show ?case by (subst copyfrom_loop.simps) simp
next
  case (Cons p ps)
  obtain h bs where p: "p = (h, bs)" by force
  let ?c = "if sz - tot < 28000 then sz - tot else 28000"
  have e: "nat (sz - (tot + int (length bs))) = nat (sz - tot) - length bs" by simp
  have ok: "length h = 14" "sint (pkt_word h 6) = int (length bs)" "bs \<noteq> []" "int (length bs) \<le> ?c"
    "pieces_ok (nat (sz - (tot + int (length bs)))) ps" "tot + int (length bs) \<le> sz"
    using Cons.prems(1,4) p unfolding e by auto
  obtain n1 where r: "run_state (ps2netfs_command_read sock fd0 ?c) n = ((int (length bs), bs), n1)"
    "net_inbox n1 sock = concat (map (\<lambda>(h, bs). h @ bs) ps) @ rest" "net_writable n1 = net_writable n"
    using netfs_read_answered [of n sock h bs _ ?c fd0] Cons.prems(2,3) p ok by auto
  obtain w f1 where w: "write_loop P fd1 bs f = (w, f1)" by force
  with write_loop_spec [OF assms(1) w] assms(2) have c: "w" "content f1 = content f @ bs" by auto
  obtain n' f' where "copyfrom_loop P sock fd0 fd1 sz (tot + int (length bs)) n1 f1 = (True, n', f')"
    "content f' = content f1 @ concat (map snd ps)" "net_inbox n' sock = rest" "net_writable n' sock"
    using Cons.IH [OF ok(5) _ r(2) ok(6)] Cons.prems(2) r(3) by metis
  moreover have "\<not> sz \<le> tot" using ok(3,6) by (cases bs) auto
  ultimately show ?case
    using r(1) w c ok p by (subst copyfrom_loop.simps) (simp add: Let_def)
qed

section \<open>A reported success is a success\<close>

text \<open>The parts of what a server sent that a call with a result, and a read with a result, took.\<close>

lemma netfs_call_taken:
  assumes "run_state (netfs_call sock pkt) n = (r, n')" and "r \<noteq> -1"
  shows "\<exists>h. net_inbox n sock = h @ net_inbox n' sock \<and> replies h r"
    and "net_outbox n' = (net_outbox n)(sock := net_outbox n sock @ pkt)"
proof -
  from assms have *: "10 \<le> length (net_inbox n sock)" "r = sint (pkt_word (net_inbox n sock) 6)"
      "net_inbox n' sock = drop 10 (net_inbox n sock)" "net_outbox n' = (net_outbox n)(sock := net_outbox n sock @ pkt)"
    by (rule_tac netfs_call_cases [of sock pkt n], auto)+
  then show "\<exists>h. net_inbox n sock = h @ net_inbox n' sock \<and> replies h r"
    by (intro exI [of _ "take 10 (net_inbox n sock)"]) (simp add: replies_def pkt_word_def drop_take)
  show "net_outbox n' = (net_outbox n)(sock := net_outbox n sock @ pkt)" by (fact *)
qed

lemma netfs_read_taken:
  assumes "run_state (ps2netfs_command_read sock fd sz) n = ((r, bs), n')" and "0 < r"
  shows "\<exists>h. net_inbox n sock = h @ bs @ net_inbox n' sock \<and> length h = 14 \<and> sint (pkt_word h 6) = r
    \<and> r = int (length bs) \<and> r \<le> sz"
proof -
  let ?pkt = "packet PS2NETFS_COMMAND_READ (be32 (word_of_int fd) @ be32 (word_of_int sz))"
  obtain x n1 where x: "run_state (netfs_exchange sock ?pkt 14) n = (x, n1)" by force
  then obtain h where h: "x = Some h" "14 \<le> length (net_inbox n sock)" "h = take 14 (net_inbox n sock)"
      "net_inbox n1 sock = drop 14 (net_inbox n sock)"
    using assms by (rule_tac netfs.exchange_cases [of sock ?pkt 14 n])
      (auto simp: ps2netfs_command_read_def split: if_splits option.splits)
  let ?v = "sint (pkt_word h 6)"
  have sz: "0 \<le> sz" "0 \<le> ?v" "?v \<le> sz"
    using assms x h(1) by (auto simp: ps2netfs_command_read_def Let_def split: if_splits)
  obtain q got where q: "run_state (network_receive_all sock ?v) n1 = ((q, got), n')" "bs = got" "r = ?v" "0 \<le> q"
    using assms x h(1) sz
    by (cases "run_state (network_receive_all sock ?v) n1") (auto simp: ps2netfs_command_read_def Let_def split: if_splits)
  have "nat ?v \<le> length (net_inbox n1 sock)"
    using tcp.recv_short [of n1 sock "nat ?v"] q(1,4) sz(2) by (cases "nat ?v \<le> length (net_inbox n1 sock)") auto
  then have g: "got = take (nat ?v) (net_inbox n1 sock)" "net_inbox n' sock = drop (nat ?v) (net_inbox n1 sock)"
    using tcp.recv_enough [of "nat ?v" n1 sock] q(1) sz(2) by auto
  have "net_inbox n sock = h @ got @ net_inbox n' sock"
    using h(3,4) g by (metis append_take_drop_id)
  then show ?thesis using \<open>nat ?v \<le> _\<close> g(1) q(2,3) h(2,3) sz by (intro exI [of _ h]) auto
qed

text \<open>
  Whatever the server and the host do, the loop of \<open>copyfrom\<close> ends well only if the server sent pieces of
  the announced size, and then these are what the file gets.
\<close>

lemma copyfrom_loop_sound:
  assumes "appends P fd1 content"
  shows "tot \<le> sz \<Longrightarrow> copyfrom_loop P sock fd0 fd1 sz tot n f = (True, n', f') \<Longrightarrow>
    \<exists>ps. pieces_ok (nat (sz - tot)) ps \<and> content f' = content f @ concat (map snd ps)
      \<and> net_inbox n sock = concat (map (\<lambda>(h, bs). h @ bs) ps) @ net_inbox n' sock"
proof (induction "nat (sz - tot)" arbitrary: tot n f rule: less_induct)
  case less
  let ?c = "if sz - tot < 28000 then sz - tot else 28000"
  show ?case
  proof (cases "sz \<le> tot")
    case True
    with less.prems show ?thesis
      by (intro exI [of _ "[]"]) (simp add: copyfrom_loop.simps)
  next
    case False
    obtain r bs n1 where r: "run_state (ps2netfs_command_read sock fd0 ?c) n = ((r, bs), n1)"
      by (metis surj_pair)
    obtain w f1 where w: "write_loop P fd1 (take (nat r) bs) f = (w, f1)" by force
    have k: "0 < r" "w" "copyfrom_loop P sock fd0 fd1 sz (tot + r) n1 f1 = (True, n', f')"
      using less.prems(2) r w False by (subst (asm) copyfrom_loop.simps, simp add: Let_def split: if_splits)+
    obtain h where h: "net_inbox n sock = h @ bs @ net_inbox n1 sock" "length h = 14"
        "sint (pkt_word h 6) = r" "r = int (length bs)" "r \<le> ?c"
      using netfs_read_taken [OF r k(1)] by blast
    then have le: "r \<le> sz - tot" "length bs \<le> 28000" by (auto split: if_splits)
    have c: "content f1 = content f @ bs"
      using write_loop_spec [OF assms w] k(2) h(4) by auto
    from less.hyps [OF _ _ k(3)] k(1) le(1) obtain ps where ps: "pieces_ok (nat (sz - (tot + r))) ps"
      "content f' = content f1 @ concat (map snd ps)"
      "net_inbox n1 sock = concat (map (\<lambda>(h, bs). h @ bs) ps) @ net_inbox n' sock"
      by auto
    have "nat (sz - (tot + r)) = nat (sz - tot) - length bs" using h(4) by simp
    with ps h le c k(1) show ?thesis
      by (intro exI [of _ "(h, bs) # ps"]) auto
  qed
qed

text \<open>
  The write requests of \<open>copyto\<close>, each with the reply the server gave to it. What a server holds that
  stores as many bytes of each request as it acknowledges in the reply is \<open>stored\<close>.
\<close>

definition acknowledged :: "byte list \<Rightarrow> int" where
  "acknowledged reply = sint (pkt_word reply 6)"

definition stored :: "(byte list \<times> byte list) list \<Rightarrow> byte list" where
  "stored reqs = concat (map (\<lambda>(d, reply). take (nat (acknowledged reply)) d) reqs)"

definition sent_for :: "int \<Rightarrow> (byte list \<times> byte list) list \<Rightarrow> byte list" where
  "sent_for fd reqs = concat (map (\<lambda>(d, reply). write_request fd d) reqs)"

definition acknowledged_ok :: "(byte list \<times> byte list) list \<Rightarrow> bool" where
  "acknowledged_ok reqs = list_all (\<lambda>(d, reply). length reply = 10 \<and> 0 < acknowledged reply
     \<and> acknowledged reply \<le> int (length d)) reqs"

lemmas reqs_defs = stored_def sent_for_def acknowledged_ok_def

lemma remote_write_sound:
  "remote_write_loop sock fd buf n = (True, n') \<Longrightarrow>
    \<exists>reqs. stored reqs = buf \<and> acknowledged_ok reqs \<and> net_inbox n sock = concat (map snd reqs) @ net_inbox n' sock
      \<and> net_outbox n' = (net_outbox n)(sock := net_outbox n sock @ sent_for fd reqs)"
proof (induction sock fd buf n rule: remote_write_loop.induct)
  case (1 sock fd buf n)
  show ?case
  proof (cases "buf = []")
    case True
    with "1.prems" show ?thesis
      by (intro exI [of _ "[]"]) (simp add: remote_write_loop.simps reqs_defs)
  next
    case False
    obtain w n1 where w: "run_state (ps2netfs_command_write sock fd buf (int (length buf))) n = (w, n1)" by force
    with "1.prems" False have ok: "0 < w" "w \<le> int (length buf)"
      and l: "remote_write_loop sock fd (drop (nat w) buf) n1 = (True, n')"
      by (subst (asm) remote_write_loop.simps, simp split: if_splits)+
    from "1.IH" [OF False w [symmetric] _ l] ok obtain reqs where
      q: "stored reqs = drop (nat w) buf" "acknowledged_ok reqs" "net_inbox n1 sock = concat (map snd reqs) @ net_inbox n' sock"
        "net_outbox n' = (net_outbox n1)(sock := net_outbox n1 sock @ sent_for fd reqs)"
      by (auto simp del: fun_upd_apply)
    obtain h where h: "net_inbox n sock = h @ net_inbox n1 sock" "length h = 10" "acknowledged h = w"
      using netfs_write_acknowledged(2) [OF w] ok by (auto simp: acknowledged_def)
    from q h netfs_write_acknowledged(1) [OF w] ok show ?thesis
      by (intro exI [of _ "(buf, h) # reqs"]) (auto simp: reqs_defs)
  qed
qed

text \<open>What is relied on of the host for a file open for reading: \<open>read\<close> takes from the front of the rest.\<close>

definition reads :: "'f posix \<Rightarrow> int \<Rightarrow> ('f \<Rightarrow> byte list) \<Rightarrow> bool" where
  "reads P fd unread \<longleftrightarrow> (\<forall>n f. case sys_read P fd n f of ((k, bs), f') \<Rightarrow>
     unread f = bs @ unread f')"

lemma copyto_loop_sound:
  assumes "reads P fd0 unread"
  shows "tot \<le> sz \<Longrightarrow> copyto_loop P sock fd0 fd1 sz tot n f = (True, n', f') \<Longrightarrow>
    \<exists>reqs. stored reqs = take (nat (sz - tot)) (unread f) \<and> int (length (stored reqs)) = sz - tot
      \<and> acknowledged_ok reqs \<and> net_inbox n sock = concat (map snd reqs) @ net_inbox n' sock
      \<and> net_outbox n' = (net_outbox n)(sock := net_outbox n sock @ sent_for fd1 reqs)"
proof (induction "nat (sz - tot)" arbitrary: tot n f rule: less_induct)
  case less
  let ?c = "if sz - tot < 28000 then sz - tot else 28000"
  show ?case
  proof (cases "sz \<le> tot")
    case True
    with less.prems show ?thesis
      by (intro exI [of _ "[]"]) (simp add: copyto_loop.simps reqs_defs)
  next
    case False
    obtain k bs f1 where r: "sys_read P fd0 (nat ?c) f = ((k, bs), f1)" by (metis surj_pair)
    then have u: "unread f = bs @ unread f1" using assms by (auto simp: reads_def dest!: spec [of _ "nat ?c"] spec [of _ f])
    obtain ok n1 where w: "remote_write_loop sock fd1 bs n = (ok, n1)" by force
    have k: "0 < k" "ok" "copyto_loop P sock fd0 fd1 sz (tot + k) n1 f1 = (True, n', f')"
      using less.prems(2) r w False by (subst (asm) copyto_loop.simps, simp add: Let_def split: if_splits)+
    have kb: "k = int (length bs)" "k \<le> sz - tot"
      using sys_read_le [OF r] k(1) False by (auto simp: le_nat_iff split: if_splits)
    from less.hyps [OF _ _ k(3)] k(1) kb(2) obtain reqs where q: "stored reqs = take (nat (sz - (tot + k))) (unread f1)"
      "int (length (stored reqs)) = sz - (tot + k)"
      "acknowledged_ok reqs" "net_inbox n1 sock = concat (map snd reqs) @ net_inbox n' sock"
      "net_outbox n' = (net_outbox n1)(sock := net_outbox n1 sock @ sent_for fd1 reqs)"
      by auto
    obtain reqs1 where q1: "stored reqs1 = bs" "acknowledged_ok reqs1" "net_inbox n sock = concat (map snd reqs1) @ net_inbox n1 sock"
      "net_outbox n1 = (net_outbox n)(sock := net_outbox n sock @ sent_for fd1 reqs1)"
      using remote_write_sound [of sock fd1 bs n n1] w k(2) by (auto simp del: fun_upd_apply)
    have "nat (sz - tot) = length bs + nat (sz - (tot + k))" using kb by simp
    with q q1 u kb show ?thesis
      by (intro exI [of _ "reqs1 @ reqs"]) (auto simp: reqs_defs)
  qed
qed

lemma copyfrom_body_success:
  assumes "run_state (copyfrom_body P sock source destination) s = ((0, fd0, fd1), s')"
  shows "\<exists>n1 sz n2 r n3 f1. run_state (ps2netfs_command_open sock (Some source) OPEN_READ) (fc_net s) = (fd0, n1)
    \<and> 0 \<le> fd0 \<and> run_state (ps2netfs_command_lseek sock fd0 0 LSEEK_END) n1 = (sz, n2) \<and> 0 \<le> sz
    \<and> run_state (ps2netfs_command_lseek sock fd0 0 LSEEK_SET) n2 = (r, n3) \<and> 0 \<le> r
    \<and> p_open P destination (O_WRONLY OR O_CREAT OR O_TRUNC) 420 (fc_fs s) = (fd1, f1) \<and> 0 \<le> fd1
    \<and> copyfrom_loop P sock fd0 fd1 sz 0 n3 f1 = (True, fc_net s', fc_fs s')"
  using assms
  by (auto simp: copyfrom_body_def fc_net_do_def fc_fs_do_def not_less split: prod.splits if_splits)

lemma copyto_body_success:
  assumes "run_state (copyto_body P sock source destination) s = ((0, fd0, fd1), s')"
  shows "\<exists>f1 sz f2 r f3 n1. p_open P source O_RDONLY 0 (fc_fs s) = (fd0, f1) \<and> 0 \<le> fd0
    \<and> p_lseek P fd0 0 SEEK_END f1 = (sz, f2) \<and> 0 \<le> c_int sz
    \<and> p_lseek P fd0 0 SEEK_SET f2 = (r, f3) \<and> 0 \<le> r
    \<and> run_state (ps2netfs_command_open sock (Some destination) (OPEN_WRITE OR OPEN_CREATE OR OPEN_TRUNCATE)) (fc_net s)
        = (fd1, n1) \<and> 0 \<le> fd1
    \<and> copyto_loop P sock fd0 fd1 (c_int sz) 0 n1 f3 = (True, fc_net s', fc_fs s')"
  using assms
  by (auto simp: copyto_body_def fc_net_do_def fc_fs_do_def not_less split: prod.splits if_splits)

lemma open_is_call:
  assumes "run_state (ps2netfs_command_open sock (Some path) flags) n = (r, n')" and "0 \<le> r"
  shows "run_state (netfs_call sock (packet PS2NETFS_COMMAND_OPEN
      (be32 flags @ string_field (replicate 256 0) (Some path)))) n = (r, n')"
  using assms by (auto simp: ps2netfs_command_open_def split: if_splits)

section \<open>Properties\<close>

lemma netfs_call_answer:
  assumes "net_writable n sock" and "net_inbox n sock = h @ rest" and "replies h r"
  obtains n' where "run_state (netfs_call sock pkt) n = (r, n')" and "net_inbox n' sock = rest" and "net_writable n' sock"
    and "net_outbox n' = (net_outbox n)(sock := net_outbox n sock @ pkt)"
proof -
  have "10 \<le> length (net_inbox n sock)" "pkt_word (net_inbox n sock) 6 = pkt_word h 6"
    using assms(2,3) by (simp_all add: replies_def pkt_word_append)
  moreover have "drop 10 (net_inbox n sock) = rest" using assms(2,3) by (simp add: replies_def)
  ultimately show thesis
    using netfs_call_answered [OF assms(1), of pkt] assms(1,3) that unfolding replies_def by metis
qed

lemma netfs_call_replies:
  assumes "net_writable n sock" and "net_inbox n sock = h @ rest" and "replies h r"
  shows "\<exists>n'. run_state (netfs_call sock pkt) n = (r, n') \<and> net_inbox n' sock = rest \<and> net_writable n' sock"
  using netfs_call_answer [OF assms] by blast

lemma copyfrom_succeeds:
  assumes "net_writable (fc_net s) sock" and "length source < 256"
    and "net_inbox (fc_net s) sock = h1 @ h2 @ h3 @ concat (map (\<lambda>(h, bs). h @ bs) ps) @ h4 @ rest"
    and "replies h1 fd0" and "0 \<le> fd0" and "replies h2 (int len)" and "replies h3 0" and "replies h4 0"
    and "pieces_ok len ps"
    and "p_open P destination (O_WRONLY OR O_CREAT OR O_TRUNC) 420 (fc_fs s) = (fd1, f1)" and "0 \<le> fd1"
    and "content f1 = []" and "appends P fd1 content" and "has_room P fd1"
    and "\<And>f. 0 \<le> fst (p_close P fd1 f) \<and> content (snd (p_close P fd1 f)) = content f"
  shows "case run_state (fsclient_copyfrom P sock source destination) s of (status, s') \<Rightarrow>
    status = 0 \<and> content (fc_fs s') = concat (map snd ps) \<and> length (content (fc_fs s')) = len
    \<and> net_inbox (fc_net s') sock = rest"
proof -
  have len: "length (concat (map snd ps)) = len" using assms(9)
    by (induction len ps rule: pieces_ok.induct) auto
  obtain n1 where 1: "run_state (ps2netfs_command_open sock (Some source) OPEN_READ) (fc_net s) = (fd0, n1)"
    "net_inbox n1 sock = h2 @ h3 @ concat (map (\<lambda>(h, bs). h @ bs) ps) @ h4 @ rest" "net_writable n1 sock"
    using netfs_call_replies [OF assms(1,3,4)] assms(2) by (simp add: ps2netfs_command_open_def) metis
  obtain n2 where 2: "run_state (ps2netfs_command_lseek sock fd0 0 LSEEK_END) n1 = (int len, n2)"
    "net_inbox n2 sock = h3 @ concat (map (\<lambda>(h, bs). h @ bs) ps) @ h4 @ rest" "net_writable n2 sock"
    using netfs_call_replies [OF 1(3,2) assms(6)] unfolding ps2netfs_command_lseek_def by metis
  obtain n3 where 3: "run_state (ps2netfs_command_lseek sock fd0 0 LSEEK_SET) n2 = (0, n3)"
    "net_inbox n3 sock = concat (map (\<lambda>(h, bs). h @ bs) ps) @ h4 @ rest" "net_writable n3 sock"
    using netfs_call_replies [OF 2(3,2) assms(7)] unfolding ps2netfs_command_lseek_def by metis
  obtain n4 f2 where 4: "copyfrom_loop P sock fd0 fd1 (int len) 0 n3 f1 = (True, n4, f2)"
    "content f2 = content f1 @ concat (map snd ps)" "net_inbox n4 sock = h4 @ rest" "net_writable n4 sock"
    using copyfrom_loop_complete [OF assms(13,14), of "int len" 0 ps n3 sock "h4 @ rest" fd0 f1] assms(9) 3(2,3) by auto
  obtain n5 where 5: "run_state (ps2netfs_command_close sock fd0) n4 = (0, n5)" "net_inbox n5 sock = rest"
    using netfs_call_replies [OF 4(4,3) assms(8)] unfolding ps2netfs_command_close_def by metis
  obtain r f3 where 6: "p_close P fd1 f2 = (r, f3)" "0 \<le> r" "content f3 = content f2"
    using assms(15) [of f2] by (cases "p_close P fd1 f2") auto
  have "run_state (copyfrom_body P sock source destination) s
      = ((0, fd0, fd1), s\<lparr>fc_net := n4, fc_fs := f2\<rparr>)"
    using 1(1) 2(1) 3(1) 4(1) assms(5,10,11) by (simp add: copyfrom_body_def)
  then have "run_state (fsclient_copyfrom P sock source destination) s = (0, s\<lparr>fc_net := n5, fc_fs := f3\<rparr>)"
    using 5(1) 6(1,2) assms(5,11) by (simp add: fsclient_copyfrom_def)
  with 4(2) 5(2) 6(3) assms(12) len show ?thesis by simp
qed

text \<open>
  A host with one file to read and one to write that takes two bytes at a time, a server that serves a file
  of five bytes in two pieces, and one that stores a file of three bytes in two writes.
\<close>

definition sample_disk :: "int \<Rightarrow> (byte list \<times> byte list) posix" where
  "sample_disk len = \<lparr>p_open = (\<lambda>_ _ _ (i, c). (3, (i, []))), p_close = (\<lambda>_ f. (0, f)),
     p_read = (\<lambda>_ n (i, c). (Some (take n i), (drop n i, c))),
     p_write = (\<lambda>_ bs (i, c). (int (length (take 2 bs)), (i, c @ take 2 bs))),
     p_lseek = (\<lambda>_ _ whence f. (if whence = SEEK_END then len else 0, f)),
     p_stat = (\<lambda>_ f. (None, f)), p_opendir = (\<lambda>_ f. (None, f)), p_readdir = (\<lambda>_ f. (None, f)),
     p_closedir = (\<lambda>_ f. (0, f)), p_remove = (\<lambda>_ f. (0, f)), p_mkdir = (\<lambda>_ _ f. (0, f)),
     p_rmdir = (\<lambda>_ f. (0, f)), p_malloc = (\<lambda>_ f. (True, f)),
     p_localtime = (\<lambda>_. Some \<lparr>tm_sec = 0, tm_min = 0, tm_hour = 0, tm_mday = 1, tm_mon = 0, tm_year = 100\<rparr>)\<rparr>"

lemma sample_disk_ok: "appends (sample_disk k) fd snd" "has_room (sample_disk k) fd" "reads (sample_disk k) fd fst"
  by (auto simp: appends_def has_room_def reads_def sample_disk_def sys_write_def sys_read_def Let_def min_def)

definition reply :: "u32 \<Rightarrow> byte list" where
  "reply r = packet 0 (be32 r)"

definition sample_pieces :: "(byte list \<times> byte list) list" where
  "sample_pieces = [(packet 0 (be32 3 @ be32 0), [1, 2, 3]), (packet 0 (be32 2 @ be32 0), [4, 5])]"

definition sample_fsc :: "byte list \<Rightarrow> byte list \<Rightarrow> (byte list \<times> byte list) fsc" where
  "sample_fsc i bs = \<lparr>fc_net = (\<lambda>_. \<lparr>rx = [Rx_Data bs], tx = [], tx_plan = []\<rparr>), fc_fs = (i, []),
     fc_out = [], fc_fault = False\<rparr>"

lemma sample_replies:
  "replies (reply 5) 5" "replies (reply 2) 2" "replies (reply 0) 0" "pieces_ok 5 sample_pieces"
  by (simp_all add: replies_def reply_def sample_pieces_def pkt_word_def)

text \<open>(C16) \<open>copyfrom\<close> copies the whole file: when the server answers the open, says how long the file is
  and serves it in pieces of any size, and the local file can be opened and has room, then the command
  returns \<open>0\<close> and the local file holds exactly the bytes of the pieces, as many as the server said,
  however \<open>write\<close> splits them.\<close>

theorem copyfrom_complete:
  assumes "net_writable (fc_net s) sock" and "length source < 256"
    and "net_inbox (fc_net s) sock = h1 @ h2 @ h3 @ concat (map (\<lambda>(h, bs). h @ bs) ps) @ h4 @ rest"
    and "replies h1 fd0" and "0 \<le> fd0" and "replies h2 (int len)" and "replies h3 0" and "replies h4 0"
    and "pieces_ok len ps"
    and "p_open P destination (O_WRONLY OR O_CREAT OR O_TRUNC) 420 (fc_fs s) = (fd1, f1)" and "0 \<le> fd1"
    and "content f1 = []" and "appends P fd1 content" and "has_room P fd1"
    and "\<And>f. 0 \<le> fst (p_close P fd1 f) \<and> content (snd (p_close P fd1 f)) = content f"
  shows "case run_state (fsclient_copyfrom P sock source destination) s of (status, s') \<Rightarrow>
    status = 0 \<and> content (fc_fs s') = concat (map snd ps) \<and> length (content (fc_fs s')) = len
    \<and> net_inbox (fc_net s') sock = rest"
  by (rule copyfrom_succeeds [OF assms])

theorem copyfrom_complete_witness:
  "case run_state (fsclient_copyfrom (sample_disk 0) 4 (lit ''host:a'') (lit ''a''))
      (sample_fsc [] (reply 2 @ reply 5 @ reply 0 @ concat (map (\<lambda>(h, bs). h @ bs) sample_pieces) @ reply 0)) of
    (status, s') \<Rightarrow> status = 0 \<and> snd (fc_fs s') = [1, 2, 3, 4, 5]"
  using copyfrom_complete [where s = "sample_fsc [] (reply 2 @ reply 5 @ reply 0
        @ concat (map (\<lambda>(h, bs). h @ bs) sample_pieces) @ reply 0)" and sock = 4 and rest = "[]"
      and source = "lit ''host:a''" and P = "sample_disk 0" and content = snd and ?h1.0 = "reply 2"
      and ?h2.0 = "reply 5" and ?h3.0 = "reply 0" and ?h4.0 = "reply 0" and ps = sample_pieces and len = 5
      and ?fd0.0 = 2 and ?fd1.0 = 3 and destination = "lit ''a''" and ?f1.0 = "([], [])"]
    sample_replies sample_disk_ok [of 0 3]
  by (auto simp: sample_fsc_def net_views lit_def sample_disk_def sample_pieces_def)

text \<open>(C14) A \<open>copyfrom\<close> that returns \<open>0\<close> was told no lie: what came from the server is an answer to the
  open, the length of the file, an answer to the seek back, pieces that add up to exactly that length,
  and an answer to the close, and the local file holds exactly the bytes of the pieces.\<close>

theorem copyfrom_sound:
  assumes "run_state (fsclient_copyfrom P sock source destination) s = (0, s')"
    and "\<And>fd f. p_open P destination (O_WRONLY OR O_CREAT OR O_TRUNC) 420 (fc_fs s) = (fd, f) \<Longrightarrow> 0 \<le> fd \<Longrightarrow>
      content f = [] \<and> appends P fd content"
    and "\<And>fd f. content (snd (p_close P fd f)) = content f"
  shows "\<exists>h1 fd0 h2 len h3 ps h4. net_inbox (fc_net s) sock
      = h1 @ h2 @ h3 @ concat (map (\<lambda>(h, bs). h @ bs) ps) @ h4 @ net_inbox (fc_net s') sock
    \<and> replies h1 fd0 \<and> 0 \<le> fd0 \<and> replies h2 (int len) \<and> pieces_ok len ps
    \<and> content (fc_fs s') = concat (map snd ps)"
proof -
  obtain st fd0 fd1 s1 where b: "run_state (copyfrom_body P sock source destination) s = ((st, fd0, fd1), s1)"
    by (metis surj_pair)
  with assms(1) have "st = 0"
    by (auto simp: fsclient_copyfrom_def fc_net_do_def fc_fs_do_def split: prod.splits if_splits)
  with copyfrom_body_success b obtain n1 sz n2 r n3 f1 where
    1: "run_state (ps2netfs_command_open sock (Some source) OPEN_READ) (fc_net s) = (fd0, n1)" "0 \<le> fd0"
    and 2: "run_state (ps2netfs_command_lseek sock fd0 0 LSEEK_END) n1 = (sz, n2)" "0 \<le> sz"
    and 3: "run_state (ps2netfs_command_lseek sock fd0 0 LSEEK_SET) n2 = (r, n3)" "0 \<le> r"
    and o: "p_open P destination (O_WRONLY OR O_CREAT OR O_TRUNC) 420 (fc_fs s) = (fd1, f1)" "0 \<le> fd1"
    and l: "copyfrom_loop P sock fd0 fd1 sz 0 n3 f1 = (True, fc_net s1, fc_fs s1)" by metis
  obtain q where 4: "run_state (ps2netfs_command_close sock fd0) (fc_net s1) = (q, fc_net s')" "0 \<le> q"
    and c: "fc_fs s' = snd (p_close P fd1 (fc_fs s1))"
    using assms(1) b 1(2) o(2)
    by (auto simp: fsclient_copyfrom_def fc_net_do_def fc_fs_do_def split: prod.splits if_splits)
  obtain h1 where "net_inbox (fc_net s) sock = h1 @ net_inbox n1 sock" "replies h1 fd0"
    using netfs_call_taken(1) [OF open_is_call [OF 1]] 1(2) by auto
  moreover obtain h2 where "net_inbox n1 sock = h2 @ net_inbox n2 sock" "replies h2 sz"
    using netfs_call_taken(1) [OF 2(1) [unfolded ps2netfs_command_lseek_def]] 2(2) by auto
  moreover obtain h3 where "net_inbox n2 sock = h3 @ net_inbox n3 sock"
    using netfs_call_taken(1) [OF 3(1) [unfolded ps2netfs_command_lseek_def]] 3(2) by auto
  moreover obtain h4 where "net_inbox (fc_net s1) sock = h4 @ net_inbox (fc_net s') sock"
    using netfs_call_taken(1) [OF 4(1) [unfolded ps2netfs_command_close_def]] 4(2) by auto
  moreover obtain ps where "pieces_ok (nat sz) ps" "content (fc_fs s1) = concat (map snd ps)"
      "net_inbox n3 sock = concat (map (\<lambda>(h, bs). h @ bs) ps) @ net_inbox (fc_net s1) sock"
    using copyfrom_loop_sound [OF conjunct2 [OF assms(2) [OF o]] 2(2) l] assms(2) [OF o] by auto
  ultimately have "net_inbox (fc_net s) sock
        = h1 @ h2 @ h3 @ concat (map (\<lambda>(h, bs). h @ bs) ps) @ h4 @ net_inbox (fc_net s') sock"
      "replies h1 fd0" "replies h2 (int (nat sz))" "pieces_ok (nat sz) ps" "content (fc_fs s') = concat (map snd ps)"
    using 2(2) assms(3) c by simp_all
  with 1(2) show ?thesis by blast
qed

theorem copyfrom_sound_witness:
  "\<exists>s' h1 fd0 h2 len h3 ps h4. run_state (fsclient_copyfrom (sample_disk 0) 4 (lit ''host:a'') (lit ''a''))
      (sample_fsc [] (reply 2 @ reply 5 @ reply 0 @ concat (map (\<lambda>(h, bs). h @ bs) sample_pieces) @ reply 0)) = (0, s')
    \<and> reply 2 @ reply 5 @ reply 0 @ concat (map (\<lambda>(h, bs). h @ bs) sample_pieces) @ reply 0
      = h1 @ h2 @ h3 @ concat (map (\<lambda>(h, bs). h @ bs) ps) @ h4 @ net_inbox (fc_net s') 4
    \<and> replies h1 fd0 \<and> 0 \<le> fd0 \<and> replies h2 (int len) \<and> pieces_ok len ps \<and> snd (fc_fs s') = concat (map snd ps)"
proof -
  let ?in = "reply 2 @ reply 5 @ reply 0 @ concat (map (\<lambda>(h, bs). h @ bs) sample_pieces) @ reply 0"
  let ?s = "sample_fsc [] ?in"
  obtain s' where r: "run_state (fsclient_copyfrom (sample_disk 0) 4 (lit ''host:a'') (lit ''a'')) ?s = (0, s')"
    using copyfrom_succeeds [where s = ?s and sock = 4 and rest = "[]"
      and source = "lit ''host:a''" and P = "sample_disk 0" and content = snd and ?h1.0 = "reply 2"
      and ?h2.0 = "reply 5" and ?h3.0 = "reply 0" and ?h4.0 = "reply 0" and ps = sample_pieces and len = 5
      and ?fd0.0 = 2 and ?fd1.0 = 3 and destination = "lit ''a''" and ?f1.0 = "([], [])"]
      sample_replies sample_disk_ok [of 0 3]
    by (auto simp: sample_fsc_def net_views lit_def sample_disk_def sample_pieces_def)
  have i: "net_inbox (fc_net ?s) 4 = ?in" by (simp add: sample_fsc_def net_views)
  have o: "snd f = [] \<and> appends (sample_disk 0) fd snd"
    if "p_open (sample_disk 0) (lit ''a'') (O_WRONLY OR O_CREAT OR O_TRUNC) 420 (fc_fs ?s) = (fd, f)" for fd f
    using that sample_disk_ok(1) [of 0 fd] by (auto simp: sample_disk_def sample_fsc_def)
  have c: "snd (snd (p_close (sample_disk 0) fd f)) = snd f" for fd f
    by (simp add: sample_disk_def)
  from copyfrom_sound [OF r o c, unfolded i] r show ?thesis by blast
qed

text \<open>(C15) A \<open>copyto\<close> of a file below two gigabytes that returns \<open>0\<close> has stored the whole file. The server
  answered the open with a descriptor and the close without an error, and in between every write request
  with a count from 1 to its length; what went out is the open, the writes to that descriptor and its
  close; and the parts of the requests that these counts acknowledge, one after the other, are exactly
  the file. So a server that stores as many bytes of each write as it acknowledges holds the file,
  however it splits the writes.\<close>

theorem copyto_sound:
  assumes "run_state (fsclient_copyto P sock source destination) s = (0, s')"
    and "p_open P source O_RDONLY 0 (fc_fs s) = (fd0, f1)" and "p_lseek P fd0 0 SEEK_END f1 = (int (length data), f2)"
    and "unread (snd (p_lseek P fd0 0 SEEK_SET f2)) = data" and "reads P fd0 unread" and "length data < 2 ^ 31"
  shows "\<exists>fd1 reqs h1 h2 q. stored reqs = data \<and> acknowledged_ok reqs
    \<and> net_inbox (fc_net s) sock = h1 @ concat (map snd reqs) @ h2 @ net_inbox (fc_net s') sock
    \<and> replies h1 fd1 \<and> 0 \<le> fd1 \<and> replies h2 q \<and> 0 \<le> q
    \<and> net_outbox (fc_net s') sock = net_outbox (fc_net s) sock
    @ packet PS2NETFS_COMMAND_OPEN (be32 (OPEN_WRITE OR OPEN_CREATE OR OPEN_TRUNCATE)
        @ string_field (replicate 256 0) (Some destination))
    @ sent_for fd1 reqs @ packet PS2NETFS_COMMAND_CLOSE (be32 (word_of_int fd1))"
proof -
  obtain st fd0' fd1 s1 where b: "run_state (copyto_body P sock source destination) s = ((st, fd0', fd1), s1)"
    by (metis surj_pair)
  with assms(1) have "st = 0"
    by (auto simp: fsclient_copyto_def fc_net_do_def fc_fs_do_def split: prod.splits if_splits)
  with copyto_body_success b assms(2,3) obtain r f3 n1 where fd: "fd0' = fd0" "0 \<le> fd0"
    and f: "p_lseek P fd0 0 SEEK_SET f2 = (r, f3)"
    and 1: "run_state (ps2netfs_command_open sock (Some destination) (OPEN_WRITE OR OPEN_CREATE OR OPEN_TRUNCATE)) (fc_net s)
        = (fd1, n1)" "0 \<le> fd1"
    and l: "copyto_loop P sock fd0 fd1 (c_int (int (length data))) 0 n1 f3 = (True, fc_net s1, fc_fs s1)"
    by (metis prod.inject)
  obtain q where 2: "run_state (ps2netfs_command_close sock fd1) (fc_net s1) = (q, fc_net s')" "0 \<le> q"
    using assms(1) b fd 1(2)
    by (auto simp: fsclient_copyto_def fc_net_do_def fc_fs_do_def split: prod.splits if_splits)
  have "c_int (int (length data)) = int (length data)" using assms(6) by simp
  with copyto_loop_sound [OF assms(5) _ l] assms(4) f obtain reqs where reqs: "stored reqs = data" "acknowledged_ok reqs"
      "net_inbox n1 sock = concat (map snd reqs) @ net_inbox (fc_net s1) sock"
      "net_outbox (fc_net s1) = (net_outbox n1)(sock := net_outbox n1 sock @ sent_for fd1 reqs)"
    by (auto simp del: fun_upd_apply)
  note open_call = netfs_call_taken [OF open_is_call [OF 1]]
    and close_call = netfs_call_taken [OF 2(1) [unfolded ps2netfs_command_close_def]]
  obtain h1 h2 where "net_inbox (fc_net s) sock = h1 @ net_inbox n1 sock" "replies h1 fd1"
    "net_inbox (fc_net s1) sock = h2 @ net_inbox (fc_net s') sock" "replies h2 q"
    using open_call(1) close_call(1) 1(2) 2(2) by auto
  with open_call(2) close_call(2) reqs 1(2) 2(2) show ?thesis
    by (rule_tac exI [of _ fd1], rule_tac exI [of _ reqs], rule_tac exI [of _ h1], rule_tac exI [of _ h2], rule_tac exI [of _ q]) simp
qed

theorem copyto_sound_witness:
  "\<exists>s' fd1 reqs h1 h2 q. run_state (fsclient_copyto (sample_disk 3) 4 (lit ''a'') (lit ''host:a''))
      (sample_fsc [7, 8, 9] (reply 2 @ reply 1 @ reply 2 @ reply 0)) = (0, s')
    \<and> stored reqs = [7, 8, 9] \<and> acknowledged_ok reqs
    \<and> reply 2 @ reply 1 @ reply 2 @ reply 0 = h1 @ concat (map snd reqs) @ h2 @ net_inbox (fc_net s') 4
    \<and> replies h1 fd1 \<and> 0 \<le> fd1 \<and> replies h2 q \<and> 0 \<le> q
    \<and> net_outbox (fc_net s') 4
      = packet PS2NETFS_COMMAND_OPEN (be32 (OPEN_WRITE OR OPEN_CREATE OR OPEN_TRUNCATE)
          @ string_field (replicate 256 0) (Some (lit ''host:a'')))
        @ sent_for fd1 reqs @ packet PS2NETFS_COMMAND_CLOSE (be32 (word_of_int fd1))"
proof -
  let ?in = "reply 2 @ reply 1 @ reply 2 @ reply 0"
  let ?s = "sample_fsc [7, 8, 9] ?in"
  have "fst (run_state (fsclient_copyto (sample_disk 3) 4 (lit ''a'') (lit ''host:a'')) ?s) = 0"
    by code_simp
  then obtain s' where r: "run_state (fsclient_copyto (sample_disk 3) 4 (lit ''a'') (lit ''host:a'')) ?s = (0, s')"
    by (metis prod.collapse)
  have "p_open (sample_disk 3) (lit ''a'') O_RDONLY 0 (fc_fs ?s) = (3, ([7, 8, 9], []))"
    "p_lseek (sample_disk 3) 3 0 SEEK_END ([7, 8, 9], []) = (int (length [7, 8, 9 :: byte]), ([7, 8, 9], []))"
    "fst (snd (p_lseek (sample_disk 3) 3 0 SEEK_SET ([7, 8, 9], []))) = [7, 8, 9]"
    by (simp_all add: sample_disk_def sample_fsc_def)
  note sound = copyto_sound [OF r this sample_disk_ok(3)]
  have n: "net_inbox (fc_net ?s) 4 = ?in" "net_outbox (fc_net ?s) 4 = []" "length [7, 8, 9 :: byte] < 2 ^ 31"
    by (simp_all add: sample_fsc_def net_views)
  from sound [unfolded n(1,2) append_Nil, OF n(3)] r show ?thesis by blast
qed

text \<open>The size of the local file goes through an \<open>int\<close>: for a file of 4 GiB \<open>copyto\<close> opens and closes
  the file on the PS2, sends no data, and reports success.\<close>

theorem copyto_huge:
  assumes "net_writable (fc_net s) sock" and "length destination < 256"
    and "net_inbox (fc_net s) sock = h1 @ h2 @ rest" and "replies h1 fd1" and "0 \<le> fd1" and "replies h2 0"
    and "p_open P source O_RDONLY 0 (fc_fs s) = (fd0, f1)" and "0 \<le> fd0"
    and "p_lseek P fd0 0 SEEK_END f1 = (2 ^ 32, f2)" and "0 \<le> fst (p_lseek P fd0 0 SEEK_SET f2)"
    and "\<And>f. 0 \<le> fst (p_close P fd0 f)"
  shows "case run_state (fsclient_copyto P sock source destination) s of (status, s') \<Rightarrow>
    status = 0 \<and> net_outbox (fc_net s') sock = net_outbox (fc_net s) sock
    @ packet PS2NETFS_COMMAND_OPEN (be32 (OPEN_WRITE OR OPEN_CREATE OR OPEN_TRUNCATE)
        @ string_field (replicate 256 0) (Some destination))
    @ packet PS2NETFS_COMMAND_CLOSE (be32 (word_of_int fd1))"
proof -
  let ?open = "ps2netfs_command_open sock (Some destination) (OPEN_WRITE OR OPEN_CREATE OR OPEN_TRUNCATE)"
  obtain n1 where 1: "run_state ?open (fc_net s) = (fd1, n1)" "net_inbox n1 sock = h2 @ rest" "net_writable n1 sock"
    using netfs_call_replies [OF assms(1,3,4)] assms(2) by (simp add: ps2netfs_command_open_def) metis
  obtain n2 where 2: "run_state (ps2netfs_command_close sock fd1) n1 = (0, n2)"
    using netfs_call_replies [OF 1(3,2) assms(6)] unfolding ps2netfs_command_close_def by metis
  obtain r f3 where 3: "p_lseek P fd0 0 SEEK_SET f2 = (r, f3)" "0 \<le> r"
    using assms(10) by (cases "p_lseek P fd0 0 SEEK_SET f2") auto
  obtain q f4 where 4: "p_close P fd0 f3 = (q, f4)" "0 \<le> q"
    using assms(11) [of f3] by (cases "p_close P fd0 f3") auto
  have z: "c_int (2 ^ 32) = 0" by (simp add: c_int_def)
  have "run_state (copyto_body P sock source destination) s = ((0, fd0, fd1), s\<lparr>fc_net := n1, fc_fs := f3\<rparr>)"
    using 1(1) 3 z assms(5,7,8,9) by (simp add: copyto_body_def copyto_loop.simps)
  then have "run_state (fsclient_copyto P sock source destination) s = (0, s\<lparr>fc_net := n2, fc_fs := f4\<rparr>)"
    using 2 4 assms(5,8) by (simp add: fsclient_copyto_def)
  with netfs_call_taken(2) [OF open_is_call [OF 1(1) assms(5)]]
    netfs_call_taken(2) [OF 2 [unfolded ps2netfs_command_close_def]] assms(5) show ?thesis by simp
qed

theorem copyto_huge_witness:
  "case run_state (fsclient_copyto (sample_disk (2 ^ 32)) 4 (lit ''a'') (lit ''host:a''))
      (sample_fsc [7, 8, 9] (reply 2 @ reply 0)) of (status, s') \<Rightarrow>
    status = 0 \<and> net_outbox (fc_net s') 4 = packet PS2NETFS_COMMAND_OPEN (be32 (OPEN_WRITE OR OPEN_CREATE OR OPEN_TRUNCATE)
        @ string_field (replicate 256 0) (Some (lit ''host:a''))) @ packet PS2NETFS_COMMAND_CLOSE (be32 2)"
  using copyto_huge [where s = "sample_fsc [7, 8, 9] (reply 2 @ reply 0)" and sock = 4 and rest = "[]"
      and destination = "lit ''host:a''" and P = "sample_disk (2 ^ 32)" and source = "lit ''a''"
      and ?h1.0 = "reply 2" and ?h2.0 = "reply 0" and ?fd0.0 = 3 and ?fd1.0 = 2 and ?f1.0 = "([7, 8, 9], [])" and ?f2.0 = "([7, 8, 9], [])"]
    sample_replies
  by (auto simp: sample_fsc_def net_views lit_def sample_disk_def SEEK_END_def SEEK_SET_def)

end
