(* ===== verification/Fsclient_Dir.thy ===== *)
theory Fsclient_Dir
  imports Fsclient_Copy
begin

text \<open>
  The directory listing of \<^verbatim>\<open>src/fsclient.c\<close>: what \<open>fsclient_dir\<close> prints for the entries a server sends.
\<close>

section \<open>Listing\<close>

text \<open>An answer to \<open>dread\<close> with an entry in it, whose name ends inside its field, and one that ends the listing.\<close>

definition serves_entry :: "byte list \<Rightarrow> bool" where
  "serves_entry p \<longleftrightarrow> length p = 306 \<and> 0 < sint (pkt_word p 6) \<and> 0 \<in> set (dirent_name (drop 10 p))"

definition serves_end :: "byte list \<Rightarrow> bool" where
  "serves_end p \<longleftrightarrow> length p = 306 \<and> sint (pkt_word p 6) \<le> 0"

abbreviation dread_request :: "int \<Rightarrow> byte list" where
  "dread_request dd \<equiv> packet PS2NETFS_COMMAND_DREAD (be32 (word_of_int dd))"

lemma dread_answered:
  assumes "net_writable n sock" and "net_inbox n sock = p @ rest" and "length p = 306"
  obtains n' where "run_state (ps2netfs_command_dread sock dd) n = ((sint (pkt_word p 6), Some (drop 10 p)), n')"
    and "net_inbox n' sock = rest" and "net_writable n' sock"
    and "net_outbox n' = (net_outbox n)(sock := net_outbox n sock @ dread_request dd)"
proof -
  have "10 + sizeof_DIRENT \<le> length (net_inbox n sock)" using assms by (simp add: sizeof_DIRENT_def)
  from netfs.exchange_answered [OF assms(1) this, of "dread_request dd"] obtain n' where
    "run_state (netfs_exchange sock (dread_request dd) (10 + sizeof_DIRENT)) n = (Some p, n')"
    "net_inbox n' sock = rest" "net_outbox n' = (net_outbox n)(sock := net_outbox n sock @ dread_request dd)"
    "net_writable n' = net_writable n"
    using assms(2,3) by (auto simp: sizeof_DIRENT_def)
  with that assms(1) show thesis by (simp add: ps2netfs_command_dread_def)
qed

text \<open>The sum of the sizes, as a 32 bit number.\<close>

definition total_size :: "byte list list \<Rightarrow> int" where
  "total_size ps = sum_list (map (\<lambda>p. uint (dirent_size (drop 10 p))) ps)"

lemma c_int_add: "c_int (c_int a + b) = c_int (a + b)"
  by (simp add: c_int_def)

lemma dir_loop_lists:
  assumes "list_all serves_entry ps" and "serves_end e" and "net_writable n sock"
    and "net_inbox n sock = concat ps @ e @ rest"
  shows "\<exists>n'. dir_loop sock dd files (c_int sz) out bad n
      = ((files + int (length ps), c_int (sz + total_size ps), out @ concat (map (dir_line \<circ> drop 10) ps), bad), n')
    \<and> net_inbox n' sock = rest \<and> net_writable n' sock
    \<and> net_outbox n' sock = net_outbox n sock @ concat (replicate (Suc (length ps)) (dread_request dd))"
  using assms
proof (induction ps arbitrary: files sz out n)
  case Nil
  from Nil.prems obtain n' where "run_state (ps2netfs_command_dread sock dd) n = ((sint (pkt_word e 6), Some (drop 10 e)), n')"
    "net_inbox n' sock = rest" "net_writable n' sock"
    "net_outbox n' = (net_outbox n)(sock := net_outbox n sock @ dread_request dd)"
    by (auto simp: serves_end_def elim: dread_answered)
  with Nil.prems(2) show ?case
    by (subst dir_loop.simps) (simp add: serves_end_def total_size_def)
next
  case (Cons p ps)
  have p: "length p = 306" "0 < sint (pkt_word p 6)" "0 \<in> set (dirent_name (drop 10 p))"
    using Cons.prems(1) by (simp_all add: serves_entry_def)
  have ps: "list_all serves_entry ps" using Cons.prems(1) by simp
  obtain n1 where r: "run_state (ps2netfs_command_dread sock dd) n = ((sint (pkt_word p 6), Some (drop 10 p)), n1)"
    "net_inbox n1 sock = concat ps @ e @ rest" "net_writable n1 sock"
    "net_outbox n1 = (net_outbox n)(sock := net_outbox n sock @ dread_request dd)"
    using dread_answered [OF Cons.prems(3) _ p(1)] Cons.prems(4) by (metis append.assoc concat.simps(2))
  let ?sz = "sz + uint (dirent_size (drop 10 p))"
  obtain n2 where l: "dir_loop sock dd (files + 1) (c_int ?sz) (out @ dir_line (drop 10 p)) bad n1
      = ((files + 1 + int (length ps), c_int (?sz + total_size ps),
          (out @ dir_line (drop 10 p)) @ concat (map (dir_line \<circ> drop 10) ps), bad), n2)"
    "net_inbox n2 sock = rest" "net_writable n2 sock"
    "net_outbox n2 sock = net_outbox n1 sock @ concat (replicate (Suc (length ps)) (dread_request dd))"
    using Cons.IH [OF ps Cons.prems(2) r(3,2)] by blast
  have "dir_loop sock dd files (c_int sz) out bad n
      = dir_loop sock dd (files + 1) (c_int ?sz) (out @ dir_line (drop 10 p)) bad n1"
    using p(2,3) r(1) by (subst dir_loop.simps) (simp add: c_int_add)
  with l r(4) show ?case by (simp add: total_size_def add.assoc comp_def)
qed

text \<open>What is printed before and after the entries.\<close>

definition dir_header :: "byte list \<Rightarrow> byte list" where
  "dir_header path = [10] @ lit '' [Contents of '' @ path @ lit '']'' @ [10, 10]"

definition dir_footer :: "int \<Rightarrow> int \<Rightarrow> byte list" where
  "dir_footer files sz = [10] @ lit '' ['' @ fmt_d files @ lit '' Files - '' @ fmt_d sz @ lit '' Bytes]'' @ [10, 10]"

section \<open>Properties\<close>

text \<open>(C17) The listing is the directory. When the server opens it, serves its entries, any number of them,
  one for each request, then says there are no more and answers the close, \<open>fsclient_dir\<close> prints exactly one line
  for each entry, in order, between the header and the totals: their number and the sum of their sizes
  as a 32 bit number. It asks once more than there are entries, closes what it opened, reads
  nothing outside of the names, and its status is that of the close.\<close>

theorem dir_listing:
  assumes "net_writable (fc_net s) sock"
    and "net_inbox (fc_net s) sock = h1 @ concat ps @ e @ h2 @ rest"
    and "replies h1 dd" and "0 \<le> dd" and "list_all serves_entry ps" and "serves_end e" and "replies h2 r"
  shows "case run_state (fsclient_dir sock junk (Some path)) s of (status, s') \<Rightarrow>
    status = (if r < 0 then -1 else 0)
    \<and> fc_out s' = fc_out s @ dir_header path @ concat (map (dir_line \<circ> drop 10) ps)
        @ dir_footer (int (length ps)) (c_int (total_size ps))
    \<and> net_outbox (fc_net s') sock = net_outbox (fc_net s) sock
        @ packet PS2NETFS_COMMAND_DOPEN (be32 0 @ string_field junk (Some path))
        @ concat (replicate (Suc (length ps)) (dread_request dd))
        @ packet PS2NETFS_COMMAND_DCLOSE (be32 (word_of_int dd))
    \<and> net_inbox (fc_net s') sock = rest \<and> fc_fault s' = fc_fault s \<and> fc_fs s' = fc_fs s"
proof -
  let ?open = "packet PS2NETFS_COMMAND_DOPEN (be32 0 @ string_field junk (Some path))"
  let ?close = "packet PS2NETFS_COMMAND_DCLOSE (be32 (word_of_int dd))"
  obtain n1 where 1: "run_state (netfs_call sock ?open) (fc_net s) = (dd, n1)"
    "net_inbox n1 sock = concat ps @ e @ h2 @ rest" "net_writable n1 sock"
    "net_outbox n1 = (net_outbox (fc_net s))(sock := net_outbox (fc_net s) sock @ ?open)"
    using netfs_call_answer [OF assms(1-3)] .
  obtain n2 where 2: "dir_loop sock dd 0 0 [] False n1
      = ((int (length ps), c_int (total_size ps), concat (map (dir_line \<circ> drop 10) ps), False), n2)"
    "net_inbox n2 sock = h2 @ rest" "net_writable n2 sock"
    "net_outbox n2 sock = net_outbox n1 sock @ concat (replicate (Suc (length ps)) (dread_request dd))"
    using dir_loop_lists [OF assms(5,6) 1(3,2), of dd 0 0 "[]" False] by auto
  obtain n3 where 3: "run_state (netfs_call sock ?close) n2 = (r, n3)" "net_inbox n3 sock = rest"
    "net_outbox n3 = (net_outbox n2)(sock := net_outbox n2 sock @ ?close)"
    using netfs_call_answer [OF 2(3,2) assms(7)] .
  have "run_state (fsclient_dir sock junk (Some path)) s = (if r < 0 then -1 else 0,
      s\<lparr>fc_net := n3, fc_out := fc_out s @ dir_header path @ concat (map (dir_line \<circ> drop 10) ps)
        @ dir_footer (int (length ps)) (c_int (total_size ps))\<rparr>)"
    using 1(1) 2(1) 3(1) assms(4)
    by (simp add: fsclient_dir_def ps2netfs_command_dopen_def ps2netfs_command_dclose_def fc_print_def
        dir_header_def dir_footer_def)
  with 1(4) 2(4) 3(2,3) show ?thesis by simp
qed

text \<open>A directory with two entries of together more than two gigabytes.\<close>

definition sample_entry :: "u32 \<Rightarrow> u32 \<Rightarrow> string \<Rightarrow> byte list" where
  "sample_entry r sz name = packet 0 (be32 r) @ be32 0x11FF @ be32 0 @ be32 sz @ replicate 28 1
     @ lit name @ replicate (256 - length name) 0"

theorem dir_listing_witness:
  "case run_state (fsclient_dir 4 (replicate 256 0) (Some (lit ''host:'')))
      (sample_fsc [] (reply 2 @ concat [sample_entry 1 5 ''a'', sample_entry 1 0x7FFFFFFF ''b''] @ sample_entry 0 0 ''z'' @ reply 0)) of
    (status, s') \<Rightarrow> status = 0 \<and> fc_out s' = dir_header (lit ''host:'')
      @ dir_line (drop 10 (sample_entry 1 5 ''a'')) @ dir_line (drop 10 (sample_entry 1 0x7FFFFFFF ''b''))
      @ dir_footer 2 (-2147483644)"
proof -
  let ?ps = "[sample_entry 1 5 ''a'', sample_entry 1 0x7FFFFFFF ''b'']"
  let ?s = "sample_fsc [] (reply 2 @ concat ?ps @ sample_entry 0 0 ''z'' @ reply 0)"
  have s: "net_writable (fc_net ?s) 4" "net_inbox (fc_net ?s) 4 = reply 2 @ concat ?ps @ sample_entry 0 0 ''z'' @ reply 0 @ []"
    "fc_out ?s = []"
    by (simp_all add: sample_fsc_def net_views)
  have p: "list_all serves_entry ?ps" "serves_end (sample_entry 0 0 ''z'')"
    by (simp_all add: serves_entry_def serves_end_def sample_entry_def pkt_word_def lit_def dirent_name_def)
  have t: "c_int (total_size ?ps) = -2147483644"
    by (simp add: total_size_def dirent_size_def sample_entry_def c_int_def)
  from dir_listing [OF s(1,2) sample_replies(2) _ p sample_replies(3), where junk = "replicate 256 0" and path = "lit ''host:''"]
  show ?thesis unfolding t s(3) by (auto split: prod.splits)
qed

end
