(* ===== verification/Symbolize.thy ===== *)
theory Symbolize
  imports CString Posix
begin

text \<open>
  \<^verbatim>\<open>tools/ps2symbolize.c\<close>: the filter that copies an exception log and adds, after the lines that hold the
  address of an exception, what addr2line says about the address. The tools that are run, the files and
  the context of a resolver are parameters. Strings are null-free lists; messages to \<open>stderr\<close> are not
  modelled.
\<close>

record module_map =
  mm_name :: "byte list"
  mm_elf :: "byte list"

record symbolizer =
  sy_ee_elf :: "byte list option"
  sy_ee_tool :: "byte list"
  sy_iop_tool :: "byte list"
  sy_modules :: "module_map list"
  sy_exception :: nat
  sy_errors :: int

fun equals_ignore_case :: "byte list \<Rightarrow> byte list \<Rightarrow> bool" where
  "equals_ignore_case (a # as) (b # bs) \<longleftrightarrow> tolower a = tolower b \<and> equals_ignore_case as bs"
| "equals_ignore_case as bs \<longleftrightarrow> as = [] \<and> bs = []"

section \<open>Scanning and printing\<close>

text \<open>
  The directives of \<open>sscanf\<close> that the program uses: a character, white space, \<open>%x\<close>, and \<open>%<n>[^<c>]\<close>. The
  result is the list of the items stored; its length is what \<open>sscanf\<close> returns, or that is \<open>EOF\<close>. A
  number is read as \<open>strtoul\<close> reads it and stored in 32 bits; a prefix \<open>0x\<close> without a digit does not match.
\<close>

datatype directive = D_Char byte | D_Space | D_Hex | D_Not nat byte
datatype item = I_Hex u32 | I_Str "byte list"

definition scan_hex :: "byte list \<Rightarrow> (u32 \<times> byte list) option" where
  "scan_hex s =
     (let (neg, t) = sign (dropWhile isspace s);
          u = (case t of z # x # r \<Rightarrow> if z = 48 \<and> (x = 120 \<or> x = 88) then r else t | _ \<Rightarrow> t);
          (v, rest) = digits 16 0 u;
          w = min v (2 ^ 64 - 1)
      in if rest = u then None
         else Some (word_of_int (if neg \<and> v < 2 ^ 64 then - int w else int w), rest))"

fun sscanf :: "directive list \<Rightarrow> byte list \<Rightarrow> item list" where
  "sscanf [] s = []"
| "sscanf (D_Char c # ds) s = (case s of [] \<Rightarrow> [] | x # r \<Rightarrow> if x = c then sscanf ds r else [])"
| "sscanf (D_Space # ds) s = sscanf ds (dropWhile isspace s)"
| "sscanf (D_Hex # ds) s = (case scan_hex s of None \<Rightarrow> [] | Some (v, r) \<Rightarrow> I_Hex v # sscanf ds r)"
| "sscanf (D_Not n c # ds) s =
     (let t = take n (takeWhile (\<lambda>x. x \<noteq> c) s)
      in if t = [] then [] else I_Str t # sscanf ds (drop (length t) s))"

definition fmt_chars :: "string \<Rightarrow> directive list" where
  "fmt_chars f = map (\<lambda>c. if c = 32 then D_Space else D_Char c) (lit f)"

text \<open>\<open>"EPC %x"\<close> and \<open>"Module Name \"%127[^\"]\" Relative EPC %x"\<close>; 34 is the quotation mark.\<close>

definition ee_format :: "directive list" where
  "ee_format = fmt_chars ''EPC '' @ [D_Hex]"

definition iop_format :: "directive list" where
  "iop_format = fmt_chars ''Module Name '' @ [D_Char 34, D_Not 127 34, D_Char 34] @ fmt_chars '' Relative EPC '' @ [D_Hex]"

definition hex_char :: "nat \<Rightarrow> byte" where
  "hex_char d = (if d < 10 then 48 + of_nat d else 87 + of_nat d)"

primrec hex_digits :: "nat \<Rightarrow> nat \<Rightarrow> byte list" where
  "hex_digits 0 n = []"
| "hex_digits (Suc k) n = hex_digits k (n div 16) @ [hex_char (n mod 16)]"

text \<open>\<open>%08x\<close> of a 32 bit number.\<close>

definition fmt_08x :: "u32 \<Rightarrow> byte list" where
  "fmt_08x w = hex_digits 8 (unat w)"

text \<open>\<open>fgets\<close> with a buffer of \<open>n\<close> bytes: what it stores before the null byte, and what is left.\<close>

definition fgets :: "nat \<Rightarrow> byte list \<Rightarrow> byte list \<times> byte list" where
  "fgets n s =
     (let t = takeWhile (\<lambda>c. c \<noteq> 10) s; k = min (n - 1) (length t + 1)
      in (take k s, drop k s))"

section \<open>Resolving an address\<close>

text \<open>What the system answers when addr2line is run: \<open>tr_wait\<close> is \<open>None\<close> when \<open>waitpid\<close> fails.\<close>

record tool_run =
  tr_pipe :: int
  tr_actions :: int
  tr_spawn :: int
  tr_fdopen :: bool
  tr_output :: "byte list"
  tr_wait :: "u32 option"

type_synonym 'c resolver = "byte list \<Rightarrow> byte list \<Rightarrow> u32 \<Rightarrow> 'c \<Rightarrow> (int \<times> byte list) \<times> 'c"

definition resolve_symbol :: "(byte list list \<Rightarrow> 'c \<Rightarrow> tool_run \<times> 'c) \<Rightarrow> 'c resolver" where
  "resolve_symbol run_tool tool elf address c =
     (case run_tool [tool, lit ''-f'', lit ''-C'', lit ''-p'', lit ''-e'', elf, lit ''0x'' @ fmt_08x address] c of
       (t, c') \<Rightarrow>
         if tr_pipe t < 0 then ((-1, []), c')
         else if tr_actions t \<noteq> 0 then ((-1, []), c')
         else if tr_spawn t \<noteq> 0 then ((-1, []), c')
         else if \<not> tr_fdopen t then ((-1, []), c')
         else let output = cstr (fst (fgets 1024 (tr_output t))) in
           if (case tr_wait t of None \<Rightarrow> True | Some st \<Rightarrow> \<not> WIFEXITED st \<or> WEXITSTATUS st \<noteq> 0) then ((-1, output), c')
           else let output = takeWhile (\<lambda>x. x \<noteq> 13 \<and> x \<noteq> 10) output in
             if output = [] \<or> prefix (lit ''??'') output then ((0, output), c') else ((1, output), c'))"

section \<open>The filter\<close>

record 'c annotator =
  an_config :: symbolizer
  an_out :: "byte list"
  an_context :: 'c

text \<open>The part of \<open>annotate_line\<close> after the address was found; \<open>elf\<close> is \<open>NULL\<close> for an unknown module.\<close>

definition annotate_symbol ::
  "'c resolver \<Rightarrow> byte list \<Rightarrow> byte list option \<Rightarrow> byte list \<Rightarrow> u32 \<Rightarrow> 'c annotator \<Rightarrow> 'c annotator" where
  "annotate_symbol resolve tool elf name pc a =
     (case elf of None \<Rightarrow> a
      | Some file \<Rightarrow>
        (case resolve tool file pc (an_context a) of ((v, symbol), c) \<Rightarrow>
          let a = a\<lparr>an_context := c\<rparr> in
          if 0 < v then
            (if name \<noteq> [] then a\<lparr>an_out := an_out a @ lit ''  [IOP '' @ name @ lit '' symbol] '' @ symbol @ [10]\<rparr>
             else a\<lparr>an_out := an_out a @ lit ''  [EE symbol] '' @ symbol @ [10]\<rparr>)
          else if v < 0 then a\<lparr>an_config := an_config a\<lparr>sy_errors := sy_errors (an_config a) + 1\<rparr>\<rparr>
          else a))"

definition mark_exception :: "byte list \<Rightarrow> symbolizer \<Rightarrow> symbolizer" where
  "mark_exception line c =
     (let c = (if strstr line (lit ''EE Exception handler:'') \<noteq> None then c\<lparr>sy_exception := 1\<rparr> else c)
      in if strstr line (lit ''IOP Exception handler:'') \<noteq> None then c\<lparr>sy_exception := 2\<rparr> else c)"

text \<open>
  The address in a line, with the tool and the program to look it up: \<open>None\<close> where \<open>annotate_line\<close>
  returns before it looks for the program.
\<close>

definition find_address :: "symbolizer \<Rightarrow> byte list \<Rightarrow> (byte list \<times> byte list option \<times> byte list \<times> u32) option" where
  "find_address config line =
     (if sy_exception config = 1 \<and> sy_ee_elf config \<noteq> None then
        (case strstr line (lit ''EPC '') of None \<Rightarrow> None
         | Some epc \<Rightarrow> (case sscanf ee_format epc of
             [I_Hex pc] \<Rightarrow> Some (sy_ee_tool config, sy_ee_elf config, [], pc)
           | _ \<Rightarrow> None))
      else if sy_exception config = 2 then
        (case strstr line (lit ''Module Name '' @ [34]) of None \<Rightarrow> None
         | Some epc \<Rightarrow> (case sscanf iop_format epc of
             [I_Str name, I_Hex pc] \<Rightarrow>
               Some (sy_iop_tool config,
                 map_option mm_elf (find (\<lambda>m. equals_ignore_case name (mm_name m)) (sy_modules config)), name, pc)
           | _ \<Rightarrow> None))
      else None)"

definition annotate_line :: "'c resolver \<Rightarrow> byte list \<Rightarrow> 'c annotator \<Rightarrow> 'c annotator" where
  "annotate_line resolve line a =
     (let config = mark_exception line (an_config a);
          a = a\<lparr>an_out := an_out a @ line, an_config := config\<rparr>
      in case find_address config line of None \<Rightarrow> a
         | Some (tool, elf, name, pc) \<Rightarrow>
             annotate_symbol resolve tool elf name pc (a\<lparr>an_config := config\<lparr>sy_exception := 0\<rparr>\<rparr>))"

text \<open>\<open>while (fgets (line, sizeof (line), input))\<close>.\<close>

function annotate_all :: "'c resolver \<Rightarrow> byte list \<Rightarrow> 'c annotator \<Rightarrow> 'c annotator" where
  "annotate_all resolve input a =
     (if input = [] then a
      else case fgets 8192 input of (line, rest) \<Rightarrow> annotate_all resolve rest (annotate_line resolve (cstr line) a))"
  by pat_completeness auto
termination
  by (relation "measure (\<lambda>(resolve, input, a). length input)") (auto simp: fgets_def Let_def)

declare annotate_all.simps [simp del]

section \<open>The program\<close>

definition symbolizer_init :: symbolizer where
  "symbolizer_init = \<lparr>sy_ee_elf = None, sy_ee_tool = lit ''mips64r5900el-ps2-elf-addr2line'',
     sy_iop_tool = lit ''mipsel-none-elf-addr2line'', sy_modules = [], sy_exception = 0, sy_errors = 0\<rparr>"

text \<open>The argument of \<open>--iop\<close>; 61 is the equals sign.\<close>

definition add_module :: "byte list \<Rightarrow> symbolizer \<Rightarrow> symbolizer option" where
  "add_module pair c =
     (let name = takeWhile (\<lambda>x. x \<noteq> 61) pair; sep = drop (length name) pair
      in if sep = [] \<or> name = [] \<or> 128 \<le> length name \<or> tl sep = [] \<or> length (sy_modules c) = 64 then None
         else Some (c\<lparr>sy_modules := sy_modules c @ [\<lparr>mm_name = name, mm_elf = tl sep\<rparr>]\<rparr>))"

fun symbolize_options :: "byte list list \<Rightarrow> symbolizer \<Rightarrow> byte list option \<Rightarrow> int + symbolizer \<times> byte list option" where
  "symbolize_options [] c log_path = Inr (c, log_path)"
| "symbolize_options (a # as) c log_path =
     (if (a = lit ''--ee'' \<or> a = lit ''--iop'' \<or> a = lit ''--ee-tool'' \<or> a = lit ''--iop-tool'') \<and> as = [] then Inl 2
      else if a = lit ''--ee'' then symbolize_options (tl as) (c\<lparr>sy_ee_elf := Some (hd as)\<rparr>) log_path
      else if a = lit ''--ee-tool'' then symbolize_options (tl as) (c\<lparr>sy_ee_tool := hd as\<rparr>) log_path
      else if a = lit ''--iop-tool'' then symbolize_options (tl as) (c\<lparr>sy_iop_tool := hd as\<rparr>) log_path
      else if a = lit ''--iop'' then
        (case add_module (hd as) c of None \<Rightarrow> Inl 2 | Some c' \<Rightarrow> symbolize_options (tl as) c' log_path)
      else if a = lit ''--help'' then Inl 0
      else if log_path = None \<and> (a = [] \<or> hd a \<noteq> 45 \<or> a = lit ''-'') then symbolize_options as c (Some a)
      else Inl 2)"

text \<open>\<open>main\<close>: the exit status and what is written to \<open>stdout\<close>. \<open>files\<close> is \<open>fopen\<close> for reading.\<close>

definition symbolize_main ::
  "'c resolver \<Rightarrow> 'c \<Rightarrow> (byte list \<Rightarrow> byte list option) \<Rightarrow> byte list \<Rightarrow> byte list list \<Rightarrow> int \<times> byte list" where
  "symbolize_main resolve context files stdin_bytes args =
     (case symbolize_options args symbolizer_init None of
       Inl status \<Rightarrow> (status, [])
     | Inr (c, log_path) \<Rightarrow>
         if sy_ee_elf c = None \<and> sy_modules c = [] then (2, [])
         else (case (case log_path of None \<Rightarrow> Some stdin_bytes
                     | Some p \<Rightarrow> if p = lit ''-'' then Some stdin_bytes else files p) of
             None \<Rightarrow> (1, [])
           | Some input \<Rightarrow>
               let a = annotate_all resolve input \<lparr>an_config = c, an_out = [], an_context = context\<rparr>
               in (if sy_errors (an_config a) \<noteq> 0 then 1 else 0, an_out a)))"

section \<open>Facts\<close>

lemma hex_digits_numeral:
  "hex_digits (numeral k) n = hex_digits (pred_numeral k) (n div 16) @ [hex_char (n mod 16)]"
  by (simp only: numeral_eq_Suc [of k] hex_digits.simps)

lemma hex_char_simps:
  assumes "d < 16"
  shows "digit_value (hex_char d) = Some d" "is_digit 16 (hex_char d)" "\<not> isspace (hex_char d)"
    "hex_char d \<noteq> 45" "hex_char d \<noteq> 43" "hex_char d \<noteq> 120" "hex_char d \<noteq> 88" "hex_char d \<noteq> 0"
proof -
  have u: "unat (hex_char d) = (if d < 10 then 48 + d else 87 + d)"
    using assms by (simp add: hex_char_def unat_word_ariths unat_of_nat)
  then show v: "digit_value (hex_char d) = Some d"
    using assms by (simp add: digit_value_def word_le_nat_alt)
  then show "is_digit 16 (hex_char d)" using assms by (simp add: is_digit_def)
  show "\<not> isspace (hex_char d)" "hex_char d \<noteq> 45" "hex_char d \<noteq> 43" "hex_char d \<noteq> 120" "hex_char d \<noteq> 88" "hex_char d \<noteq> 0"
    using assms unfolding isspace_def word_unat_eq_iff word_le_nat_alt u by simp_all
qed

lemma digits_hex: "digits 16 acc (hex_digits k n @ rest) = digits 16 (acc * 16 ^ k + n mod 16 ^ k) rest"
proof (induction k arbitrary: acc n rest)
  case 0
  show ?case by simp
next
  case (Suc k)
  have "digits 16 acc (hex_digits (Suc k) n @ rest)
      = digits 16 ((acc * 16 ^ k + n div 16 mod 16 ^ k) * 16 + n mod 16) rest"
    by (simp add: Suc hex_char_simps)
  also have "(acc * 16 ^ k + n div 16 mod 16 ^ k) * 16 + n mod 16 = acc * 16 ^ Suc k + n mod 16 ^ Suc k"
    by (simp add: mod_mult2_eq)
  finally show ?case .
qed

lemma hex_digits_cons: "hex_digits (Suc k) n = hex_char (n div 16 ^ k mod 16) # hex_digits k n"
proof (induction k arbitrary: n)
  case (Suc k)
  show ?case
    by (subst hex_digits.simps(2), subst Suc) (simp add: div_mult2_eq)
qed simp

lemma scan_hex_fmt:
  assumes "rest = [] \<or> \<not> is_digit 16 (hd rest)"
  shows "scan_hex (fmt_08x pc @ rest) = Some (pc, rest)"
proof -
  obtain c d t where cd: "fmt_08x pc = hex_char c # hex_char d # t" "c < 16" "d < 16"
  proof -
    have "8 = Suc (Suc 6)" by simp
    then show thesis
      using that [of "unat pc div 16 ^ 7 mod 16" "unat pc div 16 ^ 6 mod 16" "hex_digits 6 (unat pc)"]
      by (simp only: fmt_08x_def hex_digits_cons) simp
  qed
  have "digits 16 0 (fmt_08x pc @ rest) = digits 16 (unat pc) rest"
    using digits_hex [of 0 8 "unat pc" rest] unsigned_less [where ?'a = nat, of pc] by (simp add: fmt_08x_def)
  also have "\<dots> = (unat pc, rest)" using assms by (cases rest) auto
  finally have dg: "digits 16 0 (fmt_08x pc @ rest) = (unat pc, rest)" .
  have "unat pc < 2 ^ 64" using unsigned_less [where ?'a = nat, of pc] by simp
  with dg cd show ?thesis
    by (simp add: scan_hex_def sign_def hex_char_simps)
qed

lemma fmt_no_space: "dropWhile isspace (fmt_08x pc @ rest) = fmt_08x pc @ rest"
proof -
  have "fmt_08x pc = hex_char (unat pc div 16 ^ 7 mod 16) # hex_digits 7 (unat pc)"
    unfolding fmt_08x_def using hex_digits_cons [of 7 "unat pc"] by simp
  then show ?thesis by (simp add: hex_char_simps)
qed

lemma ee_scan:
  "rest = [] \<or> \<not> is_digit 16 (hd rest) \<Longrightarrow> sscanf ee_format (lit ''EPC '' @ fmt_08x pc @ rest) = [I_Hex pc]"
  by (simp add: ee_format_def fmt_chars_def lit_def isspace_def [of 32] fmt_no_space scan_hex_fmt)

lemma iop_scan:
  assumes "name \<noteq> []" and "length name \<le> 127" and "34 \<notin> set name" and "rest = [] \<or> \<not> is_digit 16 (hd rest)"
  shows "sscanf iop_format (lit ''Module Name '' @ [34] @ name @ [34] @ lit '' Relative EPC '' @ fmt_08x pc @ rest)
    = [I_Str name, I_Hex pc]"
proof -
  have "takeWhile (\<lambda>x. x \<noteq> 34) (name @ 34 # r) = name" for r :: "byte list"
    using assms(3) by (simp add: takeWhile_tail)
  with assms show ?thesis
    by (simp add: iop_format_def fmt_chars_def lit_def isspace_def [of 32] isspace_def [of 34] isspace_def [of 78]
        isspace_def [of 82] isspace_def [of 69] fmt_no_space scan_hex_fmt Let_def)
qed

text \<open>What the filter adds after a line.\<close>

definition is_note :: "byte list \<Rightarrow> bool" where
  "is_note added \<longleftrightarrow> added = [] \<or> (\<exists>symbol. added = lit ''  [EE symbol] '' @ symbol @ [10])
     \<or> (\<exists>name symbol. added = lit ''  [IOP '' @ name @ lit '' symbol] '' @ symbol @ [10])"

lemma annotate_symbol_out:
  "\<exists>added. is_note added \<and> an_out (annotate_symbol resolve tool elf name pc a) = an_out a @ added"
  by (auto simp: annotate_symbol_def is_note_def Let_def split: option.splits prod.splits)

lemma annotate_line_out:
  "\<exists>added. is_note added \<and> an_out (annotate_line resolve line a) = an_out a @ line @ added"
proof (cases "find_address (mark_exception line (an_config a)) line")
  case None
  then show ?thesis by (intro exI [of _ "[]"]) (simp add: annotate_line_def is_note_def)
next
  case (Some x)
  obtain tool elf name pc where "x = (tool, elf, name, pc)" by (metis surj_pair)
  let ?c = "mark_exception line (an_config a)"
  show ?thesis
    using annotate_symbol_out [of resolve tool elf name pc
        "a\<lparr>an_out := an_out a @ line, an_config := ?c\<lparr>sy_exception := 0\<rparr>\<rparr>"] Some \<open>x = _\<close>
    by (simp add: annotate_line_def)
qed

lemma fgets_split: "fgets n s = (line, rest) \<Longrightarrow> s = line @ rest"
  by (auto simp: fgets_def Let_def)

lemma annotate_all_out:
  "0 \<notin> set input \<Longrightarrow> \<exists>ls adds. concat ls = input \<and> length adds = length ls \<and> list_all is_note adds
    \<and> an_out (annotate_all resolve input a) = an_out a @ concat (map2 (@) ls adds)"
proof (induction resolve input a rule: annotate_all.induct)
  case (1 resolve input a)
  show ?case
  proof (cases "input = []")
    case True
    then show ?thesis by (intro exI [of _ "[]"]) (simp add: annotate_all.simps)
  next
    case False
    obtain line rest where l: "fgets 8192 input = (line, rest)" by force
    from fgets_split [OF l] "1.prems" have z: "0 \<notin> set line" "0 \<notin> set rest" "input = line @ rest" by auto
    obtain added where n: "is_note added" "an_out (annotate_line resolve line a) = an_out a @ line @ added"
      using annotate_line_out by blast
    from "1.IH" [OF False l [symmetric] z(2)] z(1) obtain ls adds where
      "concat ls = rest" "length adds = length ls" "list_all is_note adds"
      "an_out (annotate_all resolve rest (annotate_line resolve line a))
        = an_out (annotate_line resolve line a) @ concat (map2 (@) ls adds)"
      by auto
    moreover have "annotate_all resolve input a = annotate_all resolve rest (annotate_line resolve line a)"
      using l False z(1) by (subst annotate_all.simps) simp
    ultimately have "concat (line # ls) = input" "length (added # adds) = length (line # ls)"
      "list_all is_note (added # adds)"
      "an_out (annotate_all resolve input a) = an_out a @ concat (map2 (@) (line # ls) (added # adds))"
      using n z(3) by simp_all
    then show ?thesis by blast
  qed
qed

lemma mark_ee:
  "sy_exception c = 1 \<Longrightarrow> strstr line (lit ''IOP Exception handler:'') = None \<Longrightarrow> mark_exception line c = c"
  by (cases c) (simp add: mark_exception_def Let_def)

lemma mark_iop:
  "sy_exception c = 2 \<Longrightarrow> strstr line (lit ''EE Exception handler:'') = None \<Longrightarrow> mark_exception line c = c"
  by (cases c) (simp add: mark_exception_def Let_def)

definition modules_ok :: "symbolizer \<Rightarrow> bool" where
  "modules_ok c \<longleftrightarrow> length (sy_modules c) \<le> 64
     \<and> list_all (\<lambda>m. 0 < length (mm_name m) \<and> length (mm_name m) < 128 \<and> mm_elf m \<noteq> []) (sy_modules c)"

lemma add_module_ok: "modules_ok c \<Longrightarrow> add_module pair c = Some c' \<Longrightarrow> modules_ok c'"
  by (auto simp: add_module_def modules_ok_def Let_def split: if_splits)

definition outcome_ok :: "int + symbolizer \<times> byte list option \<Rightarrow> bool" where
  "outcome_ok r = (case r of Inl status \<Rightarrow> status = 0 \<or> status = 2 | Inr (c, log_path) \<Rightarrow> modules_ok c)"

lemma options_ok: "modules_ok c \<Longrightarrow> outcome_ok (symbolize_options args c l)"
proof (induction args arbitrary: c l rule: length_induct)
  case (1 args)
  show ?case
  proof (cases args)
    case Nil
    with 1(2) show ?thesis by (simp add: outcome_ok_def)
  next
    case (Cons a as)
    have usage: "outcome_ok (Inl 0)" "outcome_ok (Inl 2)" by (simp_all add: outcome_ok_def)
    have IH: "modules_ok c' \<Longrightarrow> outcome_ok (symbolize_options as c' l')"
      "modules_ok c' \<Longrightarrow> outcome_ok (symbolize_options (tl as) c' l')" for c' l'
      using 1(1) Cons by simp_all
    have ok: "modules_ok (c\<lparr>sy_ee_elf := x\<rparr>)" "modules_ok (c\<lparr>sy_ee_tool := y\<rparr>)" "modules_ok (c\<lparr>sy_iop_tool := y\<rparr>)" for x y
      using 1(2) by (simp_all add: modules_ok_def)
    have "outcome_ok (case add_module (hd as) c of None \<Rightarrow> Inl 2 | Some c' \<Rightarrow> symbolize_options (tl as) c' l)"
      using add_module_ok [OF 1(2)] usage IH by (simp split: option.split)
    then show ?thesis
      unfolding Cons symbolize_options.simps using usage IH ok 1(2) by simp
  qed
qed

section \<open>Properties\<close>

text \<open>(C34) The filter loses nothing of the log: for every input without null bytes, of lines of any
  length, what it writes is the input, cut into pieces, with after each piece nothing or one line with
  a symbol. So the log is what remains when the added lines are dropped.\<close>

theorem symbolize_keeps_log:
  assumes "symbolize_options args symbolizer_init None = Inr (c, log_path)"
    and "sy_ee_elf c \<noteq> None \<or> sy_modules c \<noteq> []"
    and "log_path = None \<or> log_path = Some (lit ''-'')" and "0 \<notin> set input"
  shows "\<exists>status ls adds. concat ls = input \<and> length adds = length ls \<and> list_all is_note adds
    \<and> symbolize_main resolve context files input args = (status, concat (map2 (@) ls adds))"
proof -
  let ?a = "annotate_all resolve input \<lparr>an_config = c, an_out = [], an_context = context\<rparr>"
  have "symbolize_main resolve context files input args
      = (if sy_errors (an_config ?a) \<noteq> 0 then 1 else 0, an_out ?a)"
    using assms(1-3) by (auto simp: symbolize_main_def Let_def)
  with annotate_all_out [OF assms(4), of resolve "\<lparr>an_config = c, an_out = [], an_context = context\<rparr>"]
  show ?thesis by auto
qed

definition sample_resolve :: "unit resolver" where
  "sample_resolve tool elf pc c = ((if pc = 0x00100abc then 1 else 0, lit ''main''), c)"

theorem symbolize_keeps_log_witness:
  "\<exists>status ls adds. concat ls = lit ''EE Exception handler:'' @ [10] @ lit ''EPC 00100abc'' @ [10]
    \<and> length adds = length ls \<and> list_all is_note adds
    \<and> symbolize_main sample_resolve () (\<lambda>_. None) (lit ''EE Exception handler:'' @ [10] @ lit ''EPC 00100abc'' @ [10])
        [lit ''--ee'', lit ''a.elf''] = (status, concat (map2 (@) ls adds))"
proof -
  have "symbolize_options [lit ''--ee'', lit ''a.elf''] symbolizer_init None
      = Inr (symbolizer_init\<lparr>sy_ee_elf := Some (lit ''a.elf'')\<rparr>, None)" by simp
  then show ?thesis by (rule symbolize_keeps_log) (simp_all add: lit_def)
qed

text \<open>(C35) After the header of an EE exception, the line with the address the handler prints (eight
  hexadecimal digits after \<open>EPC\<close>) is looked up with exactly that address, in the program and with the
  tool given for the EE; the symbol is added after the line, a failing tool is counted, and the state
  is ready for the next exception.\<close>

theorem annotate_ee:
  assumes "sy_exception (an_config a) = 1" and "sy_ee_elf (an_config a) = Some elf"
    and "strstr line (lit ''IOP Exception handler:'') = None"
    and "strstr line (lit ''EPC '') = Some (lit ''EPC '' @ fmt_08x pc @ rest)"
    and "rest = [] \<or> \<not> is_digit 16 (hd rest)"
    and "resolve (sy_ee_tool (an_config a)) elf pc (an_context a) = ((v, symbol), c)"
  shows "annotate_line resolve line a =
    \<lparr>an_config = (an_config a)\<lparr>sy_exception := 0, sy_errors := sy_errors (an_config a) + (if v < 0 then 1 else 0)\<rparr>,
     an_out = an_out a @ line @ (if 0 < v then lit ''  [EE symbol] '' @ symbol @ [10] else []), an_context = c\<rparr>"
  using assms(1,2,4,6)
  by (simp add: annotate_line_def find_address_def mark_ee [OF assms(1,3)] ee_scan [OF assms(5)] annotate_symbol_def Let_def)

theorem annotate_ee_witness:
  "an_out (annotate_line sample_resolve (lit ''EPC 00100abc'' @ [10])
      \<lparr>an_config = symbolizer_init\<lparr>sy_ee_elf := Some (lit ''a.elf''), sy_exception := 1\<rparr>, an_out = [], an_context = ()\<rparr>)
    = lit ''EPC 00100abc'' @ [10] @ lit ''  [EE symbol] main'' @ [10]"
proof -
  let ?line = "lit ''EPC 00100abc'' @ [10]"
  have l: "?line = lit ''EPC '' @ fmt_08x 0x00100abc @ [10]"
    by (simp add: fmt_08x_def hex_char_def lit_def hex_digits_numeral)
  have "strstr ?line (lit ''IOP Exception handler:'') = None" "strstr ?line (lit ''EPC '') = Some ?line"
    "\<not> is_digit 16 (hd [10])"
    by (simp_all add: lit_def strstr.simps is_digit_def digit_value_def)
  then show ?thesis
    using annotate_ee [where line = ?line and pc = "0x00100abc" and rest = "[10]" and elf = "lit ''a.elf''"
        and resolve = sample_resolve and c = "()"
        and v = 1 and symbol = "lit ''main''"
        and a = "\<lparr>an_config = symbolizer_init\<lparr>sy_ee_elf := Some (lit ''a.elf''), sy_exception := 1\<rparr>, an_out = [], an_context = ()\<rparr>"] l
    by (simp add: symbolizer_init_def sample_resolve_def) (simp add: lit_def)
qed

text \<open>(C36) After the header of an IOP exception, the line that names the module and the address in it is
  looked up with exactly that address in the program of the first module of the table with that name,
  the case of the letters aside.\<close>

theorem annotate_iop:
  assumes "sy_exception (an_config a) = 2" and "strstr line (lit ''EE Exception handler:'') = None"
    and "strstr line (lit ''Module Name '' @ [34])
      = Some (lit ''Module Name '' @ [34] @ name @ [34] @ lit '' Relative EPC '' @ fmt_08x pc @ rest)"
    and "name \<noteq> []" and "length name \<le> 127" and "34 \<notin> set name" and "rest = [] \<or> \<not> is_digit 16 (hd rest)"
    and "sy_modules (an_config a) = before @ m # after" and "equals_ignore_case name (mm_name m)"
    and "list_all (\<lambda>m. \<not> equals_ignore_case name (mm_name m)) before"
    and "resolve (sy_iop_tool (an_config a)) (mm_elf m) pc (an_context a) = ((v, symbol), c)"
  shows "annotate_line resolve line a =
    \<lparr>an_config = (an_config a)\<lparr>sy_exception := 0, sy_errors := sy_errors (an_config a) + (if v < 0 then 1 else 0)\<rparr>,
     an_out = an_out a @ line @ (if 0 < v then lit ''  [IOP '' @ name @ lit '' symbol] '' @ symbol @ [10] else []),
     an_context = c\<rparr>"
proof -
  have "find (\<lambda>m. equals_ignore_case name (mm_name m)) (before @ m # after) = Some m"
    using assms(9,10) by (induction before) auto
  with assms(1,3,4,8,11) show ?thesis
    by (simp add: annotate_line_def find_address_def mark_iop [OF assms(1,2)] iop_scan [OF assms(4-7), simplified] annotate_symbol_def Let_def)
qed

theorem annotate_iop_witness:
  "an_out (annotate_line sample_resolve (lit ''Module Name '' @ [34] @ lit ''SIO2MAN'' @ [34] @ lit '' Relative EPC 00100abc'')
      \<lparr>an_config = symbolizer_init\<lparr>sy_modules := [\<lparr>mm_name = lit ''sio2man'', mm_elf = lit ''a.elf''\<rparr>], sy_exception := 2\<rparr>,
       an_out = [], an_context = ()\<rparr>)
    = lit ''Module Name '' @ [34] @ lit ''SIO2MAN'' @ [34] @ lit '' Relative EPC 00100abc'' @ lit ''  [IOP SIO2MAN symbol] main'' @ [10]"
proof -
  let ?line = "lit ''Module Name '' @ [34] @ lit ''SIO2MAN'' @ [34] @ lit '' Relative EPC 00100abc''"
  have l: "?line = lit ''Module Name '' @ [34] @ lit ''SIO2MAN'' @ [34] @ lit '' Relative EPC '' @ fmt_08x 0x00100abc @ []"
    by (simp add: fmt_08x_def hex_char_def lit_def hex_digits_numeral)
  have "strstr ?line (lit ''EE Exception handler:'') = None" "strstr ?line (lit ''Module Name '' @ [34]) = Some ?line"
    "equals_ignore_case (lit ''SIO2MAN'') (lit ''sio2man'')" "34 \<notin> set (lit ''SIO2MAN'')" "lit ''SIO2MAN'' \<noteq> []"
    by (simp_all add: lit_def strstr.simps tolower_def)
  then show ?thesis
    using annotate_iop [where line = ?line and pc = "0x00100abc" and rest = "[]" and name = "lit ''SIO2MAN''"
        and resolve = sample_resolve and c = "()" and v = 1 and symbol = "lit ''main''" and before = "[]" and after = "[]"
        and m = "\<lparr>mm_name = lit ''sio2man'', mm_elf = lit ''a.elf''\<rparr>"
        and a = "\<lparr>an_config = symbolizer_init\<lparr>sy_modules := [\<lparr>mm_name = lit ''sio2man'', mm_elf = lit ''a.elf''\<rparr>], sy_exception := 2\<rparr>,
          an_out = [], an_context = ()\<rparr>"] l
    by (simp add: symbolizer_init_def sample_resolve_def) (simp add: lit_def)
qed

text \<open>The options never overrun the table of modules: whatever the arguments, it holds at most 64
  entries, each with a name that fits its 128 bytes with the terminator and a program that is not empty.\<close>

theorem modules_bounded:
  "case symbolize_options args symbolizer_init None of Inl status \<Rightarrow> status = 0 \<or> status = 2
   | Inr (c, log_path) \<Rightarrow> length (sy_modules c) \<le> 64
       \<and> list_all (\<lambda>m. 0 < length (mm_name m) \<and> length (mm_name m) < 128 \<and> mm_elf m \<noteq> []) (sy_modules c)"
  using options_ok [of symbolizer_init args None]
  unfolding outcome_ok_def modules_ok_def by (simp add: symbolizer_init_def split: sum.splits)

end
