(* ===== verification/Spec2Isabelle.thy ===== *)
theory Spec2Isabelle
  imports Ps2client Fsclient_Dir Symbolize
begin

text \<open>
  ps2client: a verification library for the host side of the PS2 development link.

  \<^bold>\<open>The programs.\<close> The repository holds three programs. \<^verbatim>\<open>ps2client\<close> sends one command to the PS2 as a UDP
  datagram, serves the files of the host to it over a TCP connection, and prints its console, until a
  marker line, a timeout or the end of the connection; its command \<^verbatim>\<open>resetcheck\<close> resets the PS2 and watches
  it come back by running ps2client as a child. \<^verbatim>\<open>fsclient\<close> works on the files of the PS2 over the ps2netfs
  protocol. \<^verbatim>\<open>ps2symbolize\<close> is a filter that annotates exception logs.

  \<^bold>\<open>Theories and sources\<close> (paths under \<^verbatim>\<open>src/\<close>):
  \<^item> \<open>Prelude\<close>: C integers, byte order and memory images, the state monad, list facts.
  \<^item> \<open>CString\<close>: the functions of \<^verbatim>\<open><string.h>\<close>, \<^verbatim>\<open><stdlib.h>\<close> and \<^verbatim>\<open><ctype.h>\<close> the sources use.
  \<^item> \<open>Network\<close>: \<^verbatim>\<open>src/network.c\<close>. A connection is an explicit history: what the system will return from
    \<open>recv\<close> and \<open>send\<close> (data in any pieces, interruptions, errors, the end) and what was sent.
  \<^item> \<open>Utility\<close>: \<^verbatim>\<open>src/utility.c\<close>, the in-place rewriting of path names with every access of the memory checked,
    flags, argument vectors, the usage text.
  \<^item> \<open>Posix\<close>: the file services of the host as a record of functions, a parameter of the programs.
  \<^item> \<open>Packet\<close>, \<open>Link_Command\<close>: the thirteen \<open>ps2link_command_*\<close> of \<^verbatim>\<open>src/ps2link.c\<close>.
  \<^item> \<open>Link_Request\<close>, \<open>Link_Thread\<close>, \<open>Link_Service\<close>: the file service, that is the twelve
    \<open>ps2link_request_*\<close> handlers with their responses, the request thread, and what each handler does.
    The state \<open>server\<close> holds the network, the host, the packet buffer, the table of directories and the
    two variables of the handshake.
  \<^item> \<open>Link_Console\<close>, \<open>Link_Connect\<close>: the search for the marker in the console output, and connecting.
  \<^item> \<open>Link_Main\<close>: the handshake, the main loop and the two threads as an interleaving of steps on one
    state \<open>client\<close>; a program point of the main thread is a constructor of \<open>main_pc\<close>, and \<open>client_step\<close>
    lets any thread or the clock move. \<open>Link_Exit\<close> (how a run ends), \<open>Link_Handshake\<close> (when commands are sent,
    and that the handshake returns) and \<open>Link_Sent\<close> (what is sent) are its theorems.
  \<^item> \<open>Client_Main\<close>: \<^verbatim>\<open>src/ps2client.c\<close>, from the environment and the arguments to the plan \<open>plan_main\<close>.
  \<^item> \<open>Ps2client\<close>: \<open>main\<close> as a whole, the plan, the connection and the threads or \<open>resetcheck\<close>, as the relation
    \<open>ps2client_exits\<close> of the statuses the program can end with.
  \<^item> \<open>Resetcheck\<close>: \<^verbatim>\<open>src/resetcheck.c\<close>.
  \<^item> \<open>Netfs\<close>, \<open>Fsclient\<close>, \<open>Fsclient_Copy\<close>, \<open>Fsclient_Dir\<close>: \<^verbatim>\<open>src/ps2netfs.c\<close> and \<^verbatim>\<open>src/fsclient.c\<close>.
  \<^item> \<open>Symbolize\<close>: \<^verbatim>\<open>tools/ps2symbolize.c\<close>.

  \<^bold>\<open>Interfaces.\<close> The clients of the network use it through locales with its laws: \<open>tcp\<close> interprets
  \<open>byte_stream\<close> on \<open>network_send\<close> and \<open>network_receive_all\<close>, and \<open>netfs\<close>
  interprets \<open>rpc_client\<close>, a request and its reply, on \<open>netfs_exchange\<close>. What every handler keeps is a
  relation of states (\<open>step_preorder\<close>, or \<open>net_relation\<close> for one on the network alone); \<open>Link_Thread\<close> and
  \<open>Link_Service\<close> interpret them on the input, the output, the safety of the buffers and the flags; and \<open>handle_table\<close> is the abstract table of
  directory handles that the array of the program refines.

  \<^bold>\<open>What is shown.\<close>
  \<^item> Transport: a send delivers everything and a receive exactly what was asked for, whatever the pieces
    and signals; connecting never leaks a socket.
  \<^item> File service: every well-formed request of a stream is answered once and in order, without leaving a
    buffer; each handler answers with what the host did (open, read, write, the directories), and the
    directory table refines its abstract specification.
  \<^item> Console: the marker is found line by line however the output is cut; exactly which part of a long line
    is searched; and that a status before the marker is not found.
  \<^item> Threads: in every interleaving the exit status is decided in one state of the run, by what the console
    output scanned there and the state of the connection, the handshake and the clock make it (\<open>exit_reason\<close>);
    commands follow the handshake, the handshake is paced and returns within its timeout, and the main
    loop ends.
  \<^item> The whole program: ps2client ends with a documented status, and unless that is 69 the command the
    arguments ask for went out exactly once, after the datagrams of the handshake.
  \<^item> Commands and arguments: packets, read by the structures of \<^verbatim>\<open>doc/ps2link-protocol.txt\<close>, are the command
    that was sent, with the one exception of \<open>gsexec\<close>, which the code sends in another form; path names and
    argument vectors, options and numbers; the connections each command needs; and that no truncated
    command line is sent.
  \<^item> fsclient: a copy that reports success has copied exactly the file, to the PS2 by what the replies of the
    server acknowledge, and with a server and a host that do their part it succeeds; a listing shows
    exactly the entries the server sends. Replies are taken as they come: no number of a reply is checked.
  \<^item> resetcheck: what was run before each result, and that it returns.
  \<^item> ps2symbolize: nothing of the log is lost, addresses are looked up exactly, the module table is bounded.

  \<^bold>\<open>Loops.\<close> Loops over data end by a measure: the loops on the network by the weight of the remaining
  history (\<open>net_weight\<close>), so no fuel is used. The loop of \<open>resetcheck\<close> ends by the clock alone and is a
  partial function with a proof that it returns when time passes. The handshake and the main loop are
  steps: the handshake returns by a rank that falls with every turn of the main thread, and the end of the
  main loop is a theorem on runs.

  \<^bold>\<open>Parameters.\<close> The host file system, the sockets, child processes, the clock and addr2line are parameters;
  what a theorem relies on is one of its hypotheses (\<open>host_ok\<close>, \<open>appends\<close>, \<open>reads\<close>, \<open>clock_ok\<close>), and its
  witness gives a host for which they hold. Uninitialised bytes of the stack and the heap that reach the wire
  are arguments as well (\<open>env\<close>, \<open>junk\<close>), so that a theorem holds whatever they are. An access outside of an
  object, or through the null pointer of a failed \<open>malloc\<close> or \<open>localtime\<close>, is \<open>None\<close> in \<open>fix_pathname\<close> and sets a
  fault flag in the file service.

  \<^bold>\<open>Not modelled.\<close> Messages and progress output, and when the usage text is printed; the Windows branches;
  thread creation and signal set-up, whose effect is the interleaving of
  \<open>Link_Main\<close>; data races beyond the interleaving of steps; the build files, tests and documents.
\<close>

end
